(* ===== verification/Charter_Prelude.thy ===== *)
theory Charter_Prelude
  imports Main "HOL-Library.AList"
begin

text \<open>
  Prelude of the Charter development: the JavaScript containers the components share and the
  laws the component proofs use.

  \<^item> A \<open>Set\<close> that is only built from an array and listed again is \<open>js_unique\<close> (first occurrence
    wins, insertion order kept); adding one element is \<open>set_add\<close>.
  \<^item> A \<open>Map\<close> is an association list in insertion order: \<open>AList.update\<close> is \<open>Map.set\<close> (an existing
    key keeps its place), \<open>AList.delete\<close> is \<open>Map.delete\<close>, \<open>map_of\<close> is \<open>Map.get\<close>.
  \<^item> A SQL table is the list of its rows in rowid order: \<open>find P\<close> is \<open>SELECT ... LIMIT 1\<close>,
    \<open>filter P\<close> a \<open>SELECT\<close>, \<open>update_where P f\<close> an \<open>UPDATE ... WHERE\<close>, and \<open>changes P\<close> the number
    of rows such an update reports.
\<close>

named_theorems table_simps "laws of row lookup and update"

section \<open>Sets listed in insertion order\<close>

fun dedup_acc :: "'a list \<Rightarrow> 'a list \<Rightarrow> 'a list" where
  "dedup_acc seen [] = []"
| "dedup_acc seen (x # xs) =
     (if x \<in> set seen then dedup_acc seen xs else x # dedup_acc (x # seen) xs)"

definition js_unique :: "'a list \<Rightarrow> 'a list" where
  "js_unique xs = dedup_acc [] xs"

lemma set_dedup_acc: "set (dedup_acc seen xs) = set xs - set seen"
  by (induction seen xs rule: dedup_acc.induct) auto

lemma distinct_dedup_acc: "distinct (dedup_acc seen xs)"
  by (induction seen xs rule: dedup_acc.induct) (auto simp: set_dedup_acc)

lemma set_js_unique [simp]: "set (js_unique xs) = set xs"
  by (simp add: js_unique_def set_dedup_acc)

lemma distinct_js_unique [simp]: "distinct (js_unique xs)"
  by (simp add: js_unique_def distinct_dedup_acc)

lemma dedup_acc_id: "distinct xs \<Longrightarrow> set xs \<inter> set seen = {} \<Longrightarrow> dedup_acc seen xs = xs"
  by (induction seen xs rule: dedup_acc.induct) auto

lemma js_unique_id [simp]: "distinct xs \<Longrightarrow> js_unique xs = xs"
  by (simp add: js_unique_def dedup_acc_id)

definition set_add :: "'a \<Rightarrow> 'a list \<Rightarrow> 'a list" where
  "set_add x xs = (if x \<in> set xs then xs else xs @ [x])"

lemma set_set_add [simp]: "set (set_add x xs) = insert x (set xs)"
  by (auto simp: set_add_def)

lemma distinct_set_add [simp]: "distinct (set_add x xs) = distinct xs"
  by (auto simp: set_add_def)

text \<open>\<open>Map.set\<close> of a new key appends it; \<open>Map.delete\<close> is a filter on the keys.\<close>

lemma update_fresh: "k \<notin> fst ` set xs \<Longrightarrow> AList.update k v xs = xs @ [(k, v)]"
  by (induction xs) auto

lemma map_of_append_fresh:
  "k \<notin> fst ` set xs \<Longrightarrow> map_of (xs @ [(k, v)]) j = (if j = k then Some v else map_of xs j)"
  by (induction xs) auto

lemma delete_append_fresh: "k \<notin> fst ` set xs \<Longrightarrow> AList.delete k (xs @ [(k, v)]) = xs"
  by (induction xs) (auto simp: AList.delete_eq)

lemma update_append_fresh:
  "k \<notin> fst ` set xs \<Longrightarrow> AList.update k w (xs @ [(k, v)]) = xs @ [(k, w)]"
  by (induction xs) auto

lemma delete_split:
  assumes "distinct (map fst xs)" and "map_of xs k = Some v"
  obtains us ws where "xs = us @ (k, v) # ws" and "AList.delete k xs = us @ ws"
    and "k \<notin> fst ` set us" and "k \<notin> fst ` set ws"
proof -
  from assms(2) have "(k, v) \<in> set xs" by (rule map_of_SomeD)
  then obtain us ws where xs: "xs = us @ (k, v) # ws" by (meson split_list)
  with assms(1) have keys: "k \<notin> fst ` set us" "k \<notin> fst ` set ws" by auto
  have "filter (\<lambda>(k', _). k \<noteq> k') us = us" "filter (\<lambda>(k', _). k \<noteq> k') ws = ws"
    using keys by (force simp: filter_id_conv)+
  then have "AList.delete k xs = us @ ws" by (simp add: xs AList.delete_eq)
  with that xs keys show thesis by blast
qed

lemma update_split:
  assumes "distinct (map fst xs)" and "map_of xs k = Some v"
  obtains us ws where "xs = us @ (k, v) # ws" and "AList.update k w xs = us @ (k, w) # ws"
    and "k \<notin> fst ` set us" and "k \<notin> fst ` set ws"
proof -
  obtain us ws where xs: "xs = us @ (k, v) # ws" and keys: "k \<notin> fst ` set us" "k \<notin> fst ` set ws"
    using delete_split[OF assms] by metis
  have "AList.update k w (us @ (k, v) # ws) = us @ (k, w) # ws"
    using keys(1) by (induction us) auto
  with that xs keys show thesis by blast
qed

section \<open>Tables of rows\<close>

definition update_where :: "('r \<Rightarrow> bool) \<Rightarrow> ('r \<Rightarrow> 'r) \<Rightarrow> 'r list \<Rightarrow> 'r list" where
  "update_where P f rows = map (\<lambda>r. if P r then f r else r) rows"

definition changes :: "('r \<Rightarrow> bool) \<Rightarrow> 'r list \<Rightarrow> nat" where
  "changes P rows = length (filter P rows)"

lemma update_where_Nil [simp]: "update_where P f [] = []"
  by (simp add: update_where_def)

lemma update_where_Cons [simp]:
  "update_where P f (r # rows) = (if P r then f r else r) # update_where P f rows"
  by (simp add: update_where_def)

lemma update_where_append [simp]:
  "update_where P f (xs @ ys) = update_where P f xs @ update_where P f ys"
  by (simp add: update_where_def)

lemma length_update_where [simp]: "length (update_where P f rows) = length rows"
  by (simp add: update_where_def)

lemma set_update_where: "set (update_where P f rows) = (\<lambda>r. if P r then f r else r) ` set rows"
  by (simp add: update_where_def)

lemma map_update_where [table_simps]:
  "(\<And>r. g (f r) = g r) \<Longrightarrow> map g (update_where P f rows) = map g rows"
  by (induction rows) auto

lemma update_where_none [table_simps]:
  "\<forall>r\<in>set rows. \<not> P r \<Longrightarrow> update_where P f rows = rows"
  by (induction rows) auto

lemma update_where_other_key [table_simps]:
  "i \<notin> k ` set rows \<Longrightarrow> update_where (\<lambda>r. k r = i) f rows = rows"
  by (induction rows) auto

lemma filter_update_where:
  "(\<And>r. Q (f r) = Q r) \<Longrightarrow> filter Q (update_where P f rows) = update_where P f (filter Q rows)"
  by (induction rows) auto

lemma find_update_where:
  "(\<And>r. k (f r) = k r) \<Longrightarrow>
   find (\<lambda>r. k r = i) (update_where P f rows) =
   map_option (\<lambda>r. if P r then f r else r) (find (\<lambda>r. k r = i) rows)"
  by (induction rows) auto

lemma find_append [table_simps]:
  "find P (xs @ ys) = (case find P xs of None \<Rightarrow> find P ys | Some r \<Rightarrow> Some r)"
  by (induction xs) auto

lemma find_key_SomeD: "find (\<lambda>r. k r = i) rows = Some r \<Longrightarrow> r \<in> set rows \<and> k r = i"
  by (auto simp: find_Some_iff)

lemma find_key_NoneD: "find (\<lambda>r. k r = i) rows = None \<Longrightarrow> r \<in> set rows \<Longrightarrow> k r \<noteq> i"
  by (auto simp: find_None_iff)

lemma find_key_distinct:
  "distinct (map k rows) \<Longrightarrow> r \<in> set rows \<Longrightarrow> find (\<lambda>r'. k r' = k r) rows = Some r"
  by (induction rows) (auto simp: image_iff)

lemma filter_key_distinct:
  "distinct (map k rows) \<Longrightarrow>
   filter (\<lambda>r. k r = i) rows = (case find (\<lambda>r. k r = i) rows of None \<Rightarrow> [] | Some r \<Rightarrow> [r])"
proof (induction rows)
  case Nil
  then show ?case by simp
next
  case (Cons r rows)
  show ?case
  proof (cases "k r = i")
    case True
    with Cons.prems have "filter (\<lambda>r. k r = i) rows = []"
      by (auto simp: filter_empty_conv image_iff)
    with True show ?thesis by simp
  next
    case False
    with Cons show ?thesis by simp
  qed
qed

lemma changes_le_one: "distinct (map k rows) \<Longrightarrow> changes (\<lambda>r. k r = i \<and> P r) rows \<le> 1"
  by (induction rows) (auto simp: changes_def filter_empty_conv image_iff le_Suc_eq)

section \<open>Result values\<close>

text \<open>Sequencing of fallible steps: the first error wins, as a thrown exception does.\<close>

fun and_then :: "'e + 'a \<Rightarrow> ('a \<Rightarrow> 'e + 'b) \<Rightarrow> 'e + 'b" where
  "and_then (Inl e) f = Inl e"
| "and_then (Inr x) f = f x"

lemma and_then_Inr: "and_then m f = Inr y \<longleftrightarrow> (\<exists>x. m = Inr x \<and> f x = Inr y)"
  by (cases m) auto

lemma and_then_InrE:
  "and_then m f = Inr y \<Longrightarrow> (\<And>x. m = Inr x \<Longrightarrow> f x = Inr y \<Longrightarrow> P) \<Longrightarrow> P"
  by (cases m) auto

definition require :: "'e \<Rightarrow> 'a option \<Rightarrow> 'e + 'a" where
  "require e v = (case v of None \<Rightarrow> Inl e | Some x \<Rightarrow> Inr x)"

lemma require_Inr [simp]: "require e v = Inr x \<longleftrightarrow> v = Some x"
  by (simp add: require_def split: option.splits)

lemma require_Inl [simp]: "require e v = Inl e' \<longleftrightarrow> v = None \<and> e' = e"
  by (auto simp: require_def split: option.splits)

lemma require_Some [simp]: "require e (Some x) = Inr x"
  by (simp add: require_def)

lemma require_None [simp]: "require e None = Inl e"
  by (simp add: require_def)

definition coalesce :: "'a option \<Rightarrow> 'a option \<Rightarrow> 'a option" where
  "coalesce a b = (case a of None \<Rightarrow> b | Some x \<Rightarrow> Some x)"

lemma coalesce_simps [simp]:
  "coalesce None b = b" "coalesce (Some x) b = Some x" "coalesce a None = a"
  by (auto simp: coalesce_def split: option.splits)

definition or_else :: "'a \<Rightarrow> 'a option \<Rightarrow> 'a" where
  "or_else d v = (case v of None \<Rightarrow> d | Some x \<Rightarrow> x)"

lemma or_else_simps [simp]: "or_else d None = d" "or_else d (Some x) = x"
  by (simp_all add: or_else_def)

section \<open>Decimal rendering of numbers\<close>

text \<open>\<open>${n}\<close> of a non-negative integer.\<close>

definition digit_char :: "nat \<Rightarrow> char" where
  "digit_char d = char_of (48 + d)"

fun show_nat :: "nat \<Rightarrow> string" where
  "show_nat n = (if n < 10 then [digit_char n] else show_nat (n div 10) @ [digit_char (n mod 10)])"

declare show_nat.simps [simp del]

definition digit_val :: "char \<Rightarrow> nat" where
  "digit_val c = of_char c - 48"

definition nat_of_digits :: "string \<Rightarrow> nat" where
  "nat_of_digits s = foldl (\<lambda>a c. 10 * a + digit_val c) 0 s"

lemma digit_val_char: "d < 10 \<Longrightarrow> digit_val (digit_char d) = d"
  by (simp add: digit_val_def digit_char_def of_char_of)

lemma nat_of_digits_show_nat: "nat_of_digits (show_nat n) = n"
proof (induction n rule: show_nat.induct)
  case (1 n)
  then show ?case
    by (subst show_nat.simps) (auto simp: nat_of_digits_def digit_val_char)
qed

lemma show_nat_inject [simp]: "show_nat m = show_nat n \<longleftrightarrow> m = n"
  by (metis nat_of_digits_show_nat)

end
