(* ===== verification/Foundation.thy ===== *)
theory Foundation
  imports Charter_Prelude
begin

text \<open>
  \<open>packages/foundation\<close>: the product error record and its conversion from thrown values
  (\<open>errors.ts\<close>), the per-key sequence allocator that orders task events (\<open>sequence.ts\<close>), the
  byte and line-ending helpers of the file services (\<open>bytes.ts\<close>), and the JSON values of
  payloads. A JSON object is an association list in insertion order; \<open>json_spread\<close> is the object
  spread of JavaScript (a later key overwrites in place).

  \<open>JUndef\<close> is \<open>undefined\<close>, which an object may hold as a value (an absent optional field) and
  which serialisation drops. Numbers are the integers the code puts into payloads; a character
  is one code unit of a string.
\<close>

datatype json =
    JNull | JUndef | JBool bool | JNum int | JStr string
  | JArr "json list" | JObj "(string \<times> json) list"

definition json_spread ::
    "(string \<times> json) list \<Rightarrow> (string \<times> json) list \<Rightarrow> (string \<times> json) list" where
  "json_spread base patch = fold (\<lambda>(k, v) acc. AList.update k v acc) patch base"

definition json_opt_str :: "string option \<Rightarrow> json" where
  "json_opt_str v = (case v of None \<Rightarrow> JNull | Some s \<Rightarrow> JStr s)"

section \<open>Product errors\<close>

datatype error_severity = Sev_info | Sev_warning_level | Sev_error_level | Sev_fatal

record product_error =
  pe_code :: string
  pe_severity :: error_severity
  pe_userMessage :: string
  pe_technicalMessage :: "string option"
  pe_context :: "json option"
  pe_retryable :: bool

record product_error_options =
  peo_userMessage :: string
  peo_severity :: "error_severity option"
  peo_technicalMessage :: "string option"
  peo_context :: "json option"
  peo_retryable :: "bool option"

definition productError :: "string \<Rightarrow> product_error_options \<Rightarrow> product_error" where
  "productError code opts =
     \<lparr> pe_code = code,
       pe_severity = or_else Sev_error_level (peo_severity opts),
       pe_userMessage = peo_userMessage opts,
       pe_technicalMessage = peo_technicalMessage opts,
       pe_context = peo_context opts,
       pe_retryable = or_else False (peo_retryable opts) \<rparr>"

text \<open>A thrown value: a \<open>ProductFailure\<close>, a plain value of product-error shape, another
  \<open>Error\<close> (name, message, stack lines) or anything else with its \<open>String(...)\<close>.\<close>

datatype thrown =
    Thrown_failure product_error
  | Thrown_product_error product_error
  | Thrown_error string string "string list option"
  | Thrown_other string

fun errorMessage :: "thrown \<Rightarrow> string" where
  "errorMessage (Thrown_failure e) = pe_userMessage e"
| "errorMessage (Thrown_product_error e) = ''[object Object]''"
| "errorMessage (Thrown_error name message stack) = message"
| "errorMessage (Thrown_other s) = s"

fun join_lines :: "string list \<Rightarrow> string" where
  "join_lines [] = []"
| "join_lines [l] = l"
| "join_lines (l # ls) = l @ [CHR 0x0A] @ join_lines ls"

fun toProductError :: "thrown \<Rightarrow> string \<Rightarrow> product_error" where
  "toProductError (Thrown_failure e) fallbackCode = e"
| "toProductError (Thrown_product_error e) fallbackCode = e"
| "toProductError (Thrown_error name message stack) fallbackCode =
     productError fallbackCode
       \<lparr> peo_userMessage = ''An unexpected error occurred.'',
         peo_severity = None,
         peo_technicalMessage = Some (name @ '': '' @ message),
         peo_context = (case stack of None \<Rightarrow> None | Some ls \<Rightarrow>
            if join_lines ls = [] then None
            else Some (JObj [(''stack'', JStr (join_lines (take 8 ls)))])),
         peo_retryable = None \<rparr>"
| "toProductError (Thrown_other s) fallbackCode =
     productError fallbackCode
       \<lparr> peo_userMessage = ''An unexpected error occurred.'',
         peo_severity = None, peo_technicalMessage = Some s, peo_context = None,
         peo_retryable = None \<rparr>"

section \<open>Sequence allocator\<close>

type_synonym seq_state = "(string \<times> nat) list"

definition seq_current :: "string \<Rightarrow> seq_state \<Rightarrow> nat" where
  "seq_current key state = or_else 0 (map_of state key)"

definition seq_next :: "string \<Rightarrow> seq_state \<Rightarrow> nat \<times> seq_state" where
  "seq_next key state =
     (let value = or_else 0 (map_of state key) + 1 in (value, AList.update key value state))"

definition seq_seed :: "string \<Rightarrow> nat \<Rightarrow> seq_state \<Rightarrow> seq_state" where
  "seq_seed key lastUsed state =
     (let current = or_else 0 (map_of state key) in
      if lastUsed > current then AList.update key lastUsed state else state)"

text \<open>The contract of the \<open>SequenceAllocator\<close> interface, and what a caller gets from it.\<close>

locale sequence_allocator =
  fixes current :: "'k \<Rightarrow> 's \<Rightarrow> nat"
    and next_value :: "'k \<Rightarrow> 's \<Rightarrow> nat \<times> 's"
    and seed :: "'k \<Rightarrow> nat \<Rightarrow> 's \<Rightarrow> 's"
  assumes next_fst: "fst (next_value k s) = Suc (current k s)"
    and next_current: "current k' (snd (next_value k s)) =
          (if k' = k then Suc (current k s) else current k' s)"
    and seed_current: "current k' (seed k n s) =
          (if k' = k then max (current k s) n else current k' s)"
begin

fun draw :: "'k list \<Rightarrow> 's \<Rightarrow> (('k \<times> nat) list) \<times> 's" where
  "draw [] s = ([], s)"
| "draw (k # ks) s =
     (let (v, s') = next_value k s; (vs, s'') = draw ks s' in ((k, v) # vs, s''))"

lemma draw_key_values:
  "map snd (filter (\<lambda>p. fst p = k) (fst (draw ks s))) =
     [Suc (current k s)..<Suc (current k s) + count_list ks k]"
proof (induction ks arbitrary: s)
  case Nil
  then show ?case by simp
next
  case (Cons j ks)
  have "map snd (filter (\<lambda>p. fst p = k) (fst (draw ks (snd (next_value j s))))) =
     [Suc (current k (snd (next_value j s)))..<
      Suc (current k (snd (next_value j s))) + count_list ks k]"
    by (rule Cons)
  then show ?case
    using next_fst[of j s] next_current[of k j s]
    by (auto simp: split_beta Let_def upt_conv_Cons)
qed

end

interpretation seq: sequence_allocator seq_current seq_next seq_seed
  by unfold_locales
    (auto simp: seq_current_def seq_next_def seq_seed_def Let_def AList.update_conv')

section \<open>Bytes and line endings\<close>

text \<open>The content of a file is a list of bytes; the text of a document is a list of code points
  (a lone surrogate of a JavaScript string is a code point of its own).\<close>

type_synonym bytes = "nat list"
type_synonym utext = "nat list"

definition detectBinary :: "bytes \<Rightarrow> bool" where
  "detectBinary bytes \<longleftrightarrow> (\<exists>b \<in> set (take 8192 bytes). b = 0)"

datatype eol_style = Eol_lf | Eol_crlf

fun count_eols :: "utext \<Rightarrow> nat option \<Rightarrow> nat \<Rightarrow> nat \<Rightarrow> nat \<times> nat" where
  "count_eols [] prev crlf lf = (crlf, lf)"
| "count_eols (c # cs) prev crlf lf =
     (if c = 10
      then if prev = Some 13 then count_eols cs (Some c) (crlf + 1) lf
           else count_eols cs (Some c) crlf (lf + 1)
      else count_eols cs (Some c) crlf lf)"

definition detectEol :: "utext \<Rightarrow> eol_style" where
  "detectEol text = (let (crlf, lf) = count_eols text None 0 0 in if crlf > lf then Eol_crlf else Eol_lf)"

text \<open>\<open>text.split(/\r\n|\r|\n/)\<close>: the alternatives are tried in this order at each place.\<close>

function split_lines_acc :: "utext \<Rightarrow> utext \<Rightarrow> utext list" where
  "split_lines_acc acc [] = [rev acc]"
| "split_lines_acc acc (c # cs) =
     (if c = 13 then
        rev acc # split_lines_acc [] (if cs \<noteq> [] \<and> hd cs = 10 then tl cs else cs)
      else if c = 10 then rev acc # split_lines_acc [] cs
      else split_lines_acc (c # acc) cs)"
  by pat_completeness auto

termination
  by (relation "measure (\<lambda>(acc, cs). length cs)") auto

definition split_lines :: "utext \<Rightarrow> utext list" where
  "split_lines text = split_lines_acc [] text"

fun join_with :: "'a list \<Rightarrow> 'a list list \<Rightarrow> 'a list" where
  "join_with sep [] = []"
| "join_with sep [l] = l"
| "join_with sep (l # ls) = l @ sep @ join_with sep ls"

definition eol_text :: "eol_style \<Rightarrow> utext" where
  "eol_text eol = (case eol of Eol_lf \<Rightarrow> [10] | Eol_crlf \<Rightarrow> [13, 10])"

definition normalizeToEol :: "utext \<Rightarrow> eol_style \<Rightarrow> utext" where
  "normalizeToEol text eol = join_with (eol_text eol) (split_lines text)"

definition eol_free :: "utext \<Rightarrow> bool" where
  "eol_free l \<longleftrightarrow> 10 \<notin> set l \<and> 13 \<notin> set l"

lemma split_lines_acc_nonempty: "split_lines_acc acc cs \<noteq> []"
  by (induction acc cs rule: split_lines_acc.induct) simp_all

lemma split_lines_acc_eol_free:
  "eol_free acc \<Longrightarrow> l \<in> set (split_lines_acc acc cs) \<Longrightarrow> eol_free l"
proof (induction acc cs rule: split_lines_acc.induct)
  case (1 acc)
  then show ?case by (simp add: eol_free_def)
next
  case (2 acc c cs)
  have nil: "eol_free []" by (simp add: eol_free_def)
  have rev: "eol_free (rev acc)" using "2.prems"(1) by (simp add: eol_free_def)
  consider "c = 13" | "c = 10" | "c \<noteq> 13" "c \<noteq> 10" by blast
  then show ?case
  proof cases
    case 1
    with "2.prems"(2) "2.IH"(1) nil rev show ?thesis by auto
  next
    case c: 2
    with "2.prems"(2) "2.IH"(2) nil rev show ?thesis by auto
  next
    case c: 3
    have "eol_free (c # acc)" using c "2.prems"(1) by (simp add: eol_free_def)
    with c "2.prems"(2) "2.IH"(3) show ?thesis by auto
  qed
qed

lemma split_lines_acc_plain:
  "eol_free l \<Longrightarrow> split_lines_acc acc (l @ cs) = split_lines_acc (rev l @ acc) cs"
  by (induction l arbitrary: acc) (auto simp: eol_free_def)

lemma split_lines_acc_join:
  "ls \<noteq> [] \<Longrightarrow> \<forall>l\<in>set ls. eol_free l \<Longrightarrow>
   split_lines_acc [] (join_with (eol_text eol) ls) = ls"
proof (induction "eol_text eol" ls rule: join_with.induct)
  case 1
  then show ?case by simp
next
  case (2 l)
  then show ?case using split_lines_acc_plain[of l "[]" "[]"] by simp
next
  case (3 l m ms)
  then have rest: "split_lines_acc [] (join_with (eol_text eol) (m # ms)) = m # ms" by simp
  have "split_lines_acc [] (l @ eol_text eol @ join_with (eol_text eol) (m # ms))
      = l # split_lines_acc [] (join_with (eol_text eol) (m # ms))"
    using 3 by (simp add: split_lines_acc_plain eol_text_def split: eol_style.splits)
  with rest show ?case by simp
qed


text \<open>C22: Event numbers of a task are dense and strictly increasing: in any interleaving of
  \<open>next\<close> calls over several keys, the numbers handed out for one key are exactly the successors
  of its current number, in order, and a re-seed never lowers the counter.\<close>

theorem sequence_numbers_dense:
  "map snd (filter (\<lambda>p. fst p = k) (fst (seq.draw ks s))) =
     [Suc (seq_current k s)..<Suc (seq_current k s) + count_list ks k] \<and>
   seq_current k (seq_seed j n s) \<ge> seq_current k s"
  using seq.draw_key_values[of k ks s] seq.seed_current[of k j n s] by auto

end
