(* ===== verification/Host_Services.thy ===== *)
theory Host_Services
  imports Foundation
begin

text \<open>
  What the components take from the platform: \<open>crypto.randomUUID\<close> (through \<open>newId\<close>, \<open>ids.ts\<close>) and
  the clock. The \<open>host\<close> record holds the values the platform will return and how many were
  taken; \<open>newId\<close> and \<open>timestamp\<close> take the next one. \<open>host_ok\<close> is the documented behaviour of
  \<open>randomUUID\<close>: no two values agree and none contains an underscore. Times are milliseconds; an
  ISO timestamp column holds the milliseconds it denotes.
\<close>

record host =
  uuid_src :: "nat \<Rightarrow> string"
  uuid_ctr :: nat
  clock_src :: "nat \<Rightarrow> int"
  clock_ctr :: nat

definition newId :: "string \<Rightarrow> host \<Rightarrow> string \<times> host" where
  "newId prefix h =
     (prefix @ ''_'' @ uuid_src h (uuid_ctr h), h\<lparr>uuid_ctr := Suc (uuid_ctr h)\<rparr>)"

definition timestamp :: "host \<Rightarrow> int \<times> host" where
  "timestamp h = (clock_src h (clock_ctr h), h\<lparr>clock_ctr := Suc (clock_ctr h)\<rparr>)"

definition host_ok :: "host \<Rightarrow> bool" where
  "host_ok h \<longleftrightarrow> inj (uuid_src h) \<and> (\<forall>n. CHR ''_'' \<notin> set (uuid_src h n))"

definition issued_id :: "host \<Rightarrow> string \<Rightarrow> bool" where
  "issued_id h i \<longleftrightarrow> (\<exists>p k. i = p @ ''_'' @ uuid_src h k \<and> k < uuid_ctr h)"

lemma underscore_suffix:
  assumes "p @ ''_'' @ u = q @ ''_'' @ v" and "CHR ''_'' \<notin> set u" and "CHR ''_'' \<notin> set v"
  shows "u = v"
proof -
  have tail: "takeWhile (\<lambda>c. c \<noteq> CHR ''_'') (rev (p @ ''_'' @ u)) = rev u"
    if "CHR ''_'' \<notin> set u" for p u :: string
    using that by (simp add: takeWhile_append takeWhile_eq_all_conv)
  have "rev u = rev v"
    using tail[OF assms(2), of p] tail[OF assms(3), of q] unfolding assms(1) by simp
  then show ?thesis by simp
qed

lemma newId_fresh:
  assumes "host_ok h" and "issued_id h i"
  shows "fst (newId p h) \<noteq> i"
proof
  assume eq: "fst (newId p h) = i"
  from assms(2) obtain q k where i: "i = q @ ''_'' @ uuid_src h k" and "k < uuid_ctr h"
    by (auto simp: issued_id_def)
  have "uuid_src h (uuid_ctr h) = uuid_src h k"
  proof (rule underscore_suffix[of p _ q])
    show "p @ ''_'' @ uuid_src h (uuid_ctr h) = q @ ''_'' @ uuid_src h k"
      using eq i by (simp add: newId_def)
  qed (use assms(1) in \<open>simp_all add: host_ok_def\<close>)
  then have "uuid_ctr h = k"
    using assms(1) by (auto simp: host_ok_def inj_def)
  with \<open>k < uuid_ctr h\<close> show False by simp
qed

lemma newId_issued: "issued_id (snd (newId p h)) (fst (newId p h))"
  by (auto simp: issued_id_def newId_def)

lemma issued_newId [simp]: "issued_id h i \<Longrightarrow> issued_id (snd (newId p h)) i"
  by (force simp: issued_id_def newId_def)

lemma issued_timestamp [simp]: "issued_id (snd (timestamp h)) i = issued_id h i"
  by (simp add: issued_id_def timestamp_def)

lemma host_ok_newId [simp]: "host_ok (snd (newId p h)) = host_ok h"
  by (simp add: host_ok_def newId_def)

lemma host_ok_timestamp [simp]: "host_ok (snd (timestamp h)) = host_ok h"
  by (simp add: host_ok_def timestamp_def)

text \<open>A concrete host for the witnesses: the n-th identifier is n times the letter x.\<close>

definition sample_host :: host where
  "sample_host = \<lparr> uuid_src = (\<lambda>n. replicate n CHR ''x''), uuid_ctr = 0,
                   clock_src = (\<lambda>n. 1000 + int n), clock_ctr = 0 \<rparr>"

lemma sample_host_ok: "host_ok sample_host"
proof -
  have "inj (\<lambda>n. replicate n CHR ''x'')"
    by (rule injI) (metis length_replicate)
  then show ?thesis by (auto simp: host_ok_def sample_host_def in_set_replicate)
qed

end
