(* ===== verification/Transition_Tables.thy ===== *)
theory Transition_Tables
  imports Charter_Prelude
begin

text \<open>
  The interface the state machines of Charter share: a table of the states each state may move
  to, the guard \<open>can\<close> the code evaluates on it, and the states the code calls terminal. The
  locale proves what every such table gives its callers: terminal states absorb every run, and a
  run that the guard accepts step by step is a path of the table. It is interpreted on the five
  tables of the program (\<open>Orchestration_Domain\<close>, \<open>Task_Machine\<close>).
\<close>

locale transition_table =
  fixes next_states :: "'s \<Rightarrow> 's list"
    and terminal :: "'s \<Rightarrow> bool"
  assumes terminal_iff: "terminal s \<longleftrightarrow> next_states s = []"
    and no_self_loop: "s \<notin> set (next_states s)"
begin

definition can :: "'s \<Rightarrow> 's \<Rightarrow> bool" where
  "can s t \<longleftrightarrow> t \<in> set (next_states s)"

fun run_ok :: "'s \<Rightarrow> 's list \<Rightarrow> bool" where
  "run_ok s [] \<longleftrightarrow> True"
| "run_ok s (t # ts) \<longleftrightarrow> can s t \<and> run_ok t ts"

abbreviation reaches :: "'s \<Rightarrow> 's \<Rightarrow> bool" where
  "reaches \<equiv> can\<^sup>*\<^sup>*"

lemma terminal_stuck: "terminal s \<Longrightarrow> \<not> can s t"
  by (simp add: terminal_iff can_def)

lemma terminal_absorbs: "reaches s t \<Longrightarrow> terminal s \<Longrightarrow> t = s"
  by (induction rule: converse_rtranclp_induct) (auto simp: terminal_stuck)

lemma run_reaches: "run_ok s ts \<Longrightarrow> reaches s (last (s # ts))"
proof (induction ts arbitrary: s)
  case Nil
  then show ?case by simp
next
  case (Cons t ts)
  then have "can s t" and "reaches t (last (t # ts))" by auto
  then show ?case by (simp add: converse_rtranclp_into_rtranclp)
qed

lemma reaches_run: "reaches s t \<Longrightarrow> \<exists>ts. run_ok s ts \<and> last (s # ts) = t"
proof (induction rule: converse_rtranclp_induct)
  case base
  have "run_ok t []" by simp
  then show ?case by force
next
  case (step y z)
  then obtain ts where "run_ok z ts" "last (z # ts) = t" by blast
  with step.hyps have "run_ok y (z # ts)" and "last (y # z # ts) = t" by simp_all
  then show ?case by blast
qed

lemma run_into_terminal_stops: "run_ok s ts \<Longrightarrow> ts \<noteq> [] \<Longrightarrow> \<not> terminal s"
  by (cases ts) (auto simp: terminal_stuck)

lemma can_irrefl: "\<not> can s s"
  by (simp add: can_def no_self_loop)

end

end
