(* ===== verification/Task_Machine.thy ===== *)
theory Task_Machine
  imports Transition_Tables
begin

text \<open>
  The Session state machine (\<open>packages/app-domain/src/task-machine.ts\<close>): the state table of a
  conversation, its guard \<open>canTransition\<close> / \<open>assertTransition\<close>, and \<open>isRunningState\<close>.
  The theorems: every Session can be archived and only \<open>ARCHIVED\<close> has no exit; a Session is
  \<open>ACCEPTED\<close> only after it was \<open>REVIEW_READY\<close>; a Session that waits for the user's permission
  was \<open>IN_PROGRESS\<close> just before.
\<close>

datatype task_state =
    DRAFT | READY | EXPLORING | PLANNING | AWAITING_PLAN_APPROVAL | IN_PROGRESS | AWAITING_USER
  | AWAITING_PERMISSION | VERIFYING | REVIEW_READY | IDLE | ACCEPTED | ROLLED_BACK | INTERRUPTED
  | FAILED | CANCELLED | ARCHIVED

fun TRANSITIONS :: "task_state \<Rightarrow> task_state list" where
  "TRANSITIONS DRAFT = [READY, CANCELLED]"
| "TRANSITIONS READY = [EXPLORING, CANCELLED]"
| "TRANSITIONS EXPLORING = [PLANNING, IN_PROGRESS, AWAITING_USER, FAILED, INTERRUPTED]"
| "TRANSITIONS PLANNING = [AWAITING_PLAN_APPROVAL, IN_PROGRESS, AWAITING_USER, FAILED, INTERRUPTED]"
| "TRANSITIONS AWAITING_PLAN_APPROVAL = [IN_PROGRESS, IDLE, CANCELLED, INTERRUPTED]"
| "TRANSITIONS IN_PROGRESS =
     [AWAITING_USER, AWAITING_PERMISSION, VERIFYING, REVIEW_READY, IDLE, FAILED, INTERRUPTED,
      EXPLORING, PLANNING]"
| "TRANSITIONS AWAITING_USER = [EXPLORING, PLANNING, IN_PROGRESS, INTERRUPTED, FAILED]"
| "TRANSITIONS AWAITING_PERMISSION = [IN_PROGRESS, INTERRUPTED, FAILED]"
| "TRANSITIONS VERIFYING = [IN_PROGRESS, REVIEW_READY, IDLE, FAILED, INTERRUPTED]"
| "TRANSITIONS REVIEW_READY = [IN_PROGRESS, IDLE, ARCHIVED, ACCEPTED, ROLLED_BACK]"
| "TRANSITIONS IDLE = [IN_PROGRESS, EXPLORING, ARCHIVED]"
| "TRANSITIONS ACCEPTED = [ARCHIVED, ROLLED_BACK]"
| "TRANSITIONS ROLLED_BACK = [ARCHIVED]"
| "TRANSITIONS INTERRUPTED = [READY, IN_PROGRESS, REVIEW_READY, IDLE, ROLLED_BACK, ARCHIVED]"
| "TRANSITIONS FAILED = [IN_PROGRESS, REVIEW_READY, IDLE, ROLLED_BACK, ARCHIVED]"
| "TRANSITIONS CANCELLED = [ARCHIVED]"
| "TRANSITIONS ARCHIVED = []"

definition RUNNING_STATES :: "task_state list" where
  "RUNNING_STATES =
     [EXPLORING, PLANNING, IN_PROGRESS, AWAITING_USER, AWAITING_PERMISSION, VERIFYING]"

definition canTransition :: "task_state \<Rightarrow> task_state \<Rightarrow> bool" where
  "canTransition from to \<longleftrightarrow> to \<in> set (TRANSITIONS from)"

datatype task_illegal_transition = Task_illegal_transition task_state task_state

definition assertTransition :: "task_state \<Rightarrow> task_state \<Rightarrow> task_illegal_transition + unit" where
  "assertTransition from to =
     (if \<not> canTransition from to then Inl (Task_illegal_transition from to) else Inr ())"

definition isRunningState :: "task_state \<Rightarrow> bool" where
  "isRunningState state \<longleftrightarrow> state \<in> set RUNNING_STATES"

definition session_closed :: "task_state \<Rightarrow> bool" where
  "session_closed s \<longleftrightarrow> s = ARCHIVED"

interpretation session_table: transition_table TRANSITIONS session_closed
proof
  show "session_closed s \<longleftrightarrow> TRANSITIONS s = []" for s
    by (cases s) (simp_all add: session_closed_def)
  show "s \<notin> set (TRANSITIONS s)" for s
    by (cases s) simp_all
qed

text \<open>A run of the machine: the states a Session is moved through, every move asserted.\<close>

fun session_run :: "task_state \<Rightarrow> task_state list \<Rightarrow> task_illegal_transition + task_state" where
  "session_run s [] = Inr s"
| "session_run s (t # ts) =
     (case assertTransition s t of Inl e \<Rightarrow> Inl e | Inr _ \<Rightarrow> session_run t ts)"

lemma session_run_ok:
  "session_run s ts = Inr t \<longleftrightarrow> session_table.run_ok s ts \<and> t = last (s # ts)"
proof (induction ts arbitrary: s)
  case Nil
  then show ?case by auto
next
  case (Cons u ts)
  then show ?case
    by (auto simp: assertTransition_def canTransition_def session_table.can_def)
qed

text \<open>A shortest way to the archive from every state.\<close>

fun archive_route :: "task_state \<Rightarrow> task_state list" where
  "archive_route DRAFT = [CANCELLED, ARCHIVED]"
| "archive_route READY = [CANCELLED, ARCHIVED]"
| "archive_route EXPLORING = [FAILED, ARCHIVED]"
| "archive_route PLANNING = [FAILED, ARCHIVED]"
| "archive_route AWAITING_PLAN_APPROVAL = [IDLE, ARCHIVED]"
| "archive_route IN_PROGRESS = [IDLE, ARCHIVED]"
| "archive_route AWAITING_USER = [FAILED, ARCHIVED]"
| "archive_route AWAITING_PERMISSION = [FAILED, ARCHIVED]"
| "archive_route VERIFYING = [IDLE, ARCHIVED]"
| "archive_route ARCHIVED = []"
| "archive_route _ = [ARCHIVED]"

lemma archive_route_runs: "session_run s (archive_route s) = Inr ARCHIVED"
  by (cases s) (simp_all add: assertTransition_def canTransition_def)

text \<open>C20: \<open>ARCHIVED\<close> is the one terminal state of a Session and is never out of reach: from
  every state at most two asserted transitions lead to \<open>ARCHIVED\<close>, and a run that goes on never
  started from \<open>ARCHIVED\<close>.\<close>

theorem session_archivable:
  "(\<exists>ts. length ts \<le> 2 \<and> session_run s ts = Inr ARCHIVED) \<and>
   (session_run ARCHIVED ts' = Inr t \<longleftrightarrow> ts' = [] \<and> t = ARCHIVED)"
proof
  have "length (archive_route s) \<le> 2" by (cases s) simp_all
  with archive_route_runs show "\<exists>ts. length ts \<le> 2 \<and> session_run s ts = Inr ARCHIVED"
    by blast
  show "session_run ARCHIVED ts' = Inr t \<longleftrightarrow> ts' = [] \<and> t = ARCHIVED"
    using session_table.run_into_terminal_stops[of ARCHIVED ts']
    by (auto simp: session_run_ok session_closed_def)
qed

lemma entered_from:
  assumes "session_table.run_ok s ts" and "t \<in> set ts"
  shows "\<exists>us vs. ts = us @ t # vs \<and> t \<in> set (TRANSITIONS (last (s # us)))"
  using assms
proof (induction ts arbitrary: s)
  case Nil
  then show ?case by simp
next
  case (Cons u ts)
  show ?case
  proof (cases "t = u")
    case True
    with Cons.prems(1) have "u # ts = [] @ t # ts \<and> t \<in> set (TRANSITIONS (last [s]))"
      by (simp add: session_table.can_def)
    then show ?thesis by blast
  next
    case False
    with Cons.prems have "session_table.run_ok u ts" and "t \<in> set ts" by auto
    then obtain us vs where "ts = us @ t # vs" and "t \<in> set (TRANSITIONS (last (u # us)))"
      using Cons.IH by blast
    then have "u # ts = (u # us) @ t # vs \<and> t \<in> set (TRANSITIONS (last (s # u # us)))"
      by simp
    then show ?thesis by blast
  qed
qed

lemma only_review_accepts: "ACCEPTED \<in> set (TRANSITIONS s) \<Longrightarrow> s = REVIEW_READY"
  by (cases s) simp_all

lemma only_progress_asks: "AWAITING_PERMISSION \<in> set (TRANSITIONS s) \<Longrightarrow> s = IN_PROGRESS"
  by (cases s) simp_all

text \<open>C21: No Session is accepted without a review and none waits for permission outside a run:
  in every asserted run from \<open>DRAFT\<close>, an \<open>ACCEPTED\<close> state comes directly after \<open>REVIEW_READY\<close> and
  an \<open>AWAITING_PERMISSION\<close> state directly after \<open>IN_PROGRESS\<close>.\<close>

theorem session_acceptance_reviewed:
  assumes "session_run DRAFT ts = Inr t"
  shows "(ACCEPTED \<in> set ts \<longrightarrow> (\<exists>us vs. ts = us @ REVIEW_READY # ACCEPTED # vs)) \<and>
         (AWAITING_PERMISSION \<in> set ts \<longrightarrow>
            (\<exists>us vs. ts = us @ IN_PROGRESS # AWAITING_PERMISSION # vs))"
proof -
  have run: "session_table.run_ok DRAFT ts"
    using assms by (simp add: session_run_ok)
  have pred: "\<exists>us vs. ts = us @ p # q # vs"
    if q: "q \<in> set ts" and p: "\<And>s. q \<in> set (TRANSITIONS s) \<Longrightarrow> s = p" and "p \<noteq> DRAFT" for p q
  proof -
    obtain us vs where ts: "ts = us @ q # vs" and "last (DRAFT # us) = p"
      using entered_from[OF run q] p by blast
    with \<open>p \<noteq> DRAFT\<close> have "us \<noteq> []" and "last us = p" by (auto split: if_splits)
    then have "ts = butlast us @ p # q # vs"
      using ts append_butlast_last_id[of us] by simp
    then show ?thesis by blast
  qed
  show ?thesis
    using pred[OF _ only_review_accepts] pred[OF _ only_progress_asks] by simp
qed

theorem session_acceptance_reviewed_witness:
  "session_run DRAFT [READY, EXPLORING, IN_PROGRESS, REVIEW_READY, ACCEPTED] = Inr ACCEPTED \<and>
   (\<exists>us vs. [READY, EXPLORING, IN_PROGRESS, REVIEW_READY, ACCEPTED]
              = us @ REVIEW_READY # ACCEPTED # vs)"
proof -
  have run: "session_run DRAFT [READY, EXPLORING, IN_PROGRESS, REVIEW_READY, ACCEPTED] = Inr ACCEPTED"
    by (simp add: assertTransition_def canTransition_def)
  with session_acceptance_reviewed[OF run] show ?thesis by simp
qed

end
