(* ===== verification/Orchestration_Domain.thy ===== *)
theory Orchestration_Domain
  imports Transition_Tables
begin

text \<open>
  The Mission domain (\<open>packages/orchestration-domain\<close>): the enumerations of the aggregate and the
  four lifecycle tables with their guards (\<open>state-machines.ts\<close>). Every table is a
  \<open>transition_table\<close>: the terminal states are exactly those without exits.
\<close>

section \<open>Enumerations\<close>

datatype mission_state =
    Mission_PLANNING | Mission_RUNNING | Mission_BLOCKED | Mission_VERIFYING
  | Mission_COMPLETED | Mission_FAILED | Mission_CANCELLED

datatype mission_task_state =
    Task_PROPOSED | Task_BLOCKED | Task_READY | Task_RUNNING | Task_VERIFYING
  | Task_COMPLETED | Task_FAILED | Task_CANCELLED

datatype assignment_state =
    Assignment_PENDING | Assignment_ACTIVE | Assignment_WAITING | Assignment_PAUSED
  | Assignment_COMPLETED | Assignment_FAILED | Assignment_CANCELLED | Assignment_ORPHANED

datatype attempt_state =
    Attempt_PLANNED | Attempt_STARTING | Attempt_RUNNING | Attempt_WAITING
  | Attempt_SUCCEEDED | Attempt_FAILED | Attempt_TIMED_OUT | Attempt_CANCELLED | Attempt_STALE

datatype assignment_work_mode = Read_only | Isolated_write | Shared_write

datatype principal_kind = User_kind | Managed_agent | External_agent | Shell_agent | System_kind

datatype principal_state = Principal_active | Principal_disconnected | Principal_ended

datatype message_type =
    Msg_assignment | Msg_progress | Msg_question | Msg_answer | Msg_escalation
  | Msg_completion | Msg_cancellation | Msg_handoff | Msg_heartbeat

datatype message_priority = Prio_normal | Prio_high | Prio_urgent

datatype message_delivery_state =
  Delivery_pending | Delivery_delivered | Delivery_observed | Delivery_failed

datatype continuation_state =
  Cont_ARMED | Cont_READY | Cont_DELIVERING | Cont_DELIVERED | Cont_CONSUMED | Cont_CANCELLED

datatype continuation_mode = Mode_all | Mode_any

datatype resume_intent_state =
  Intent_PENDING | Intent_PROCESSING | Intent_DELIVERED | Intent_ACKNOWLEDGED | Intent_CANCELLED

datatype runtime_session_state =
    Session_STARTING | Session_READY | Session_RUNNING | Session_WAITING | Session_PAUSED
  | Session_ENDED | Session_FAILED | Session_DISCONNECTED

datatype action_request_kind =
    Req_information | Req_review | Req_approval | Req_choice | Req_input | Req_recovery
  | Req_escalation

datatype action_request_status = Req_OPEN | Req_RESOLVED | Req_CANCELLED | Req_EXPIRED

datatype action_response_type = Resp_text | Resp_approval | Resp_choice | Resp_review | Resp_recovery

datatype blocking_scope = Scope_none | Scope_assignment | Scope_task | Scope_mission

datatype incident_state =
  Incident_OPEN | Incident_RECOVERING | Incident_RECOVERED | Incident_NEEDS_ACTION | Incident_CLOSED

datatype incident_severity = Sev_warning | Sev_error | Sev_critical

section \<open>Lifecycle tables\<close>

fun MISSION_TRANSITIONS :: "mission_state \<Rightarrow> mission_state list" where
  "MISSION_TRANSITIONS Mission_PLANNING = [Mission_RUNNING, Mission_CANCELLED]"
| "MISSION_TRANSITIONS Mission_RUNNING =
     [Mission_BLOCKED, Mission_VERIFYING, Mission_FAILED, Mission_CANCELLED]"
| "MISSION_TRANSITIONS Mission_BLOCKED = [Mission_RUNNING, Mission_FAILED, Mission_CANCELLED]"
| "MISSION_TRANSITIONS Mission_VERIFYING =
     [Mission_RUNNING, Mission_COMPLETED, Mission_FAILED, Mission_CANCELLED]"
| "MISSION_TRANSITIONS Mission_COMPLETED = []"
| "MISSION_TRANSITIONS Mission_FAILED = [Mission_RUNNING, Mission_CANCELLED]"
| "MISSION_TRANSITIONS Mission_CANCELLED = []"

fun TASK_TRANSITIONS :: "mission_task_state \<Rightarrow> mission_task_state list" where
  "TASK_TRANSITIONS Task_PROPOSED = [Task_BLOCKED, Task_READY, Task_CANCELLED]"
| "TASK_TRANSITIONS Task_BLOCKED = [Task_READY, Task_CANCELLED, Task_FAILED]"
| "TASK_TRANSITIONS Task_READY = [Task_RUNNING, Task_CANCELLED]"
| "TASK_TRANSITIONS Task_RUNNING =
     [Task_BLOCKED, Task_VERIFYING, Task_COMPLETED, Task_FAILED, Task_CANCELLED]"
| "TASK_TRANSITIONS Task_VERIFYING =
     [Task_RUNNING, Task_COMPLETED, Task_FAILED, Task_CANCELLED]"
| "TASK_TRANSITIONS Task_COMPLETED = []"
| "TASK_TRANSITIONS Task_FAILED = [Task_READY, Task_CANCELLED]"
| "TASK_TRANSITIONS Task_CANCELLED = []"

fun ASSIGNMENT_TRANSITIONS :: "assignment_state \<Rightarrow> assignment_state list" where
  "ASSIGNMENT_TRANSITIONS Assignment_PENDING =
     [Assignment_ACTIVE, Assignment_CANCELLED, Assignment_FAILED]"
| "ASSIGNMENT_TRANSITIONS Assignment_ACTIVE =
     [Assignment_WAITING, Assignment_PAUSED, Assignment_COMPLETED, Assignment_FAILED,
      Assignment_CANCELLED, Assignment_ORPHANED]"
| "ASSIGNMENT_TRANSITIONS Assignment_WAITING =
     [Assignment_ACTIVE, Assignment_PAUSED, Assignment_COMPLETED, Assignment_FAILED,
      Assignment_CANCELLED, Assignment_ORPHANED]"
| "ASSIGNMENT_TRANSITIONS Assignment_PAUSED =
     [Assignment_ACTIVE, Assignment_WAITING, Assignment_CANCELLED, Assignment_ORPHANED]"
| "ASSIGNMENT_TRANSITIONS Assignment_COMPLETED = []"
| "ASSIGNMENT_TRANSITIONS Assignment_FAILED =
     [Assignment_PENDING, Assignment_ACTIVE, Assignment_CANCELLED]"
| "ASSIGNMENT_TRANSITIONS Assignment_CANCELLED = []"
| "ASSIGNMENT_TRANSITIONS Assignment_ORPHANED =
     [Assignment_ACTIVE, Assignment_PAUSED, Assignment_FAILED, Assignment_CANCELLED]"

fun ATTEMPT_TRANSITIONS :: "attempt_state \<Rightarrow> attempt_state list" where
  "ATTEMPT_TRANSITIONS Attempt_PLANNED = [Attempt_STARTING, Attempt_CANCELLED]"
| "ATTEMPT_TRANSITIONS Attempt_STARTING =
     [Attempt_RUNNING, Attempt_FAILED, Attempt_TIMED_OUT, Attempt_CANCELLED]"
| "ATTEMPT_TRANSITIONS Attempt_RUNNING =
     [Attempt_WAITING, Attempt_SUCCEEDED, Attempt_FAILED, Attempt_TIMED_OUT, Attempt_CANCELLED,
      Attempt_STALE]"
| "ATTEMPT_TRANSITIONS Attempt_WAITING =
     [Attempt_RUNNING, Attempt_SUCCEEDED, Attempt_FAILED, Attempt_TIMED_OUT, Attempt_CANCELLED,
      Attempt_STALE]"
| "ATTEMPT_TRANSITIONS Attempt_SUCCEEDED = []"
| "ATTEMPT_TRANSITIONS Attempt_FAILED = []"
| "ATTEMPT_TRANSITIONS Attempt_TIMED_OUT = []"
| "ATTEMPT_TRANSITIONS Attempt_CANCELLED = []"
| "ATTEMPT_TRANSITIONS Attempt_STALE = []"

datatype machine_kind = Kind_Mission | Kind_Mission_task | Kind_Assignment | Kind_Execution_attempt

text \<open>\<open>assertAllowed\<close>: nothing when the move is listed, \<open>ORCHESTRATION_ILLEGAL_TRANSITION\<close>
  with its context otherwise.\<close>

datatype 's illegal_transition = Illegal_transition machine_kind 's 's

definition assertAllowed ::
    "machine_kind \<Rightarrow> ('s \<Rightarrow> 's list) \<Rightarrow> 's \<Rightarrow> 's \<Rightarrow> 's illegal_transition + unit" where
  "assertAllowed kind transitions from to =
     (if to \<in> set (transitions from) then Inr () else Inl (Illegal_transition kind from to))"

definition canTransitionMission :: "mission_state \<Rightarrow> mission_state \<Rightarrow> bool" where
  "canTransitionMission from to \<longleftrightarrow> to \<in> set (MISSION_TRANSITIONS from)"

definition canTransitionMissionTask :: "mission_task_state \<Rightarrow> mission_task_state \<Rightarrow> bool" where
  "canTransitionMissionTask from to \<longleftrightarrow> to \<in> set (TASK_TRANSITIONS from)"

definition canTransitionAssignment :: "assignment_state \<Rightarrow> assignment_state \<Rightarrow> bool" where
  "canTransitionAssignment from to \<longleftrightarrow> to \<in> set (ASSIGNMENT_TRANSITIONS from)"

definition canTransitionAttempt :: "attempt_state \<Rightarrow> attempt_state \<Rightarrow> bool" where
  "canTransitionAttempt from to \<longleftrightarrow> to \<in> set (ATTEMPT_TRANSITIONS from)"

definition assertMissionTransition ::
    "mission_state \<Rightarrow> mission_state \<Rightarrow> mission_state illegal_transition + unit" where
  "assertMissionTransition = assertAllowed Kind_Mission MISSION_TRANSITIONS"

definition assertMissionTaskTransition ::
    "mission_task_state \<Rightarrow> mission_task_state \<Rightarrow> mission_task_state illegal_transition + unit" where
  "assertMissionTaskTransition = assertAllowed Kind_Mission_task TASK_TRANSITIONS"

definition assertAssignmentTransition ::
    "assignment_state \<Rightarrow> assignment_state \<Rightarrow> assignment_state illegal_transition + unit" where
  "assertAssignmentTransition = assertAllowed Kind_Assignment ASSIGNMENT_TRANSITIONS"

definition assertAttemptTransition ::
    "attempt_state \<Rightarrow> attempt_state \<Rightarrow> attempt_state illegal_transition + unit" where
  "assertAttemptTransition = assertAllowed Kind_Execution_attempt ATTEMPT_TRANSITIONS"

definition TERMINAL_ATTEMPT_STATES :: "attempt_state list" where
  "TERMINAL_ATTEMPT_STATES =
     [Attempt_SUCCEEDED, Attempt_FAILED, Attempt_TIMED_OUT, Attempt_CANCELLED, Attempt_STALE]"

definition isTerminalAttemptState :: "attempt_state \<Rightarrow> bool" where
  "isTerminalAttemptState s \<longleftrightarrow> s \<in> set TERMINAL_ATTEMPT_STATES"

text \<open>The states without an exit in the three other tables.\<close>

definition mission_closed :: "mission_state \<Rightarrow> bool" where
  "mission_closed s \<longleftrightarrow> s = Mission_COMPLETED \<or> s = Mission_CANCELLED"

definition mission_task_closed :: "mission_task_state \<Rightarrow> bool" where
  "mission_task_closed s \<longleftrightarrow> s = Task_COMPLETED \<or> s = Task_CANCELLED"

definition assignment_closed :: "assignment_state \<Rightarrow> bool" where
  "assignment_closed s \<longleftrightarrow> s = Assignment_COMPLETED \<or> s = Assignment_CANCELLED"

interpretation mission_table: transition_table MISSION_TRANSITIONS mission_closed
proof
  show "mission_closed s \<longleftrightarrow> MISSION_TRANSITIONS s = []" for s
    by (cases s) (simp_all add: mission_closed_def)
  show "s \<notin> set (MISSION_TRANSITIONS s)" for s
    by (cases s) simp_all
qed

interpretation task_table: transition_table TASK_TRANSITIONS mission_task_closed
proof
  show "mission_task_closed s \<longleftrightarrow> TASK_TRANSITIONS s = []" for s
    by (cases s) (simp_all add: mission_task_closed_def)
  show "s \<notin> set (TASK_TRANSITIONS s)" for s
    by (cases s) simp_all
qed

interpretation assignment_table: transition_table ASSIGNMENT_TRANSITIONS assignment_closed
proof
  show "assignment_closed s \<longleftrightarrow> ASSIGNMENT_TRANSITIONS s = []" for s
    by (cases s) (simp_all add: assignment_closed_def)
  show "s \<notin> set (ASSIGNMENT_TRANSITIONS s)" for s
    by (cases s) simp_all
qed

interpretation attempt_table: transition_table ATTEMPT_TRANSITIONS isTerminalAttemptState
proof
  show "isTerminalAttemptState s \<longleftrightarrow> ATTEMPT_TRANSITIONS s = []" for s
    by (cases s) (simp_all add: isTerminalAttemptState_def TERMINAL_ATTEMPT_STATES_def)
  show "s \<notin> set (ATTEMPT_TRANSITIONS s)" for s
    by (cases s) simp_all
qed

text \<open>The guards the code exports are the locale's guard on each table.\<close>

lemma canTransitionAttempt_table: "canTransitionAttempt = attempt_table.can"
  by (intro ext) (simp add: canTransitionAttempt_def attempt_table.can_def)

lemma canTransitionAssignment_table: "canTransitionAssignment = assignment_table.can"
  by (intro ext) (simp add: canTransitionAssignment_def assignment_table.can_def)

lemma assertAllowed_Inr [simp]:
  "assertAllowed kind tr from to = Inr u \<longleftrightarrow> to \<in> set (tr from)"
  by (simp add: assertAllowed_def)

end
