(* ===== verification/Dependency_Graph.thy ===== *)
theory Dependency_Graph
  imports Orchestration_Domain
begin

text \<open>
  The task dependency graph of a Mission (\<open>task-dependency-graph.ts\<close>): the worklist search
  \<open>reachable\<close>, the guarded insertion \<open>assertDependencyInsertion\<close> and \<open>dependenciesSatisfied\<close>.
  The adjacency \<open>Map<string, Set<string>>\<close> is an association list of target lists; the pending
  array is a list whose last element is popped, as in the code. The search terminates because
  every round either marks one more known node or shortens the pending array.
\<close>

type_synonym task_id = string
type_synonym adjacency = "(task_id \<times> task_id list) list"

definition adj_targets :: "adjacency \<Rightarrow> task_id \<Rightarrow> task_id list" where
  "adj_targets adj v = (case map_of adj v of None \<Rightarrow> [] | Some ts \<Rightarrow> ts)"

definition adj_add :: "task_id \<Rightarrow> task_id \<Rightarrow> adjacency \<Rightarrow> adjacency" where
  "adj_add from to adj = AList.update from (set_add to (adj_targets adj from)) adj"

definition adj_nodes :: "adjacency \<Rightarrow> task_id set" where
  "adj_nodes adj = (\<Union>(v, ts) \<in> set adj. set ts)"

definition adj_edges :: "adjacency \<Rightarrow> (task_id \<times> task_id) set" where
  "adj_edges adj = {(v, w). w \<in> set (adj_targets adj v)}"

lemma finite_adj_nodes [simp]: "finite (adj_nodes adj)"
  by (auto simp: adj_nodes_def)

lemma adj_targets_nodes: "set (adj_targets adj v) \<subseteq> adj_nodes adj"
proof
  fix w
  assume "w \<in> set (adj_targets adj v)"
  then obtain ts where "map_of adj v = Some ts" and "w \<in> set ts"
    by (cases "map_of adj v") (auto simp: adj_targets_def)
  then show "w \<in> adj_nodes adj"
    by (force simp: adj_nodes_def dest: map_of_SomeD)
qed

lemma acyclic_no_edges [simp]: "acyclic {}"
  by (simp add: acyclic_def)

function reachable_loop ::
    "adjacency \<Rightarrow> task_id \<Rightarrow> task_id list \<Rightarrow> task_id list \<Rightarrow> bool" where
  "reachable_loop adj target pending seen =
     (if pending = [] then False
      else
        let current = last pending; rest = butlast pending in
        if current = target then True
        else if current \<in> set seen then reachable_loop adj target rest seen
        else reachable_loop adj target (rest @ adj_targets adj current) (current # seen))"
  by pat_completeness auto

lemma reachable_loop_smaller:
  assumes "pending \<noteq> []" and "last pending \<notin> set seen"
  shows "card (adj_nodes adj \<union> set (butlast pending @ adj_targets adj (last pending))
              - set (last pending # seen))
         < card (adj_nodes adj \<union> set pending - set seen)"
proof (rule psubset_card_mono)
  show "finite (adj_nodes adj \<union> set pending - set seen)" by simp
  have pending: "set pending = insert (last pending) (set (butlast pending))"
    using assms(1) by (metis append_butlast_last_id list.set(2) rotate1.simps(2) set_rotate1)
  have "last pending \<in> adj_nodes adj \<union> set pending - set seen"
    using assms by simp
  then show "adj_nodes adj \<union> set (butlast pending @ adj_targets adj (last pending))
          - set (last pending # seen) \<subset> adj_nodes adj \<union> set pending - set seen"
    using adj_targets_nodes[of adj "last pending"] pending by auto
qed

lemma reachable_loop_no_larger:
  "card (adj_nodes adj \<union> set (butlast pending) - set seen)
     \<le> card (adj_nodes adj \<union> set pending - set seen)"
  by (rule card_mono) (auto dest: in_set_butlastD)

termination reachable_loop
proof (relation "measures [\<lambda>(adj, target, pending, seen). card (adj_nodes adj \<union> set pending - set seen),
                           \<lambda>(adj, target, pending, seen). length pending]", goal_cases)
  case 1
  show ?case by simp
next
  case (2 adj target pending seen current rest)
  then show ?case
    using reachable_loop_no_larger[of adj pending seen] by (auto simp: le_less)
next
  case (3 adj target pending seen current rest)
  then show ?case
    using reachable_loop_smaller[of pending seen adj] by auto
qed

declare reachable_loop.simps [simp del]

definition reachable :: "adjacency \<Rightarrow> task_id \<Rightarrow> task_id \<Rightarrow> bool" where
  "reachable adj from target = reachable_loop adj target [from] []"

datatype dependency_error =
    Dependency_not_found task_id task_id
  | Dependency_cycle task_id task_id

fun add_edges :: "(task_id \<times> task_id) list \<Rightarrow> adjacency \<Rightarrow> adjacency" where
  "add_edges [] adj = adj"
| "add_edges ((t, d) # es) adj = add_edges es (adj_add t d adj)"

fun insert_dependencies ::
    "task_id list \<Rightarrow> adjacency \<Rightarrow> task_id \<Rightarrow> task_id list \<Rightarrow> dependency_error + adjacency" where
  "insert_dependencies known adj taskId [] = Inr adj"
| "insert_dependencies known adj taskId (d # ds) =
     (if d \<notin> set known then Inl (Dependency_not_found taskId d)
      else if d = taskId \<or> reachable adj d taskId then Inl (Dependency_cycle taskId d)
      else insert_dependencies known (adj_add taskId d adj) taskId ds)"

definition assertDependencyInsertion ::
    "task_id list \<Rightarrow> (task_id \<times> task_id) list \<Rightarrow> task_id \<Rightarrow> task_id list \<Rightarrow> dependency_error + unit" where
  "assertDependencyInsertion taskIds existing taskId dependencies =
     (case insert_dependencies (set_add taskId taskIds) (add_edges existing []) taskId dependencies of
        Inl e \<Rightarrow> Inl e | Inr _ \<Rightarrow> Inr ())"

definition dependenciesSatisfied ::
    "task_id list \<Rightarrow> (task_id \<rightharpoonup> mission_task_state) \<Rightarrow> bool" where
  "dependenciesSatisfied dependencyIds states =
     list_all (\<lambda>i. states i = Some Task_COMPLETED) dependencyIds"

section \<open>The search decides reachability\<close>

text \<open>Seen nodes are never the target, and their successors are seen or pending.\<close>

definition search_inv :: "adjacency \<Rightarrow> task_id \<Rightarrow> task_id list \<Rightarrow> task_id list \<Rightarrow> bool" where
  "search_inv adj target pending seen \<longleftrightarrow>
     target \<notin> set seen \<and>
     (\<forall>v\<in>set seen. set (adj_targets adj v) \<subseteq> set seen \<union> set pending)"

lemma path_leaves_seen:
  assumes "(v, target) \<in> (adj_edges adj)\<^sup>*" and "v \<in> S" and "target \<notin> S"
    and "\<forall>u\<in>S. set (adj_targets adj u) \<subseteq> S \<union> P"
  shows "\<exists>p\<in>P - S. (p, target) \<in> (adj_edges adj)\<^sup>*"
  using assms(1,2)
proof (induction rule: converse_rtrancl_induct)
  case base
  with assms(3) show ?case by simp
next
  case (step y z)
  from step.hyps(1) have "z \<in> set (adj_targets adj y)" by (simp add: adj_edges_def)
  with step.prems assms(4) have "z \<in> S \<union> P" by blast
  with step show ?case by blast
qed

lemma reachable_loop_correct:
  "search_inv adj target pending seen \<Longrightarrow>
   reachable_loop adj target pending seen \<longleftrightarrow>
   (\<exists>p\<in>set pending. (p, target) \<in> (adj_edges adj)\<^sup>*)"
proof (induction adj target pending seen rule: reachable_loop.induct)
  case (1 adj target pending seen)
  let ?E = "adj_edges adj" and ?c = "last pending" and ?r = "butlast pending"
  show ?case
  proof (cases "pending = []")
    case True
    then show ?thesis by (simp add: reachable_loop.simps)
  next
    case False
    then have set_pending: "set pending = insert ?c (set ?r)"
      by (metis append_butlast_last_id list.set(2) rotate1.simps(2) set_rotate1)
    consider (hit) "?c = target" | (old) "?c \<noteq> target" "?c \<in> set seen"
      | (new) "?c \<noteq> target" "?c \<notin> set seen" by blast
    then show ?thesis
    proof cases
      case hit
      with False set_pending show ?thesis
        by (subst reachable_loop.simps) (auto simp: Let_def)
    next
      case old
      with "1.prems" set_pending have inv: "search_inv adj target ?r seen"
        by (auto simp: search_inv_def)
      have IH: "reachable_loop adj target ?r seen \<longleftrightarrow> (\<exists>p\<in>set ?r. (p, target) \<in> ?E\<^sup>*)"
        using "1.IH"(1)[OF False refl refl old] inv by blast
      have "(\<exists>p\<in>set ?r. (p, target) \<in> ?E\<^sup>*)" if "(?c, target) \<in> ?E\<^sup>*"
        using path_leaves_seen[OF that old(2), of "set ?r"] inv
        by (auto simp: search_inv_def)
      with IH old False set_pending show ?thesis
        by (subst reachable_loop.simps) (auto simp: Let_def)
    next
      case new
      let ?p = "?r @ adj_targets adj ?c"
      from "1.prems" set_pending new have inv: "search_inv adj target ?p (?c # seen)"
        by (auto simp: search_inv_def)
      have IH: "reachable_loop adj target ?p (?c # seen) \<longleftrightarrow> (\<exists>p\<in>set ?p. (p, target) \<in> ?E\<^sup>*)"
        using "1.IH"(2)[OF False refl refl new] inv by blast
      have "(?c, target) \<in> ?E\<^sup>* \<longleftrightarrow> (\<exists>p\<in>set (adj_targets adj ?c). (p, target) \<in> ?E\<^sup>*)"
        using new(1) by (auto simp: adj_edges_def elim: converse_rtranclE
            intro: converse_rtrancl_into_rtrancl)
      with IH new False set_pending show ?thesis
        by (subst reachable_loop.simps) (auto simp: Let_def)
    qed
  qed
qed

lemma reachable_iff: "reachable adj from target \<longleftrightarrow> (from, target) \<in> (adj_edges adj)\<^sup>*"
  by (simp add: reachable_def reachable_loop_correct search_inv_def)

section \<open>Insertion keeps the graph acyclic\<close>

lemma adj_targets_add:
  "adj_targets (adj_add t d adj) v =
     (if v = t then set_add d (adj_targets adj t) else adj_targets adj v)"
  by (simp add: adj_targets_def adj_add_def AList.update_conv')

lemma adj_edges_add [simp]: "adj_edges (adj_add t d adj) = insert (t, d) (adj_edges adj)"
  by (auto simp: adj_edges_def adj_targets_add split: if_splits)

lemma adj_edges_add_edges: "adj_edges (add_edges es adj) = adj_edges adj \<union> set es"
  by (induction es adj rule: add_edges.induct) auto

lemma adj_edges_Nil [simp]: "adj_edges [] = {}"
  by (simp add: adj_edges_def adj_targets_def)

lemma insert_dependencies_Inr:
  "acyclic (adj_edges adj) \<Longrightarrow> insert_dependencies known adj t ds = Inr adj' \<Longrightarrow>
   acyclic (adj_edges adj') \<and> adj_edges adj' = adj_edges adj \<union> {t} \<times> set ds \<and>
   set ds \<subseteq> set known"
proof (induction known adj t ds arbitrary: adj' rule: insert_dependencies.induct)
  case (1 known adj taskId)
  then show ?case by auto
next
  case (2 known adj taskId d ds)
  from "2.prems"(2) have d: "d \<in> set known" "d \<noteq> taskId" "\<not> reachable adj d taskId"
    and rest: "insert_dependencies known (adj_add taskId d adj) taskId ds = Inr adj'"
    by (auto split: if_splits)
  have "acyclic (adj_edges (adj_add taskId d adj))"
    using "2.prems"(1) d(3) by (simp add: acyclic_insert reachable_iff)
  with "2.IH"[OF _ _ this rest] d rest show ?case by auto
qed

lemma insert_dependencies_complete:
  "set ds \<subseteq> set known \<Longrightarrow> acyclic (adj_edges adj \<union> {t} \<times> set ds) \<Longrightarrow>
   \<exists>adj'. insert_dependencies known adj t ds = Inr adj'"
proof (induction known adj t ds rule: insert_dependencies.induct)
  case (1 known adj taskId)
  then show ?case by simp
next
  case (2 known adj taskId d ds)
  have sub: "insert (taskId, d) (adj_edges adj) \<subseteq> adj_edges adj \<union> {taskId} \<times> set (d # ds)"
    by auto
  have "acyclic (insert (taskId, d) (adj_edges adj))"
    using acyclic_subset[OF "2.prems"(2) sub] .
  then have d: "\<not> reachable adj d taskId" "d \<noteq> taskId"
    by (auto simp: acyclic_insert reachable_iff)
  have eq: "adj_edges (adj_add taskId d adj) \<union> {taskId} \<times> set ds
          = adj_edges adj \<union> {taskId} \<times> set (d # ds)"
    by auto
  have "\<exists>adj'. insert_dependencies known (adj_add taskId d adj) taskId ds = Inr adj'"
    using "2.IH" d "2.prems" by (simp add: eq)
  with d "2.prems"(1) show ?case by simp
qed

text \<open>C16: The guard of the dependency graph is exact: for an acyclic graph of existing
  dependencies, \<open>assertDependencyInsertion\<close> accepts the new task's dependencies if and only if
  each names a task of the Mission (or the task itself, which then closes a cycle) and the graph
  with the new edges is still acyclic. In particular no accepted insertion ever creates a cycle,
  and no harmless one is refused.\<close>

theorem dependency_insertion_exact:
  assumes "acyclic (set existing)"
  shows "assertDependencyInsertion taskIds existing taskId dependencies = Inr () \<longleftrightarrow>
           set dependencies \<subseteq> insert taskId (set taskIds) \<and>
           acyclic (set existing \<union> {taskId} \<times> set dependencies)"
proof -
  let ?adj = "add_edges existing []" and ?known = "set_add taskId taskIds"
  have E: "adj_edges ?adj = set existing" by (simp add: adj_edges_add_edges)
  have "assertDependencyInsertion taskIds existing taskId dependencies = Inr () \<longleftrightarrow>
        (\<exists>adj'. insert_dependencies ?known ?adj taskId dependencies = Inr adj')"
    by (auto simp: assertDependencyInsertion_def split: sum.splits)
  also have "\<dots> \<longleftrightarrow> set dependencies \<subseteq> set ?known \<and>
               acyclic (set existing \<union> {taskId} \<times> set dependencies)"
    using insert_dependencies_Inr[of ?adj ?known taskId dependencies]
      insert_dependencies_complete[of dependencies ?known ?adj taskId] assms
    by (auto simp: E)
  finally show ?thesis by simp
qed

theorem dependency_insertion_exact_witness:
  "acyclic (set [(''b'', ''a'')]) \<and>
   assertDependencyInsertion [''a'', ''b''] [(''b'', ''a'')] ''c'' [''a'', ''b''] = Inr () \<and>
   acyclic (set [(''b'', ''a'')] \<union> {''c''} \<times> set [''a'', ''b''])"
proof -
  have ac: "acyclic (set [(''b'', ''a'')])"
    by (auto simp: acyclic_insert)
  have "assertDependencyInsertion [''a'', ''b''] [(''b'', ''a'')] ''c'' [''a'', ''b''] = Inr ()"
    by code_simp
  with ac dependency_insertion_exact[OF ac, of "[''a'', ''b'']" "''c''" "[''a'', ''b'']"]
  show ?thesis by blast
qed

end
