(* ===== verification/Canonical_Json.thy ===== *)
theory Canonical_Json
  imports Foundation "HOL-Library.Char_ord" "HOL-Library.List_Lexorder"
begin

text \<open>
  JSON texts: \<open>stringify\<close> is \<open>JSON.stringify(value) ?? 'null'\<close> of the standard library, and
  \<open>canonicalJson\<close> / \<open>hashParams\<close> are the functions of
  \<open>packages/tool-gateway/src/permission-engine.ts\<close> that bind an approval to the parameters the
  user saw. The digest function (SHA-256 in hexadecimal) is the parameter \<open>sha\<close>.

  Main result: \<open>canonicalJson\<close> identifies exactly the inputs that agree up to the order of
  object keys and up to \<open>undefined\<close> (\<open>json_norm\<close>). It rests on \<open>stringify_prefix\<close>: the texts of
  two values can be told apart whatever follows them.
\<close>

section \<open>JSON.stringify\<close>

definition hex_digit :: "nat \<Rightarrow> char" where
  "hex_digit d = ''0123456789abcdef'' ! d"

definition escape_char :: "char \<Rightarrow> string" where
  "escape_char c =
     (if c = CHR 0x22 then [CHR 0x5C, CHR 0x22]
      else if c = CHR 0x5C then [CHR 0x5C, CHR 0x5C]
      else if c = CHR 0x08 then [CHR 0x5C, CHR ''b'']
      else if c = CHR 0x09 then [CHR 0x5C, CHR ''t'']
      else if c = CHR 0x0A then [CHR 0x5C, CHR ''n'']
      else if c = CHR 0x0C then [CHR 0x5C, CHR ''f'']
      else if c = CHR 0x0D then [CHR 0x5C, CHR ''r'']
      else if of_char c < (32 :: nat) then
        [CHR 0x5C, CHR ''u'', CHR ''0'', CHR ''0'', hex_digit (of_char c div 16),
         hex_digit (of_char c mod 16)]
      else [c])"

definition json_quote :: "string \<Rightarrow> string" where
  "json_quote s = [CHR 0x22] @ concat (map escape_char s) @ [CHR 0x22]"

definition show_int :: "int \<Rightarrow> string" where
  "show_int i = (if i < 0 then [CHR ''-''] @ show_nat (nat (- i)) else show_nat (nat i))"

fun stringify :: "json \<Rightarrow> string"
  and stringify_items :: "json list \<Rightarrow> string list"
  and stringify_fields :: "(string \<times> json) list \<Rightarrow> string list" where
  "stringify JNull = ''null''"
| "stringify JUndef = ''null''"
| "stringify (JBool b) = (if b then ''true'' else ''false'')"
| "stringify (JNum i) = show_int i"
| "stringify (JStr s) = json_quote s"
| "stringify (JArr vs) = ''['' @ join_with '','' (stringify_items vs) @ '']''"
| "stringify (JObj fs) = ''{'' @ join_with '','' (stringify_fields fs) @ ''}''"
| "stringify_items [] = []"
| "stringify_items (v # vs) = stringify v # stringify_items vs"
| "stringify_fields [] = []"
| "stringify_fields ((k, v) # fs) =
     (if v = JUndef then stringify_fields fs
      else (json_quote k @ '':'' @ stringify v) # stringify_fields fs)"

section \<open>canonicalJson and hashParams\<close>

text \<open>The entries of an object are sorted by key; the sort is stable and the rendered member
  travels with its key, so rendering before or after sorting is the same.\<close>

fun canonicalJson :: "json \<Rightarrow> string"
  and canonical_items :: "json list \<Rightarrow> string list"
  and canonical_entries :: "(string \<times> json) list \<Rightarrow> (string \<times> string) list" where
  "canonicalJson (JArr vs) = ''['' @ join_with '','' (canonical_items vs) @ '']''"
| "canonicalJson (JObj fs) =
     ''{'' @ join_with '','' (map snd (sort_key fst (canonical_entries fs))) @ ''}''"
| "canonicalJson JNull = stringify JNull"
| "canonicalJson JUndef = ''null''"
| "canonicalJson (JBool b) = stringify (JBool b)"
| "canonicalJson (JNum i) = stringify (JNum i)"
| "canonicalJson (JStr s) = stringify (JStr s)"
| "canonical_items [] = []"
| "canonical_items (v # vs) = canonicalJson v # canonical_items vs"
| "canonical_entries [] = []"
| "canonical_entries ((k, v) # fs) =
     (if v = JUndef then canonical_entries fs
      else (k, stringify (JStr k) @ '':'' @ canonicalJson v) # canonical_entries fs)"

definition hashParams :: "(string \<Rightarrow> string) \<Rightarrow> json \<Rightarrow> string" where
  "hashParams sha input = sha (canonicalJson input)"

text \<open>What the canonical text keeps of a value.\<close>

fun json_norm :: "json \<Rightarrow> json"
  and norm_items :: "json list \<Rightarrow> json list"
  and norm_fields :: "(string \<times> json) list \<Rightarrow> (string \<times> json) list" where
  "json_norm (JArr vs) = JArr (norm_items vs)"
| "json_norm (JObj fs) = JObj (sort_key fst (norm_fields fs))"
| "json_norm JNull = JNull"
| "json_norm JUndef = JNull"
| "json_norm (JBool b) = JBool b"
| "json_norm (JNum i) = JNum i"
| "json_norm (JStr s) = JStr s"
| "norm_items [] = []"
| "norm_items (v # vs) = json_norm v # norm_items vs"
| "norm_fields [] = []"
| "norm_fields ((k, v) # fs) =
     (if v = JUndef then norm_fields fs else (k, json_norm v) # norm_fields fs)"

section \<open>Texts of different values differ\<close>

fun defined_json :: "json \<Rightarrow> bool" and defined_items :: "json list \<Rightarrow> bool"
  and defined_fields :: "(string \<times> json) list \<Rightarrow> bool" where
  "defined_json (JArr vs) = defined_items vs"
| "defined_json (JObj fs) = defined_fields fs"
| "defined_json JUndef = False"
| "defined_json JNull = True"
| "defined_json (JBool b) = True"
| "defined_json (JNum i) = True"
| "defined_json (JStr s) = True"
| "defined_items [] = True"
| "defined_items (v # vs) = (defined_json v \<and> defined_items vs)"
| "defined_fields [] = True"
| "defined_fields ((k, v) # fs) = (defined_json v \<and> defined_fields fs)"

lemma hex_digit_inject: "d < 16 \<Longrightarrow> e < 16 \<Longrightarrow> hex_digit d = hex_digit e \<Longrightarrow> d = e"
  by (simp add: hex_digit_def nth_eq_iff_index_eq)

lemma escape_char_nonempty: "escape_char c \<noteq> []"
  by (simp add: escape_char_def)

lemma hd_escape_char: "hd (escape_char c) \<noteq> CHR 0x22"
  by (simp add: escape_char_def)

lemma quote_not_escape: "CHR 0x22 # s \<noteq> escape_char c @ u"
  using hd_escape_char[of c] escape_char_nonempty[of c] by (cases "escape_char c") auto

lemma escape_char_prefix:
  assumes "escape_char c @ s = escape_char d @ t"
  shows "c = d \<and> s = t"
proof -
  have hex: "c = d" if "hex_digit (of_char c div 16) = hex_digit (of_char d div 16)"
    "hex_digit (of_char c mod 16) = hex_digit (of_char d mod 16)"
    "of_char c < (32 :: nat)" "of_char d < (32 :: nat)"
  proof -
    have "of_char c div (16::nat) = of_char d div 16" "of_char c mod (16::nat) = of_char d mod 16"
      using that by (auto intro: hex_digit_inject)
    then have "of_char c = (of_char d :: nat)"
      by (metis div_mult_mod_eq)
    then show ?thesis by simp
  qed
  have "escape_char c @ s = escape_char d @ t \<longrightarrow> c = d \<and> s = t"
    unfolding escape_char_def using hex by auto
  with assms show ?thesis by simp
qed

lemma escape_prefix:
  "concat (map escape_char x) @ CHR 0x22 # s = concat (map escape_char y) @ CHR 0x22 # t \<Longrightarrow>
   x = y \<and> s = t"
proof (induction x arbitrary: y)
  case Nil
  then show ?case
    using quote_not_escape by (cases y) simp_all
next
  case (Cons c x)
  show ?case
  proof (cases y)
    case Nil
    with Cons.prems show ?thesis
      using quote_not_escape[symmetric] by simp
  next
    case (Cons d y')
    with Cons.prems Cons.IH[of y'] escape_char_prefix[of c _ d] show ?thesis by fastforce
  qed
qed

lemma json_quote_prefix: "json_quote x @ s = json_quote y @ t \<Longrightarrow> x = y \<and> s = t"
  using escape_prefix[of x s y t] by (simp add: json_quote_def)

definition digit :: "char \<Rightarrow> bool" where
  "digit c \<longleftrightarrow> 48 \<le> (of_char c :: nat) \<and> (of_char c :: nat) \<le> 57"

definition no_digit_next :: "string \<Rightarrow> bool" where
  "no_digit_next s \<longleftrightarrow> (case s of [] \<Rightarrow> True | c # _ \<Rightarrow> \<not> digit c)"

lemma digit_digit_char: "d < 10 \<Longrightarrow> digit (digit_char d)"
  by (simp add: digit_def digit_char_def of_char_of)

lemma digits_show_nat: "\<forall>c\<in>set (show_nat n). digit c"
proof (induction n rule: show_nat.induct)
  case (1 n)
  then show ?case by (subst show_nat.simps) (auto simp: digit_digit_char)
qed

lemma show_nat_nonempty: "show_nat n \<noteq> []"
  by (subst show_nat.simps) simp

lemma digits_prefix:
  assumes "x @ s = y @ t" "\<forall>c\<in>set x. digit c" "\<forall>c\<in>set y. digit c"
    "no_digit_next s" "no_digit_next t"
  shows "x = y \<and> s = t"
proof -
  have tw: "takeWhile digit (u @ v) = u" if "\<forall>c\<in>set u. digit c" "no_digit_next v" for u v
    using that by (auto simp: takeWhile_append2 no_digit_next_def split: list.splits)
  have "x = y" using tw[of x s] tw[of y t] assms by simp
  with assms(1) show ?thesis by simp
qed

lemma digit_minus: "\<not> digit (CHR ''-'')"
  by (simp add: digit_def)

lemma show_int_prefix:
  assumes "show_int i @ s = show_int j @ t" "no_digit_next s" "no_digit_next t"
  shows "i = j \<and> s = t"
proof -
  have neg: "hd (show_nat n) \<noteq> CHR ''-''" for n
    using digits_show_nat[of n] hd_in_set[OF show_nat_nonempty[of n]]
    by (metis digit_minus)
  have cross: "CHR ''-'' # u \<noteq> show_nat n @ v" for u n v
    using neg[of n] show_nat_nonempty[of n] by (auto simp: neq_Nil_conv)
  note digits = digits_prefix[OF _ digits_show_nat digits_show_nat assms(2,3)]
  show ?thesis
  proof (cases "i < 0"; cases "j < 0")
    assume ij: "i < 0" "j < 0"
    with assms(1) have "show_nat (nat (- i)) @ s = show_nat (nat (- j)) @ t"
      by (simp add: show_int_def)
    from digits[OF this] ij show ?thesis by auto
  next
    assume "i < 0" "\<not> j < 0"
    with assms(1) cross show ?thesis by (simp add: show_int_def)
  next
    assume "\<not> i < 0" "j < 0"
    with assms(1) cross[symmetric] show ?thesis by (simp add: show_int_def)
  next
    assume ij: "\<not> i < 0" "\<not> j < 0"
    with assms(1) have "show_nat (nat i) @ s = show_nat (nat j) @ t"
      by (simp add: show_int_def)
    from digits[OF this] ij show ?thesis by auto
  qed
qed

definition tail_join :: "string list \<Rightarrow> string" where
  "tail_join ls = concat (map (\<lambda>l. CHR '','' # l) ls)"

lemma join_with_Cons: "join_with '','' (l # ls) = l @ tail_join ls"
proof (induction ls arbitrary: l)
  case Nil
  then show ?case by (simp add: tail_join_def)
next
  case (Cons m ls)
  then show ?case by (simp add: tail_join_def)
qed

lemma show_int_hd: "\<exists>c u. show_int i = c # u \<and> (c = CHR ''-'' \<or> digit c)"
proof (cases "i < 0")
  case True
  then show ?thesis by (simp add: show_int_def)
next
  case False
  obtain c u where cu: "show_nat (nat i) = c # u"
    using show_nat_nonempty[of "nat i"] by (cases "show_nat (nat i)") auto
  then have "digit c" using digits_show_nat[of "nat i"] by simp
  with False cu show ?thesis by (simp add: show_int_def)
qed

definition opens :: "json \<Rightarrow> char \<Rightarrow> bool" where
  "opens v c = (case v of JNull \<Rightarrow> c = CHR ''n'' | JUndef \<Rightarrow> c = CHR ''n''
     | JBool b \<Rightarrow> c = (if b then CHR ''t'' else CHR ''f'') | JNum i \<Rightarrow> c = CHR ''-'' \<or> digit c
     | JStr s \<Rightarrow> c = CHR 0x22 | JArr vs \<Rightarrow> c = CHR ''['' | JObj fs \<Rightarrow> c = CHR ''{'')"

lemma stringify_opens: "\<exists>c u. stringify v = c # u \<and> opens v c"
  using show_int_hd by (cases v) (auto simp: opens_def json_quote_def)

lemma stringify_same_shape:
  assumes "stringify v @ s = stringify w @ t" "defined_json v" "defined_json w"
  shows "(v = JNull \<and> w = JNull) \<or> (\<exists>b. v = JBool b \<and> w = JBool b) \<or>
    (\<exists>i j. v = JNum i \<and> w = JNum j) \<or> (\<exists>x y. v = JStr x \<and> w = JStr y) \<or>
    (\<exists>x y. v = JArr x \<and> w = JArr y) \<or> (\<exists>x y. v = JObj x \<and> w = JObj y)"
proof -
  obtain c where "opens v c" "opens w c"
    using stringify_opens[of v] stringify_opens[of w] assms(1) by auto
  then show ?thesis
    using assms(2,3) by (cases v; cases w) (auto simp: opens_def digit_def split: if_splits)
qed

lemma stringify_close: "CHR '']'' # s \<noteq> stringify v @ t"
proof -
  obtain c u where "stringify v = c # u" and "opens v c"
    using stringify_opens by blast
  moreover have "\<not> opens v (CHR '']'')"
    by (cases v) (simp_all add: opens_def digit_def)
  ultimately show ?thesis by auto
qed

lemma quote_close: "CHR ''}'' # s \<noteq> json_quote k @ t"
  by (simp add: json_quote_def)

lemma no_digit_next_tail:
  "no_digit_next (tail_join ls @ CHR '']'' # s)" "no_digit_next (tail_join ls @ CHR ''}'' # s)"
  by (cases ls; simp add: tail_join_def no_digit_next_def digit_def)+

lemma tail_join_simps [simp]:
  "tail_join [] = []" "tail_join (l # ls) = CHR '','' # l @ tail_join ls"
  by (simp_all add: tail_join_def)

lemma array_body:
  "join_with '','' (stringify_items vs) @ CHR '']'' # s =
     join_with '','' (stringify_items ws) @ CHR '']'' # t \<Longrightarrow>
   tail_join (stringify_items vs) @ CHR '']'' # s = tail_join (stringify_items ws) @ CHR '']'' # t"
  using stringify_close by (cases vs; cases ws) (simp_all add: join_with_Cons, metis)

lemma defined_fields_Cons [simp]:
  "defined_fields (p # fs) = (defined_json (snd p) \<and> defined_fields fs)"
  by (cases p) simp

lemma stringify_fields_Cons:
  "defined_json (snd p) \<Longrightarrow>
   stringify_fields (p # fs) = (json_quote (fst p) @ '':'' @ stringify (snd p)) # stringify_fields fs"
  by (cases p) auto

lemma object_body:
  "defined_fields fs \<Longrightarrow> defined_fields gs \<Longrightarrow>
   join_with '','' (stringify_fields fs) @ CHR ''}'' # s =
     join_with '','' (stringify_fields gs) @ CHR ''}'' # t \<Longrightarrow>
   tail_join (stringify_fields fs) @ CHR ''}'' # s = tail_join (stringify_fields gs) @ CHR ''}'' # t"
  using quote_close quote_close[symmetric]
  by (cases fs; cases gs) (simp_all add: join_with_Cons stringify_fields_Cons
      del: stringify_fields.simps(2))

lemma stringify_prefix_all:
  "defined_json v \<Longrightarrow> defined_json w \<Longrightarrow> no_digit_next s \<Longrightarrow> no_digit_next t \<Longrightarrow>
     stringify v @ s = stringify w @ t \<Longrightarrow> v = w \<and> s = t"
  "defined_items vs \<Longrightarrow> defined_items ws \<Longrightarrow>
     tail_join (stringify_items vs) @ CHR '']'' # s =
     tail_join (stringify_items ws) @ CHR '']'' # t \<Longrightarrow> vs = ws \<and> s = t"
  "defined_fields fs \<Longrightarrow> defined_fields gs \<Longrightarrow>
     tail_join (stringify_fields fs) @ CHR ''}'' # s =
     tail_join (stringify_fields gs) @ CHR ''}'' # t \<Longrightarrow> fs = gs \<and> s = t"
proof (induction v and vs and fs arbitrary: w s t and ws s t and gs s t
    rule: stringify_stringify_items_stringify_fields.induct)
  case 1
  with stringify_same_shape[OF "1"(5)] show ?case by auto
next
  case 2
  then show ?case by simp
next
  case (3 b)
  with stringify_same_shape[OF "3"(5)] show ?case by auto
next
  case (4 i)
  with stringify_same_shape[OF "4"(5)] obtain j where "w = JNum j" by auto
  with 4 show ?case using show_int_prefix[of i s j t] by simp
next
  case (5 x)
  with stringify_same_shape[OF "5"(5)] obtain y where "w = JStr y" by auto
  with 5 show ?case using json_quote_prefix[of x s y t] by simp
next
  case (6 vs)
  with stringify_same_shape[OF "6.prems"(5)] obtain ws where "w = JArr ws" by auto
  with "6.IH"[of ws s t] "6.prems" array_body[of vs s ws t] show ?case by simp
next
  case (7 fs)
  with stringify_same_shape[OF "7.prems"(5)] obtain gs where "w = JObj gs" by auto
  with "7.IH"[of gs s t] "7.prems" object_body[of fs gs s t] show ?case by simp
next
  case 8
  then show ?case by (cases ws) simp_all
next
  case (9 v vs)
  then obtain w' ws' where ws: "ws = w' # ws'" by (cases ws) simp_all
  from 9 ws have vd: "defined_json v" and wd: "defined_json w'"
    and eq: "stringify v @ (tail_join (stringify_items vs) @ CHR '']'' # s) =
    stringify w' @ (tail_join (stringify_items ws') @ CHR '']'' # t)"
    by simp_all
  from "9.IH"(1)[OF vd wd no_digit_next_tail(1) no_digit_next_tail(1) eq]
  have "v = w' \<and> tail_join (stringify_items vs) @ CHR '']'' # s =
    tail_join (stringify_items ws') @ CHR '']'' # t" .
  with "9.IH"(2)[of ws' s t] "9.prems"(1,2) ws show ?case by simp
next
  case 10
  then show ?case
    by (cases gs) (auto simp: stringify_fields_Cons simp del: stringify_fields.simps(2))
next
  case (11 k v fs)
  from "11.prems"(1) have v: "v \<noteq> JUndef" and vd: "defined_json v" and fd: "defined_fields fs"
    by auto
  with "11.prems"(3) obtain p gs' where gs: "gs = p # gs'" by (cases gs) auto
  from "11.prems"(2) gs have p: "defined_json (snd p)" and gs': "defined_fields gs'"
    by auto
  have "json_quote k @ CHR '':'' # stringify v @ (tail_join (stringify_fields fs) @ CHR ''}'' # s) =
    json_quote (fst p) @ CHR '':'' # stringify (snd p) @
      (tail_join (stringify_fields gs') @ CHR ''}'' # t)"
    using "11.prems"(3) v p stringify_fields_Cons[of p gs'] by (simp add: gs)
  then have "k = fst p \<and> stringify v @ (tail_join (stringify_fields fs) @ CHR ''}'' # s) =
    stringify (snd p) @ (tail_join (stringify_fields gs') @ CHR ''}'' # t)"
    by (auto dest: json_quote_prefix)
  with "11.IH"(2)[OF v vd p no_digit_next_tail(2) no_digit_next_tail(2)]
  have "k = fst p \<and> v = snd p \<and> tail_join (stringify_fields fs) @ CHR ''}'' # s =
    tail_join (stringify_fields gs') @ CHR ''}'' # t" by blast
  with "11.IH"(3)[OF v fd gs'] gs show ?case by auto
qed

lemma stringify_inject:
  "defined_json v \<Longrightarrow> defined_json w \<Longrightarrow> stringify v = stringify w \<longleftrightarrow> v = w"
  using stringify_prefix_all(1)[of v w "[]" "[]"] by (auto simp: no_digit_next_def)

section \<open>The canonical text is the text of the normal form\<close>

lemma sort_key_map_snd:
  "sort_key fst (map (\<lambda>p. (fst p, g p)) xs) = map (\<lambda>p. (fst p, g p)) (sort_key fst xs)"
proof -
  have ins: "insort_key fst (fst x, g x) (map (\<lambda>p. (fst p, g p)) ys) =
    map (\<lambda>p. (fst p, g p)) (insort_key fst x ys)" for x ys
    by (induction ys) auto
  show ?thesis by (induction xs) (simp_all add: ins)
qed

lemma defined_norm:
  "defined_json (json_norm v)"
  "defined_items (norm_items vs)"
  "defined_fields (norm_fields fs)"
proof (induction v and vs and fs rule: json_norm_norm_items_norm_fields.induct)
  case (2 fs)
  have "defined_fields gs \<longleftrightarrow> (\<forall>p\<in>set gs. defined_json (snd p))" for gs
    by (induction gs) auto
  with 2 show ?case by simp
qed auto

abbreviation render_field :: "string \<times> json \<Rightarrow> string" where
  "render_field p \<equiv> json_quote (fst p) @ '':'' @ stringify (snd p)"

lemma stringify_fields_map:
  "defined_fields fs \<Longrightarrow> stringify_fields fs = map render_field fs"
  by (induction fs) (simp_all add: stringify_fields_Cons del: stringify_fields.simps(2))

lemma canonical_stringify:
  "canonicalJson v = stringify (json_norm v)"
  "canonical_items vs = stringify_items (norm_items vs)"
  "canonical_entries fs = map (\<lambda>p. (fst p, render_field p)) (norm_fields fs)"
proof (induction v and vs and fs rule: json_norm_norm_items_norm_fields.induct)
  case (2 fs)
  have "defined_fields (sort_key fst (norm_fields fs))"
    using defined_norm(1)[of "JObj fs"] by simp
  then show ?case
    using 2 by (simp add: sort_key_map_snd stringify_fields_map comp_def)
qed auto

text \<open>C12: An approval is bound to the meaning of the parameters: two tool inputs have the same
  canonical text exactly when they agree up to the order of object keys and up to \<open>undefined\<close>
  members, so with any digest the hashes of inputs that agree in this way are equal, and
  inputs that do not agree have the same hash only if the digest collides on two different
  texts.\<close>

theorem params_hash_binds_input:
  "(canonicalJson a = canonicalJson b \<longleftrightarrow> json_norm a = json_norm b) \<and>
   (hashParams sha a = hashParams sha b \<longleftrightarrow>
      json_norm a = json_norm b \<or>
      (canonicalJson a \<noteq> canonicalJson b \<and> sha (canonicalJson a) = sha (canonicalJson b)))"
  by (auto simp: canonical_stringify stringify_inject defined_norm hashParams_def)

end
