(* ===== verification/Permission_Store.thy ===== *)
theory Permission_Store
  imports Canonical_Json Host_Services
begin

text \<open>
  The data of the permission system and its two stores.

  Types: \<open>packages/tool-gateway/src/gateway.ts\<close> (risk levels, previews, decisions),
  \<open>packages/agent-contract/src/index.ts\<close> (agent modes, tool calls) and
  \<open>packages/tool-gateway/src/permission-engine.ts\<close> (requests, decisions, standing rules). The
  interface \<open>PermissionStore\<close> of the engine is the record \<open>permission_store\<close>; its laws are the
  locale \<open>permission_store_laws\<close>, interpreted on the in-memory store
  (\<open>createMemoryPermissionStore\<close>) and on the SQLite store of the desktop application
  (\<open>apps/desktop-main/src/services/permission-store.ts\<close>). Identifiers come from \<open>newId\<close>, so the
  primary keys of the inserts never collide; the rows their foreign keys name (tool call, task,
  workspace) are inserted by the callers before.
\<close>

section \<open>Data\<close>

datatype risk_level = R0 | R1 | R2 | R3 | R4

datatype agent_mode = Agent_ask | Agent_edit | Agent_auto | Agent_full

record risk_assessment =
  ra_level :: risk_level
  ra_reasons :: "string list"
  ra_recognized :: "bool option"

record tool_preview =
  tp_summary :: string
  tp_detail :: "string option"
  tp_diff :: json
  tp_command :: json
  tp_targets :: "string list option"
  tp_ruleKey :: "string option"

record tool_info =
  ti_name :: string
  ti_version :: nat
  ti_description :: string

record tool_call_request =
  tc_callId :: string
  tc_runId :: string
  tc_taskId :: string
  tc_toolName :: string
  tc_input :: json

datatype allow_scope = Allow_once | Allow_task | Allow_workspace | Allow_auto

datatype permission_decision =
    Allow allow_scope "string option"
  | Deny string bool

datatype request_state =
  Perm_pending | Perm_allowed | Perm_denied | Perm_cancelled | Perm_invalidated

datatype rule_kind = Rule_allow | Rule_deny

datatype grant_scope = Grant_once | Grant_task | Grant_workspace | Grant_always

record standing_rule =
  ru_id :: string
  ru_workspaceId :: string
  ru_taskId :: "string option"
  ru_kind :: rule_kind
  ru_ruleKey :: string
  ru_risk :: risk_level
  ru_createdAt :: int

record stored_request =
  sr_id :: string
  sr_toolCallId :: string
  sr_taskId :: string
  sr_state :: request_state
  sr_risk :: risk_level
  sr_previewJson :: string
  sr_createdAt :: int
  sr_resolvedAt :: "int option"

record stored_decision =
  sd_id :: string
  sd_requestId :: string
  sd_workspaceId :: string
  sd_taskId :: string
  sd_decision :: rule_kind
  sd_scope :: grant_scope
  sd_actor :: string
  sd_reason :: "string option"
  sd_createdAt :: int

text \<open>The fields of a preview, in the order its object literal spreads them.\<close>

definition preview_fields :: "tool_preview \<Rightarrow> (string \<times> json) list" where
  "preview_fields p =
     (let opt = (\<lambda>v. case v of None \<Rightarrow> JUndef | Some s \<Rightarrow> JStr s) in
      [(''summary'', JStr (tp_summary p)), (''detail'', opt (tp_detail p)),
       (''diff'', tp_diff p), (''command'', tp_command p),
       (''targets'', case tp_targets p of None \<Rightarrow> JUndef | Some ts \<Rightarrow> JArr (map JStr ts)),
       (''ruleKey'', opt (tp_ruleKey p))])"

section \<open>The store interface\<close>

record 'st permission_store =
  ps_saveRequest :: "stored_request \<Rightarrow> 'st \<Rightarrow> 'st"
  ps_resolveRequest :: "string \<Rightarrow> request_state \<Rightarrow> int \<Rightarrow> 'st \<Rightarrow> 'st"
  ps_saveDecision :: "stored_decision \<Rightarrow> 'st \<Rightarrow> 'st"
  ps_listRules :: "string \<Rightarrow> 'st \<Rightarrow> standing_rule list"
  ps_saveRule :: "standing_rule \<Rightarrow> 'st \<Rightarrow> 'st"

abbreviation request_resolved :: "request_state \<Rightarrow> int \<Rightarrow> stored_request \<Rightarrow> stored_request" where
  "request_resolved s t r \<equiv> r\<lparr>sr_state := s, sr_resolvedAt := Some t\<rparr>"

locale permission_store_laws =
  fixes ps :: "'st permission_store"
    and requests :: "'st \<Rightarrow> stored_request list"
    and decisions :: "'st \<Rightarrow> stored_decision list"
  assumes requests_saveRequest: "requests (ps_saveRequest ps r s) = requests s @ [r]"
    and requests_resolveRequest: "distinct (map sr_id (requests s)) \<Longrightarrow>
          requests (ps_resolveRequest ps i st t s) =
          update_where (\<lambda>r. sr_id r = i) (request_resolved st t) (requests s)"
    and requests_saveDecision: "requests (ps_saveDecision ps d s) = requests s"
    and requests_saveRule: "requests (ps_saveRule ps u s) = requests s"
    and decisions_saveDecision: "decisions (ps_saveDecision ps d s) = decisions s @ [d]"
    and decisions_saveRequest: "decisions (ps_saveRequest ps r s) = decisions s"
    and decisions_resolveRequest: "decisions (ps_resolveRequest ps i st t s) = decisions s"
    and decisions_saveRule: "decisions (ps_saveRule ps u s) = decisions s"
    and rules_saveRule: "set (ps_listRules ps w (ps_saveRule ps u s)) =
          set (ps_listRules ps w s) \<union> (if ru_workspaceId u = w then {u} else {})"
    and rules_saveRequest: "ps_listRules ps w (ps_saveRequest ps r s) = ps_listRules ps w s"
    and rules_resolveRequest:
          "ps_listRules ps w (ps_resolveRequest ps i st t s) = ps_listRules ps w s"
    and rules_saveDecision: "ps_listRules ps w (ps_saveDecision ps d s) = ps_listRules ps w s"
    and rules_workspace: "u \<in> set (ps_listRules ps w s) \<Longrightarrow> ru_workspaceId u = w"
begin

lemmas store_simps = requests_saveRequest requests_saveDecision requests_saveRule
  decisions_saveDecision decisions_saveRequest decisions_resolveRequest decisions_saveRule
  rules_saveRule rules_saveRequest rules_resolveRequest rules_saveDecision

end

section \<open>The in-memory store\<close>

record memory_store =
  ms_requests :: "stored_request list"
  ms_decisions :: "stored_decision list"
  ms_rules :: "standing_rule list"

fun resolve_first :: "string \<Rightarrow> request_state \<Rightarrow> int \<Rightarrow> stored_request list \<Rightarrow> stored_request list"
where
  "resolve_first i st t [] = []"
| "resolve_first i st t (r # rs) =
     (if sr_id r = i then request_resolved st t r # rs else r # resolve_first i st t rs)"

definition createMemoryPermissionStore :: "memory_store permission_store" where
  "createMemoryPermissionStore =
     \<lparr> ps_saveRequest = (\<lambda>r s. s\<lparr>ms_requests := ms_requests s @ [r]\<rparr>),
       ps_resolveRequest = (\<lambda>i st t s. s\<lparr>ms_requests := resolve_first i st t (ms_requests s)\<rparr>),
       ps_saveDecision = (\<lambda>d s. s\<lparr>ms_decisions := ms_decisions s @ [d]\<rparr>),
       ps_listRules = (\<lambda>w s. filter (\<lambda>r. ru_workspaceId r = w) (ms_rules s)),
       ps_saveRule = (\<lambda>u s. s\<lparr>ms_rules := ms_rules s @ [u]\<rparr>) \<rparr>"

definition empty_memory_store :: memory_store where
  "empty_memory_store = \<lparr> ms_requests = [], ms_decisions = [], ms_rules = [] \<rparr>"

lemma resolve_first_update:
  "distinct (map sr_id rs) \<Longrightarrow>
   resolve_first i st t rs = update_where (\<lambda>r. sr_id r = i) (request_resolved st t) rs"
proof (induction rs)
  case Nil
  then show ?case by simp
next
  case (Cons r rs)
  then show ?case by (auto simp: table_simps)
qed

interpretation mem: permission_store_laws createMemoryPermissionStore ms_requests ms_decisions
  by unfold_locales (auto simp: createMemoryPermissionStore_def resolve_first_update)

section \<open>The SQLite store\<close>

text \<open>A row of \<open>permission_decisions\<close>: a decision has a request, a standing rule has none and
  carries \<open>rule_json\<close>, kept as the pair it serialises.\<close>

record decision_row =
  dr_id :: string
  dr_request_id :: "string option"
  dr_workspace_id :: string
  dr_task_id :: "string option"
  dr_decision :: rule_kind
  dr_scope :: grant_scope
  dr_rule_json :: "(string \<times> risk_level) option"
  dr_actor :: string
  dr_reason :: "string option"
  dr_created_at :: int

record permission_tables =
  pt_requests :: "stored_request list"
  pt_decisions :: "decision_row list"

definition sql_saveRequest :: "stored_request \<Rightarrow> permission_tables \<Rightarrow> permission_tables" where
  "sql_saveRequest r db = db\<lparr>pt_requests := pt_requests db @ [r]\<rparr>"

definition sql_resolveRequest ::
    "string \<Rightarrow> request_state \<Rightarrow> int \<Rightarrow> permission_tables \<Rightarrow> permission_tables" where
  "sql_resolveRequest i st t db =
     db\<lparr>pt_requests := update_where (\<lambda>r. sr_id r = i) (request_resolved st t) (pt_requests db)\<rparr>"

definition sql_saveDecision :: "stored_decision \<Rightarrow> permission_tables \<Rightarrow> permission_tables" where
  "sql_saveDecision d db = db\<lparr>pt_decisions := pt_decisions db @
     [\<lparr> dr_id = sd_id d, dr_request_id = Some (sd_requestId d), dr_workspace_id = sd_workspaceId d,
        dr_task_id = Some (sd_taskId d), dr_decision = sd_decision d, dr_scope = sd_scope d,
        dr_rule_json = None, dr_actor = sd_actor d, dr_reason = sd_reason d,
        dr_created_at = sd_createdAt d \<rparr>]\<rparr>"

definition sql_saveRule :: "standing_rule \<Rightarrow> permission_tables \<Rightarrow> permission_tables" where
  "sql_saveRule u db = db\<lparr>pt_decisions := pt_decisions db @
     [\<lparr> dr_id = ru_id u, dr_request_id = None, dr_workspace_id = ru_workspaceId u,
        dr_task_id = ru_taskId u, dr_decision = ru_kind u,
        dr_scope = (if ru_taskId u = None then Grant_workspace else Grant_task),
        dr_rule_json = Some (ru_ruleKey u, ru_risk u), dr_actor = ''user'', dr_reason = None,
        dr_created_at = ru_createdAt u \<rparr>]\<rparr>"

definition rule_of_row :: "decision_row \<Rightarrow> string \<times> risk_level \<Rightarrow> standing_rule" where
  "rule_of_row row rule =
     \<lparr> ru_id = dr_id row, ru_workspaceId = dr_workspace_id row, ru_taskId = dr_task_id row,
       ru_kind = (if dr_decision row = Rule_deny then Rule_deny else Rule_allow),
       ru_ruleKey = fst rule, ru_risk = snd rule, ru_createdAt = dr_created_at row \<rparr>"

definition sql_listRules :: "string \<Rightarrow> permission_tables \<Rightarrow> standing_rule list" where
  "sql_listRules w db =
     map (\<lambda>row. rule_of_row row (the (dr_rule_json row)))
       (sort_key dr_created_at
          (filter (\<lambda>row. dr_workspace_id row = w \<and> dr_rule_json row \<noteq> None) (pt_decisions db)))"

definition SqlPermissionStore :: "permission_tables permission_store" where
  "SqlPermissionStore =
     \<lparr> ps_saveRequest = sql_saveRequest, ps_resolveRequest = sql_resolveRequest,
       ps_saveDecision = sql_saveDecision, ps_listRules = sql_listRules,
       ps_saveRule = sql_saveRule \<rparr>"

definition empty_permission_tables :: permission_tables where
  "empty_permission_tables = \<lparr> pt_requests = [], pt_decisions = [] \<rparr>"

text \<open>The decisions the table holds: the rows that answer a request.\<close>

definition sql_decisions :: "permission_tables \<Rightarrow> stored_decision list" where
  "sql_decisions db = concat (map (\<lambda>row. case (dr_request_id row, dr_task_id row) of
     (Some q, Some t) \<Rightarrow>
       [\<lparr> sd_id = dr_id row, sd_requestId = q, sd_workspaceId = dr_workspace_id row,
          sd_taskId = t, sd_decision = dr_decision row, sd_scope = dr_scope row,
          sd_actor = dr_actor row, sd_reason = dr_reason row, sd_createdAt = dr_created_at row \<rparr>]
   | _ \<Rightarrow> []) (pt_decisions db))"

lemma rule_round_trip:
  "set (sql_listRules w (sql_saveRule u db)) =
   set (sql_listRules w db) \<union> (if ru_workspaceId u = w then {u} else {})"
proof -
  have kind: "(if ru_kind u = Rule_deny then Rule_deny else Rule_allow) = ru_kind u"
    by (cases "ru_kind u") simp_all
  show ?thesis
    by (auto simp: sql_listRules_def sql_saveRule_def rule_of_row_def kind image_Un)
qed

interpretation sql: permission_store_laws SqlPermissionStore pt_requests sql_decisions
proof
  fix u w s
  show "set (ps_listRules SqlPermissionStore w (ps_saveRule SqlPermissionStore u s)) =
    set (ps_listRules SqlPermissionStore w s) \<union> (if ru_workspaceId u = w then {u} else {})"
    using rule_round_trip by (simp add: SqlPermissionStore_def)
  show "u \<in> set (ps_listRules SqlPermissionStore w s) \<Longrightarrow> ru_workspaceId u = w"
    by (auto simp: SqlPermissionStore_def sql_listRules_def rule_of_row_def)
qed (simp_all add: SqlPermissionStore_def sql_saveRequest_def sql_resolveRequest_def
    sql_saveDecision_def sql_saveRule_def sql_listRules_def sql_decisions_def)

end
