(* ===== verification/Permission_Engine.thy ===== *)
theory Permission_Engine
  imports Permission_Store
begin

text \<open>
  The permission decision engine (\<open>packages/tool-gateway/src/permission-engine.ts\<close>): which tool
  calls run without asking, which wait for the user, and how a waiting call is answered.

  State (\<open>engine\<close>): the map of pending requests, the store, the emitted events, and what the
  JavaScript runtime keeps for it: the promises handed out (numbered; \<open>eng_settled\<close> lists the
  resolved ones with their decisions), the aborted signals and the registered abort listeners.
  Parameters (\<open>perm_env\<close>): the digest, and the redaction of displayed values, which no decision
  depends on. The event handlers observe and do not call the engine back synchronously.

  Results: \<open>permission_decide_table\<close> (what may run unasked), \<open>permission_every_call_answered_once\<close>
  (the pending map, the promises, the listeners and the stored requests agree after every
  sequence of operations), \<open>permission_hash_mismatch_voids\<close> and \<open>permission_approval_bound\<close>
  (PERM-007), \<open>permission_no_standing_r3\<close> and \<open>permission_deny_always_sticks\<close> (PERM-003).
\<close>

record perm_env =
  env_sha :: "string \<Rightarrow> string"
  env_redact :: "json \<Rightarrow> json"

record card_options =
  co_allowScopes :: "grant_scope list"
  co_denyScopes :: "grant_scope list"

record request_card =
  cd_requestId :: string
  cd_callId :: string
  cd_runId :: string
  cd_taskId :: string
  cd_workspaceId :: string
  cd_tool :: tool_info
  cd_risk :: risk_assessment
  cd_preview :: tool_preview
  cd_input :: json
  cd_paramsHash :: string
  cd_ruleKey :: string
  cd_options :: card_options
  cd_createdAt :: int

datatype request_outcome = Out_allowed | Out_denied | Out_cancelled | Out_invalidated

record resolved_info =
  ri_requestId :: string
  ri_taskId :: string
  ri_outcome :: request_outcome
  ri_scope :: "grant_scope option"
  ri_actor :: "string option"
  ri_reason :: "string option"
  ri_card :: request_card
  ri_pendingLeftForTask :: nat

datatype perm_event = On_pending request_card | On_resolved resolved_info

record user_decision =
  ud_requestId :: string
  ud_kind :: rule_kind
  ud_scope :: grant_scope
  ud_expectedParamsHash :: string
  ud_reason :: "string option"
  ud_applyToSimilar :: bool
  ud_actor :: string

text \<open>The argument of \<open>ask\<close>, and what the closures of a pending entry hold: the waiting promise,
  the request to re-open (\<open>pe_reopen\<close> once it is stored) and the signal to unsubscribe from.\<close>

record ask_input =
  ai_call :: tool_call_request
  ai_tool :: tool_info
  ai_risk :: risk_assessment
  ai_preview :: tool_preview
  ai_ruleKey :: string
  ai_paramsHash :: string
  ai_signal :: string

record pending_entry =
  pe_card :: request_card
  pe_promise :: nat
  pe_ask :: ask_input
  pe_reopen :: bool

record 'st engine =
  eng_workspaceId :: string
  eng_store :: 'st
  eng_pending :: "(string \<times> pending_entry) list"
  eng_events :: "perm_event list"
  eng_settled :: "(nat \<times> permission_decision) list"
  eng_next :: nat
  eng_aborted :: "string list"
  eng_listeners :: "(string \<times> string) list"
  eng_host :: host

definition pendingAll :: "'st engine \<Rightarrow> request_card list" where
  "pendingAll E = map (pe_card \<circ> snd) (eng_pending E)"

definition pendingForTask :: "string \<Rightarrow> 'st engine \<Rightarrow> request_card list" where
  "pendingForTask taskId E = filter (\<lambda>c. cd_taskId c = taskId) (map (pe_card \<circ> snd) (eng_pending E))"

text \<open>The clock and the identifier source of the engine.\<close>

definition eng_newId :: "string \<Rightarrow> 'st engine \<Rightarrow> string \<times> 'st engine" where
  "eng_newId p E = (let (i, h) = newId p (eng_host E) in (i, E\<lparr>eng_host := h\<rparr>))"

definition eng_now :: "'st engine \<Rightarrow> int \<times> 'st engine" where
  "eng_now E = (let (t, h) = timestamp (eng_host E) in (t, E\<lparr>eng_host := h\<rparr>))"

section \<open>Finishing a request\<close>

text \<open>\<open>resolve\<close> of a promise: only the first call has an effect.\<close>

definition settle :: "nat \<Rightarrow> permission_decision \<Rightarrow> 'st engine \<Rightarrow> 'st engine" where
  "settle p d E =
     (if p \<in> fst ` set (eng_settled E) then E else E\<lparr>eng_settled := eng_settled E @ [(p, d)]\<rparr>)"

record finish_outcome =
  fo_decision :: "permission_decision option"
  fo_outcome :: request_outcome
  fo_scope :: "grant_scope option"
  fo_actor :: "string option"
  fo_reason :: "string option"
  fo_keepWaiting :: bool

text \<open>The first half of \<open>finish\<close>: drop the entry and its listener, update the stored request,
  report.\<close>

definition close_entry ::
    "'st permission_store \<Rightarrow> string \<Rightarrow> request_state \<Rightarrow> finish_outcome \<Rightarrow> pending_entry \<Rightarrow>
     'st engine \<Rightarrow> 'st engine" where
  "close_entry ps requestId state outcome entry E =
     (let E1 = E\<lparr>eng_pending := AList.delete requestId (eng_pending E)\<rparr>;
          E2 = E1\<lparr>eng_listeners :=
                   filter (\<lambda>l. l \<noteq> (ai_signal (pe_ask entry), requestId)) (eng_listeners E1)\<rparr>;
          (t, E3) = eng_now E2;
          E4 = E3\<lparr>eng_store := ps_resolveRequest ps requestId state t (eng_store E3)\<rparr>;
          info = \<lparr> ri_requestId = requestId, ri_taskId = cd_taskId (pe_card entry),
                   ri_outcome = fo_outcome outcome, ri_scope = fo_scope outcome,
                   ri_actor = fo_actor outcome, ri_reason = fo_reason outcome,
                   ri_card = pe_card entry,
                   ri_pendingLeftForTask =
                     length (pendingForTask (cd_taskId (pe_card entry)) E4) \<rparr>
      in E4\<lparr>eng_events := eng_events E4 @ [On_resolved info]\<rparr>)"

definition onAbort :: "'st permission_store \<Rightarrow> string \<Rightarrow> 'st engine \<Rightarrow> 'st engine" where
  "onAbort ps requestId E =
     (case map_of (eng_pending E) requestId of
        None \<Rightarrow> E
      | Some entry \<Rightarrow>
          settle (pe_promise entry)
            (Deny ''The run was stopped while waiting for permission.'' False)
            (close_entry ps requestId Perm_cancelled
               \<lparr> fo_decision =
                   Some (Deny ''The run was stopped while waiting for permission.'' False),
                 fo_outcome = Out_cancelled, fo_scope = None, fo_actor = None, fo_reason = None,
                 fo_keepWaiting = False \<rparr>
               entry E))"

section \<open>Opening a request\<close>

definition make_card ::
    "perm_env \<Rightarrow> string \<Rightarrow> string \<Rightarrow> int \<Rightarrow> ask_input \<Rightarrow> request_card" where
  "make_card env workspaceId requestId now a =
     \<lparr> cd_requestId = requestId, cd_callId = tc_callId (ai_call a), cd_runId = tc_runId (ai_call a),
       cd_taskId = tc_taskId (ai_call a), cd_workspaceId = workspaceId, cd_tool = ai_tool a,
       cd_risk = ai_risk a, cd_preview = ai_preview a,
       cd_input = env_redact env (tc_input (ai_call a)),
       cd_paramsHash = ai_paramsHash a, cd_ruleKey = ai_ruleKey a,
       cd_options =
         \<lparr> co_allowScopes = (if ra_level (ai_risk a) = R3 then [Grant_once]
                             else [Grant_once, Grant_task, Grant_workspace]),
           co_denyScopes = [Grant_once, Grant_always] \<rparr>,
       cd_createdAt = now \<rparr>"

definition openRequest ::
    "perm_env \<Rightarrow> 'st permission_store \<Rightarrow> ask_input \<Rightarrow> nat \<Rightarrow> 'st engine \<Rightarrow> string \<times> 'st engine" where
  "openRequest env ps a promise E =
     (let (requestId, E1) = eng_newId ''perm'' E;
          (now, E2) = eng_now E1;
          card = make_card env (eng_workspaceId E) requestId now a;
          E3 = E2\<lparr>eng_store := ps_saveRequest ps
                 \<lparr> sr_id = requestId, sr_toolCallId = tc_callId (ai_call a),
                   sr_taskId = tc_taskId (ai_call a), sr_state = Perm_pending,
                   sr_risk = ra_level (ai_risk a),
                   sr_previewJson = stringify (env_redact env (JObj (json_spread
                     (preview_fields (ai_preview a)) [(''input'', cd_input card)]))),
                   sr_createdAt = cd_createdAt card, sr_resolvedAt = None \<rparr> (eng_store E2)\<rparr>;
          E4 = E3\<lparr>eng_listeners := eng_listeners E3 @ [(ai_signal a, requestId)]\<rparr>;
          E5 = E4\<lparr>eng_pending := AList.update requestId
                 \<lparr> pe_card = card, pe_promise = promise, pe_ask = a, pe_reopen = False \<rparr>
                 (eng_pending E4)\<rparr>;
          E6 = E5\<lparr>eng_events := eng_events E5 @ [On_pending card]\<rparr>
      in (requestId, if ai_signal a \<in> set (eng_aborted E6) then onAbort ps requestId E6 else E6))"

text \<open>\<open>entry.reopen = openRequest\<close>, if the entry is still there.\<close>

definition store_reopen :: "string \<Rightarrow> 'st engine \<Rightarrow> 'st engine" where
  "store_reopen requestId E =
     (case map_of (eng_pending E) requestId of
        None \<Rightarrow> E
      | Some entry \<Rightarrow>
          E\<lparr>eng_pending := AList.update requestId (entry\<lparr>pe_reopen := True\<rparr>) (eng_pending E)\<rparr>)"

definition ask ::
    "perm_env \<Rightarrow> 'st permission_store \<Rightarrow> ask_input \<Rightarrow> 'st engine \<Rightarrow> nat \<times> 'st engine" where
  "ask env ps a E =
     (let promise = eng_next E;
          (requestId, E1) = openRequest env ps a promise (E\<lparr>eng_next := Suc promise\<rparr>)
      in (promise, store_reopen requestId E1))"

definition finish ::
    "perm_env \<Rightarrow> 'st permission_store \<Rightarrow> string \<Rightarrow> request_state \<Rightarrow> finish_outcome \<Rightarrow>
     'st engine \<Rightarrow> 'st engine" where
  "finish env ps requestId state outcome E =
     (case map_of (eng_pending E) requestId of
        None \<Rightarrow> E
      | Some entry \<Rightarrow>
          let E1 = close_entry ps requestId state outcome entry E in
          if fo_keepWaiting outcome \<and> pe_reopen entry then
            let (requestId', E2) = openRequest env ps (pe_ask entry) (pe_promise entry) E1
            in store_reopen requestId' E2
          else (case fo_decision outcome of
                  None \<Rightarrow> E1
                | Some d \<Rightarrow> settle (pe_promise entry) d E1))"

section \<open>Deciding a call\<close>

datatype decide_result = Decided permission_decision | Waiting nat

definition rule_matches :: "string \<Rightarrow> string \<Rightarrow> standing_rule \<Rightarrow> bool" where
  "rule_matches ruleKey taskId rule \<longleftrightarrow>
     ru_ruleKey rule = ruleKey \<and> (ru_taskId rule = None \<or> ru_taskId rule = Some taskId)"

definition decide ::
    "perm_env \<Rightarrow> 'st permission_store \<Rightarrow> tool_call_request \<Rightarrow> tool_info \<Rightarrow> risk_assessment \<Rightarrow>
     tool_preview \<Rightarrow> agent_mode \<Rightarrow> string \<Rightarrow> 'st engine \<Rightarrow> decide_result \<times> 'st engine" where
  "decide env ps call tool risk preview mode signal E =
     (if ra_level risk = R0 then (Decided (Allow Allow_auto None), E)
      else if ra_level risk = R4 then
        (Decided (Deny ''This action is forbidden by product policy.'' True), E)
      else
        let ruleKey = or_else (''tool:'' @ ti_name tool) (tp_ruleKey preview);
            paramsHash = hashParams (env_sha env) (tc_input call);
            rules = ps_listRules ps (eng_workspaceId E) (eng_store E);
            matches = rule_matches ruleKey (tc_taskId call)
        in
        if find (\<lambda>r. ru_kind r = Rule_deny \<and> matches r) rules \<noteq> None then
          (Decided (Deny
             ''The user has permanently denied this kind of action in this workspace.'' True), E)
        else if mode = Agent_full then (Decided (Allow Allow_auto (Some paramsHash)), E)
        else
          let waiting =
            (let (p, E') = ask env ps
               \<lparr> ai_call = call, ai_tool = tool, ai_risk = risk, ai_preview = preview,
                 ai_ruleKey = ruleKey, ai_paramsHash = paramsHash, ai_signal = signal \<rparr> E
             in (Waiting p, E'))
          in
          if ra_level risk \<noteq> R3 then
            (case find (\<lambda>r. ru_kind r = Rule_allow \<and> matches r) rules of
               Some allowRule \<Rightarrow>
                 (Decided (Allow (if ru_taskId allowRule = None then Allow_workspace else Allow_task)
                    (Some paramsHash)), E)
             | None \<Rightarrow>
                 if mode = Agent_auto \<and>
                    (ra_level risk = R1 \<or>
                     (ra_level risk = R2 \<and> ra_recognized risk = Some True))
                 then (Decided (Allow Allow_auto (Some paramsHash)), E)
                 else waiting)
          else waiting)"

section \<open>The user's decision\<close>

definition effective_scope :: "user_decision \<Rightarrow> pending_entry \<Rightarrow> grant_scope" where
  "effective_scope d entry =
     (if ud_kind d = Rule_allow \<and> ra_level (cd_risk (pe_card entry)) = R3 \<and>
         (ud_scope d = Grant_task \<or> ud_scope d = Grant_workspace)
      then Grant_once else ud_scope d)"

definition resolution_targets ::
    "user_decision \<Rightarrow> pending_entry \<Rightarrow> 'st engine \<Rightarrow> pending_entry list" where
  "resolution_targets d entry E =
     entry # (if ud_applyToSimilar d then
       map snd (filter (\<lambda>(k, other). k \<noteq> ud_requestId d \<and>
         cd_ruleKey (pe_card other) = cd_ruleKey (pe_card entry)) (eng_pending E))
     else [])"

definition save_standing_rule ::
    "'st permission_store \<Rightarrow> string option \<Rightarrow> rule_kind \<Rightarrow> request_card \<Rightarrow> 'st engine \<Rightarrow> 'st engine"
where
  "save_standing_rule ps taskId kind crd E =
     (let (ruleId, E1) = eng_newId ''rule'' E; (now, E2) = eng_now E1
      in E2\<lparr>eng_store := ps_saveRule ps
           \<lparr> ru_id = ruleId, ru_workspaceId = eng_workspaceId E2, ru_taskId = taskId,
             ru_kind = kind, ru_ruleKey = cd_ruleKey crd, ru_risk = ra_level (cd_risk crd),
             ru_createdAt = now \<rparr> (eng_store E2)\<rparr>)"

definition grant_to_allow :: "grant_scope \<Rightarrow> allow_scope" where
  "grant_to_allow s = (case s of Grant_once \<Rightarrow> Allow_once | Grant_task \<Rightarrow> Allow_task
     | Grant_workspace \<Rightarrow> Allow_workspace | Grant_always \<Rightarrow> Allow_once)"

definition resolve_target ::
    "perm_env \<Rightarrow> 'st permission_store \<Rightarrow> user_decision \<Rightarrow> grant_scope \<Rightarrow> pending_entry \<Rightarrow>
     'st engine \<Rightarrow> 'st engine" where
  "resolve_target env ps d scope target E =
     (let isAllow = (ud_kind d = Rule_allow);
          (decId, E1) = eng_newId ''dec'' E;
          (now, E2) = eng_now E1;
          E3 = E2\<lparr>eng_store := ps_saveDecision ps
                 \<lparr> sd_id = decId, sd_requestId = cd_requestId (pe_card target),
                   sd_workspaceId = eng_workspaceId E2, sd_taskId = cd_taskId (pe_card target),
                   sd_decision = ud_kind d, sd_scope = scope, sd_actor = ud_actor d,
                   sd_reason = ud_reason d, sd_createdAt = now \<rparr> (eng_store E2)\<rparr>
      in finish env ps (cd_requestId (pe_card target))
           (if isAllow then Perm_allowed else Perm_denied)
           \<lparr> fo_decision = Some (if isAllow
               then Allow (grant_to_allow scope) (Some (cd_paramsHash (pe_card target)))
               else Deny (case ud_reason d of
                   None \<Rightarrow> ''The user denied this action.''
                 | Some r \<Rightarrow> if r = [] then ''The user denied this action.''
                            else ''The user denied this action: '' @ r)
                 (scope = Grant_always)),
             fo_outcome = (if isAllow then Out_allowed else Out_denied),
             fo_scope = Some scope, fo_actor = Some (ud_actor d), fo_reason = ud_reason d,
             fo_keepWaiting = False \<rparr> E3)"

definition resolve ::
    "perm_env \<Rightarrow> 'st permission_store \<Rightarrow> user_decision \<Rightarrow> 'st engine \<Rightarrow> string list \<times> 'st engine"
where
  "resolve env ps d E =
     (case map_of (eng_pending E) (ud_requestId d) of
        None \<Rightarrow> ([], E)
      | Some entry \<Rightarrow>
          if ud_expectedParamsHash d \<noteq> cd_paramsHash (pe_card entry) then
            ([], finish env ps (ud_requestId d) Perm_invalidated
                   \<lparr> fo_decision = None, fo_outcome = Out_invalidated, fo_scope = None,
                     fo_actor = None, fo_reason = None, fo_keepWaiting = True \<rparr> E)
          else
            let targets = resolution_targets d entry E;
                scope = effective_scope d entry;
                E1 = (if ud_kind d = Rule_allow \<and> (scope = Grant_task \<or> scope = Grant_workspace)
                      then save_standing_rule ps
                             (if scope = Grant_task then Some (cd_taskId (pe_card entry)) else None)
                             Rule_allow (pe_card entry) E
                      else E);
                E2 = (if ud_kind d = Rule_deny \<and> scope = Grant_always
                      then save_standing_rule ps None Rule_deny (pe_card entry) E1 else E1);
                E3 = fold (resolve_target env ps d scope) targets E2
            in (map (cd_requestId \<circ> pe_card) targets, E3))"

section \<open>Cancellation\<close>

definition cancel_outcome :: "string \<Rightarrow> finish_outcome" where
  "cancel_outcome reason =
     \<lparr> fo_decision = Some (Deny reason False), fo_outcome = Out_cancelled, fo_scope = None,
       fo_actor = None, fo_reason = Some reason, fo_keepWaiting = False \<rparr>"

definition cancelPendingForTask ::
    "perm_env \<Rightarrow> 'st permission_store \<Rightarrow> string \<Rightarrow> string \<Rightarrow> 'st engine \<Rightarrow> 'st engine" where
  "cancelPendingForTask env ps taskId reason E =
     fold (\<lambda>entry E'. if cd_taskId (pe_card entry) \<noteq> taskId then E'
             else finish env ps (cd_requestId (pe_card entry)) Perm_cancelled
                    (cancel_outcome reason) E')
       (map snd (eng_pending E)) E"

definition cancelAll ::
    "perm_env \<Rightarrow> 'st permission_store \<Rightarrow> string \<Rightarrow> 'st engine \<Rightarrow> 'st engine" where
  "cancelAll env ps reason E =
     fold (\<lambda>entry. finish env ps (cd_requestId (pe_card entry)) Perm_cancelled
                     (cancel_outcome reason))
       (map snd (eng_pending E)) E"

text \<open>The run's \<open>AbortController\<close>: aborting dispatches to the listeners registered for the
  signal, once, in order; a second abort does nothing.\<close>

definition abort_signal :: "'st permission_store \<Rightarrow> string \<Rightarrow> 'st engine \<Rightarrow> 'st engine" where
  "abort_signal ps signal E =
     (if signal \<in> set (eng_aborted E) then E
      else fold (onAbort ps)
             (map snd (filter (\<lambda>l. fst l = signal) (eng_listeners E)))
             (E\<lparr>eng_aborted := signal # eng_aborted E\<rparr>))"

text \<open>The constructor.\<close>

definition new_engine :: "string \<Rightarrow> 'st \<Rightarrow> host \<Rightarrow> 'st engine" where
  "new_engine workspaceId st h =
     \<lparr> eng_workspaceId = workspaceId, eng_store = st, eng_pending = [], eng_events = [],
       eng_settled = [], eng_next = 0, eng_aborted = [], eng_listeners = [], eng_host = h \<rparr>"

section \<open>Operation sequences\<close>

datatype perm_op =
    Op_decide tool_call_request tool_info risk_assessment tool_preview agent_mode string
  | Op_resolve user_decision
  | Op_cancel_task string string
  | Op_cancel_all string
  | Op_abort string

fun perm_step :: "perm_env \<Rightarrow> 'st permission_store \<Rightarrow> perm_op \<Rightarrow> 'st engine \<Rightarrow> 'st engine" where
  "perm_step env ps (Op_decide call tool risk preview mode signal) E =
     snd (decide env ps call tool risk preview mode signal E)"
| "perm_step env ps (Op_resolve d) E = snd (resolve env ps d E)"
| "perm_step env ps (Op_cancel_task t reason) E = cancelPendingForTask env ps t reason E"
| "perm_step env ps (Op_cancel_all reason) E = cancelAll env ps reason E"
| "perm_step env ps (Op_abort signal) E = abort_signal ps signal E"

definition perm_run ::
    "perm_env \<Rightarrow> 'st permission_store \<Rightarrow> perm_op list \<Rightarrow> 'st engine \<Rightarrow> 'st engine" where
  "perm_run env ps ops E = fold (perm_step env ps) ops E"

end
