(* ===== verification/Permission_Safety.thy ===== *)
theory Permission_Safety
  imports Permission_Engine "HOL-Library.Multiset"
begin

text \<open>
  The invariant of the permission engine and the theorems it gives. The lemmas are proved once
  under the laws of the store (\<open>permission_store_laws\<close>) and used through its two
  interpretations. \<open>floating\<close> are the promises an operation holds in its hands: taken out of the
  pending map and not resolved yet.
\<close>

definition ask_bound :: "perm_env \<Rightarrow> ask_input \<Rightarrow> bool" where
  "ask_bound env a \<longleftrightarrow> ai_paramsHash a = hashParams (env_sha env) (tc_input (ai_call a))"

definition cards_ok :: "perm_env \<Rightarrow> 'st engine \<Rightarrow> bool" where
  "cards_ok env E \<longleftrightarrow>
     host_ok (eng_host E) \<and> distinct (map fst (eng_pending E)) \<and>
     (\<forall>(k, e)\<in>set (eng_pending E). issued_id (eng_host E) k \<and>
        pe_card e = make_card env (eng_workspaceId E) k (cd_createdAt (pe_card e)) (pe_ask e) \<and>
        ask_bound env (pe_ask e))"

definition promises_ok :: "nat list \<Rightarrow> 'st engine \<Rightarrow> bool" where
  "promises_ok floating E \<longleftrightarrow>
     mset (map (pe_promise \<circ> snd) (eng_pending E)) + mset (map fst (eng_settled E)) +
       mset floating = mset [0..<eng_next E]"

definition listeners_ok :: "'st engine \<Rightarrow> bool" where
  "listeners_ok E \<longleftrightarrow>
     eng_listeners E = map (\<lambda>(k, e). (ai_signal (pe_ask e), k)) (eng_pending E)"

definition open_rows :: "stored_request list \<Rightarrow> string set" where
  "open_rows rows = sr_id ` {r \<in> set rows. sr_state r = Perm_pending}"

definition rows_ok :: "('st \<Rightarrow> stored_request list) \<Rightarrow> 'st engine \<Rightarrow> bool" where
  "rows_ok requests E \<longleftrightarrow>
     distinct (map sr_id (requests (eng_store E))) \<and>
     (\<forall>r\<in>set (requests (eng_store E)). issued_id (eng_host E) (sr_id r)) \<and>
     open_rows (requests (eng_store E)) = fst ` set (eng_pending E)"

definition engine_inv ::
    "perm_env \<Rightarrow> ('st \<Rightarrow> stored_request list) \<Rightarrow> nat list \<Rightarrow> 'st engine \<Rightarrow> bool" where
  "engine_inv env requests floating E \<longleftrightarrow>
     cards_ok env E \<and> promises_ok floating E \<and> listeners_ok E \<and> rows_ok requests E"

text \<open>Between operations every entry can be re-opened and none waits on an aborted run.\<close>

definition engine_quiet :: "'st engine \<Rightarrow> bool" where
  "engine_quiet E \<longleftrightarrow> (\<forall>(k, e)\<in>set (eng_pending E).
     pe_reopen e \<and> ai_signal (pe_ask e) \<notin> set (eng_aborted E))"

lemma eng_newId_simps [simp]:
  "fst (eng_newId p E) = fst (newId p (eng_host E))"
  "snd (eng_newId p E) = E\<lparr>eng_host := snd (newId p (eng_host E))\<rparr>"
  by (simp_all add: eng_newId_def split_beta Let_def)

lemma eng_now_simps [simp]:
  "snd (eng_now E) = E\<lparr>eng_host := snd (timestamp (eng_host E))\<rparr>"
  by (simp_all add: eng_now_def split_beta Let_def)

lemma close_entry_simps [simp]:
  "eng_workspaceId (close_entry ps k st out e E) = eng_workspaceId E"
  "eng_pending (close_entry ps k st out e E) = AList.delete k (eng_pending E)"
  "eng_settled (close_entry ps k st out e E) = eng_settled E"
  "eng_next (close_entry ps k st out e E) = eng_next E"
  "eng_aborted (close_entry ps k st out e E) = eng_aborted E"
  "eng_listeners (close_entry ps k st out e E) =
     filter (\<lambda>l. l \<noteq> (ai_signal (pe_ask e), k)) (eng_listeners E)"
  "eng_host (close_entry ps k st out e E) = snd (timestamp (eng_host E))"
  "eng_store (close_entry ps k st out e E) =
     ps_resolveRequest ps k st (fst (eng_now E)) (eng_store E)"
  by (simp_all add: close_entry_def split_beta Let_def eng_now_def)

lemma settle_simps [simp]:
  "eng_workspaceId (settle p d E) = eng_workspaceId E" "eng_pending (settle p d E) = eng_pending E"
  "eng_next (settle p d E) = eng_next E" "eng_aborted (settle p d E) = eng_aborted E"
  "eng_listeners (settle p d E) = eng_listeners E" "eng_host (settle p d E) = eng_host E"
  "eng_store (settle p d E) = eng_store E"
  by (simp_all add: settle_def)

lemma promises_distinct:
  assumes "promises_ok fl E"
  shows "distinct (map (pe_promise \<circ> snd) (eng_pending E) @ map fst (eng_settled E) @ fl)"
    and "set (map (pe_promise \<circ> snd) (eng_pending E) @ map fst (eng_settled E) @ fl)
           = {..<eng_next E}"
proof -
  let ?ps = "map (pe_promise \<circ> snd) (eng_pending E) @ map fst (eng_settled E) @ fl"
  have eq: "mset ?ps = mset [0..<eng_next E]"
    using assms by (simp add: promises_ok_def add.assoc)
  show "distinct ?ps" using mset_eq_imp_distinct_iff[OF eq] by simp
  show "set ?ps = {..<eng_next E}" using mset_eq_setD[OF eq] by auto
qed

lemma floating_unsettled: "promises_ok (p # fl) E \<Longrightarrow> p \<notin> fst ` set (eng_settled E)"
  using promises_distinct(1)[of "p # fl" E] by auto

lemma settled_settle:
  "promises_ok (p # fl) E \<Longrightarrow> eng_settled (settle p d E) = eng_settled E @ [(p, d)]"
  using floating_unsettled[of p fl E] by (simp add: settle_def)

lemma engine_inv_settle:
  "engine_inv env rq (p # fl) E \<Longrightarrow> engine_inv env rq fl (settle p d E)"
  using settled_settle[of p fl E d]
  by (simp add: engine_inv_def cards_ok_def promises_ok_def listeners_ok_def rows_ok_def)

lemma engine_inv_keys: "engine_inv env rq fl E \<Longrightarrow> distinct (map fst (eng_pending E))"
  by (simp add: engine_inv_def cards_ok_def)

lemma engine_inv_card:
  "engine_inv env rq fl E \<Longrightarrow> (k, e) \<in> set (eng_pending E) \<Longrightarrow>
   pe_card e = make_card env (eng_workspaceId E) k (cd_createdAt (pe_card e)) (pe_ask e)"
  by (auto simp: engine_inv_def cards_ok_def)

lemma engine_inv_requestId:
  assumes "engine_inv env rq fl E" and "(k, e) \<in> set (eng_pending E)"
  shows "cd_requestId (pe_card e) = k"
  using arg_cong[OF engine_inv_card[OF assms], of cd_requestId] by (simp add: make_card_def)

lemma filter_other_listeners:
  "k \<notin> fst ` set us \<Longrightarrow>
   filter (\<lambda>l. l \<noteq> (s, k)) (map (\<lambda>(k, e). (ai_signal (pe_ask e), k)) us) =
   map (\<lambda>(k, e). (ai_signal (pe_ask e), k)) us"
  by (induction us) auto

lemma open_rows_simps [simp]:
  "open_rows [] = {}"
  "open_rows (r # rows) =
     (if sr_state r = Perm_pending then insert (sr_id r) (open_rows rows) else open_rows rows)"
  "open_rows (rows @ rows') = open_rows rows \<union> open_rows rows'"
  by (auto simp: open_rows_def)

lemma open_rows_resolve:
  "st \<noteq> Perm_pending \<Longrightarrow>
   open_rows (update_where (\<lambda>r. sr_id r = k) (request_resolved st t) rows) = open_rows rows - {k}"
  by (induction rows) auto

context permission_store_laws
begin

lemma inv_close_entry:
  assumes inv: "engine_inv env requests fl E" and k: "map_of (eng_pending E) k = Some e"
    and st: "st \<noteq> Perm_pending"
  shows "engine_inv env requests (pe_promise e # fl) (close_entry ps k st out e E)"
proof -
  from k inv obtain us ws where pend: "eng_pending E = us @ (k, e) # ws"
    and del: "AList.delete k (eng_pending E) = us @ ws"
    and keys: "k \<notin> fst ` set us" "k \<notin> fst ` set ws"
    using delete_split[OF engine_inv_keys[OF inv] k] by metis
  note del = del[unfolded pend]
  let ?E = "close_entry ps k st out e E"
  have R: "requests (eng_store ?E) = update_where (\<lambda>r. sr_id r = k)
      (request_resolved st (fst (eng_now E))) (requests (eng_store E))"
    using inv by (simp add: engine_inv_def rows_ok_def requests_resolveRequest)
  have "cards_ok env ?E"
    using inv by (auto simp: engine_inv_def cards_ok_def del pend)
  moreover have "promises_ok (pe_promise e # fl) ?E"
    using inv by (simp add: engine_inv_def promises_ok_def del pend)
  moreover have "listeners_ok ?E"
    using inv keys by (simp add: engine_inv_def listeners_ok_def del pend filter_other_listeners)
  moreover have "rows_ok requests ?E"
    using inv keys st unfolding engine_inv_def rows_ok_def R
    by (auto simp: open_rows_resolve map_update_where set_update_where del pend)
  ultimately show ?thesis by (simp add: engine_inv_def)
qed

lemma inv_onAbort:
  assumes "engine_inv env requests fl E"
  shows "engine_inv env requests fl (onAbort ps k E)"
  using assms by (auto simp: onAbort_def split: option.split intro: engine_inv_settle inv_close_entry)

end

lemma onAbort_simps [simp]:
  "eng_workspaceId (onAbort ps k E) = eng_workspaceId E"
  "eng_pending (onAbort ps k E) = AList.delete k (eng_pending E)"
  "eng_next (onAbort ps k E) = eng_next E"
  "eng_aborted (onAbort ps k E) = eng_aborted E"
  by (auto simp: onAbort_def map_of_eq_None_iff AList.delete_idem split: option.split)

lemma onAbort_settled:
  "promises_ok fl E \<Longrightarrow> map_of (eng_pending E) k = Some e \<Longrightarrow> distinct (map fst (eng_pending E)) \<Longrightarrow>
   eng_settled (onAbort ps k E) = eng_settled E @
     [(pe_promise e, Deny ''The run was stopped while waiting for permission.'' False)]"
proof -
  assume "promises_ok fl E" and e: "map_of (eng_pending E) k = Some e"
  then have "pe_promise e \<notin> fst ` set (eng_settled E)"
    using promises_distinct(1)[of fl E] map_of_SomeD[OF e] by (force simp: comp_def)
  with e show ?thesis by (simp add: onAbort_def settle_def)
qed

section \<open>Opening and re-opening\<close>

definition request_row :: "perm_env \<Rightarrow> ask_input \<Rightarrow> request_card \<Rightarrow> stored_request" where
  "request_row env a c =
     \<lparr> sr_id = cd_requestId c, sr_toolCallId = tc_callId (ai_call a),
       sr_taskId = tc_taskId (ai_call a), sr_state = Perm_pending, sr_risk = ra_level (ai_risk a),
       sr_previewJson = stringify (env_redact env (JObj (json_spread
         (preview_fields (ai_preview a)) [(''input'', cd_input c)]))),
       sr_createdAt = cd_createdAt c, sr_resolvedAt = None \<rparr>"

definition next_key :: "'st engine \<Rightarrow> string" where
  "next_key E = fst (newId ''perm'' (eng_host E))"

definition next_card :: "perm_env \<Rightarrow> ask_input \<Rightarrow> 'st engine \<Rightarrow> request_card" where
  "next_card env a E = make_card env (eng_workspaceId E) (next_key E)
     (fst (timestamp (snd (newId ''perm'' (eng_host E))))) a"

definition next_entry :: "perm_env \<Rightarrow> ask_input \<Rightarrow> nat \<Rightarrow> bool \<Rightarrow> 'st engine \<Rightarrow> pending_entry" where
  "next_entry env a p r E =
     \<lparr> pe_card = next_card env a E, pe_promise = p, pe_ask = a, pe_reopen = r \<rparr>"

definition opened ::
    "perm_env \<Rightarrow> 'st permission_store \<Rightarrow> ask_input \<Rightarrow> nat \<Rightarrow> 'st engine \<Rightarrow> 'st engine" where
  "opened env ps a p E =
     E\<lparr>eng_host := snd (timestamp (snd (newId ''perm'' (eng_host E)))),
       eng_store := ps_saveRequest ps (request_row env a (next_card env a E)) (eng_store E),
       eng_listeners := eng_listeners E @ [(ai_signal a, next_key E)],
       eng_pending := eng_pending E @ [(next_key E, next_entry env a p False E)],
       eng_events := eng_events E @ [On_pending (next_card env a E)]\<rparr>"

lemma card_fields [simp]:
  "cd_requestId (make_card env w k t a) = k" "cd_taskId (make_card env w k t a) = tc_taskId (ai_call a)"
  "cd_paramsHash (make_card env w k t a) = ai_paramsHash a"
  "cd_ruleKey (make_card env w k t a) = ai_ruleKey a" "cd_risk (make_card env w k t a) = ai_risk a"
  "cd_createdAt (make_card env w k t a) = t"
  by (simp_all add: make_card_def)

lemma next_key_fresh:
  assumes "engine_inv env rq fl E"
  shows "next_key E \<notin> fst ` set (eng_pending E)"
    and "next_key E \<notin> sr_id ` set (rq (eng_store E))"
  using assms newId_fresh
  by (fastforce simp: engine_inv_def cards_ok_def rows_ok_def next_key_def)+

lemma openRequest_opened:
  assumes "next_key E \<notin> fst ` set (eng_pending E)"
  shows "openRequest env ps a p E =
    (next_key E, if ai_signal a \<in> set (eng_aborted E) then onAbort ps (next_key E) (opened env ps a p E)
                 else opened env ps a p E)"
  using assms
  by (simp add: openRequest_def opened_def eng_newId_def eng_now_def next_key_def next_card_def
      next_entry_def request_row_def split_beta Let_def update_fresh)

lemma opened_simps [simp]:
  "eng_workspaceId (opened env ps a p E) = eng_workspaceId E"
  "eng_pending (opened env ps a p E) = eng_pending E @ [(next_key E, next_entry env a p False E)]"
  "eng_settled (opened env ps a p E) = eng_settled E" "eng_next (opened env ps a p E) = eng_next E"
  "eng_aborted (opened env ps a p E) = eng_aborted E"
  by (simp_all add: opened_def)

definition reissue ::
    "perm_env \<Rightarrow> 'st permission_store \<Rightarrow> ask_input \<Rightarrow> nat \<Rightarrow> 'st engine \<Rightarrow> 'st engine" where
  "reissue env ps a p E = (let (k, E') = openRequest env ps a p E in store_reopen k E')"

lemma inv_store_reopen:
  assumes inv: "engine_inv env rq fl E"
  shows "engine_inv env rq fl (store_reopen k E)"
proof (cases "map_of (eng_pending E) k")
  case None
  then show ?thesis using inv by (simp add: store_reopen_def)
next
  case (Some e)
  let ?e = "e\<lparr>pe_reopen := True\<rparr>"
  from Some obtain us ws where pend: "eng_pending E = us @ (k, e) # ws"
    and upd: "AList.update k ?e (eng_pending E) = us @ (k, ?e) # ws"
    using update_split[OF engine_inv_keys[OF inv] Some] by metis
  have E': "store_reopen k E = E\<lparr>eng_pending := us @ (k, ?e) # ws\<rparr>"
    using Some upd by (simp add: store_reopen_def)
  show ?thesis
    using inv unfolding E'
    by (auto simp: engine_inv_def cards_ok_def promises_ok_def listeners_ok_def rows_ok_def pend)
qed

context permission_store_laws
begin

lemma inv_opened:
  assumes inv: "engine_inv env requests (p # fl) E" and a: "ask_bound env a"
  shows "engine_inv env requests fl (opened env ps a p E)"
proof -
  note fresh = next_key_fresh[OF inv]
  have "issued_id (snd (timestamp (snd (newId ''perm'' (eng_host E))))) (next_key E)"
    by (simp add: next_key_def newId_issued)
  then have "cards_ok env (opened env ps a p E)"
    using inv fresh a by (auto simp: engine_inv_def cards_ok_def opened_def next_entry_def next_card_def)
  moreover have "promises_ok fl (opened env ps a p E)"
    using inv by (simp add: engine_inv_def promises_ok_def next_entry_def)
  moreover have "listeners_ok (opened env ps a p E)"
    using inv by (simp add: engine_inv_def listeners_ok_def opened_def next_entry_def)
  moreover have "rows_ok requests (opened env ps a p E)"
    using inv fresh \<open>issued_id _ (next_key E)\<close>
    by (auto simp: engine_inv_def rows_ok_def opened_def store_simps request_row_def next_card_def)
  ultimately show ?thesis by (simp add: engine_inv_def)
qed

lemma inv_reissue:
  assumes "engine_inv env requests (p # fl) E" and "ask_bound env a"
  shows "engine_inv env requests fl (reissue env ps a p E)"
  using assms openRequest_opened[OF next_key_fresh(1)[OF assms(1)]]
  by (auto simp: reissue_def intro!: inv_store_reopen inv_opened inv_onAbort)

lemma reissue_effect:
  assumes inv: "engine_inv env requests (p # fl) E" and a: "ask_bound env a"
  shows "eng_pending (reissue env ps a p E) = eng_pending E @
           (if ai_signal a \<in> set (eng_aborted E) then []
            else [(next_key E, next_entry env a p True E)])"
    and "eng_settled (reissue env ps a p E) = eng_settled E @
           (if ai_signal a \<in> set (eng_aborted E)
            then [(p, Deny ''The run was stopped while waiting for permission.'' False)] else [])"
    and "eng_aborted (reissue env ps a p E) = eng_aborted E"
    and "eng_workspaceId (reissue env ps a p E) = eng_workspaceId E"
    and "eng_next (reissue env ps a p E) = eng_next E"
proof -
  note fresh = next_key_fresh(1)[OF inv]
  have inv': "engine_inv env requests fl (opened env ps a p E)"
    by (rule inv_opened[OF inv a])
  have get: "map_of (eng_pending (opened env ps a p E)) (next_key E) = Some (next_entry env a p False E)"
    using fresh by (simp add: map_of_append_fresh del: map_of_append)
  have upd: "AList.update (next_key E) e (eng_pending E @ [(next_key E, e')]) =
     eng_pending E @ [(next_key E, e)]" for e e'
    using fresh by (rule update_append_fresh)
  have promises: "promises_ok fl (opened env ps a p E)"
    using inv' by (simp add: engine_inv_def)
  have settled: "eng_settled (onAbort ps (next_key E) (opened env ps a p E)) =
     eng_settled E @ [(p, Deny ''The run was stopped while waiting for permission.'' False)]"
    using onAbort_settled[OF promises get engine_inv_keys[OF inv'], of ps]
    by (simp add: next_entry_def)
  have gone: "map_of (eng_pending E) (next_key E) = None"
    using fresh by (simp add: map_of_eq_None_iff)
  note unfold = reissue_def openRequest_opened[OF fresh] store_reopen_def
    delete_append_fresh[OF fresh] gone
  show "eng_pending (reissue env ps a p E) = eng_pending E @
           (if ai_signal a \<in> set (eng_aborted E) then []
            else [(next_key E, next_entry env a p True E)])"
    using get by (simp add: unfold upd next_entry_def)
  show "eng_settled (reissue env ps a p E) = eng_settled E @
           (if ai_signal a \<in> set (eng_aborted E)
            then [(p, Deny ''The run was stopped while waiting for permission.'' False)] else [])"
    using get settled by (simp add: unfold)
  show "eng_aborted (reissue env ps a p E) = eng_aborted E"
    and "eng_workspaceId (reissue env ps a p E) = eng_workspaceId E"
    and "eng_next (reissue env ps a p E) = eng_next E"
    using get by (simp_all add: unfold)
qed

end

section \<open>The operations keep the invariant\<close>

definition engine_ok :: "perm_env \<Rightarrow> ('st \<Rightarrow> stored_request list) \<Rightarrow> 'st engine \<Rightarrow> bool" where
  "engine_ok env rq E \<longleftrightarrow> engine_inv env rq [] E \<and> engine_quiet E"

lemma ask_reissue:
  "ask env ps a E = (eng_next E, reissue env ps a (eng_next E) (E\<lparr>eng_next := Suc (eng_next E)\<rparr>))"
  by (simp add: ask_def reissue_def split_beta Let_def)

lemma inv_next_promise:
  "engine_inv env rq [] E \<Longrightarrow> engine_inv env rq [eng_next E] (E\<lparr>eng_next := Suc (eng_next E)\<rparr>)"
  by (simp add: engine_inv_def cards_ok_def promises_ok_def listeners_ok_def rows_ok_def)

lemma finish_answers:
  "map_of (eng_pending E) k = Some e \<Longrightarrow> \<not> fo_keepWaiting out \<Longrightarrow> fo_decision out = Some d \<Longrightarrow>
   finish env ps k st out E = settle (pe_promise e) d (close_entry ps k st out e E)"
  by (simp add: finish_def Let_def)

lemma finish_reissues:
  "map_of (eng_pending E) k = Some e \<Longrightarrow> fo_keepWaiting out \<Longrightarrow> pe_reopen e \<Longrightarrow>
   finish env ps k st out E = reissue env ps (pe_ask e) (pe_promise e) (close_entry ps k st out e E)"
  by (simp add: finish_def reissue_def Let_def)

text \<open>The two halves of one step of \<open>resolve\<close>: the audit row, then the answer.\<close>

definition record_decision ::
    "'st permission_store \<Rightarrow> user_decision \<Rightarrow> grant_scope \<Rightarrow> pending_entry \<Rightarrow> 'st engine \<Rightarrow> 'st engine"
where
  "record_decision ps d scope e E =
     (let (decId, E1) = eng_newId ''dec'' E; (now, E2) = eng_now E1
      in E2\<lparr>eng_store := ps_saveDecision ps
           \<lparr> sd_id = decId, sd_requestId = cd_requestId (pe_card e),
             sd_workspaceId = eng_workspaceId E2, sd_taskId = cd_taskId (pe_card e),
             sd_decision = ud_kind d, sd_scope = scope, sd_actor = ud_actor d,
             sd_reason = ud_reason d, sd_createdAt = now \<rparr> (eng_store E2)\<rparr>)"

definition user_answer :: "user_decision \<Rightarrow> grant_scope \<Rightarrow> pending_entry \<Rightarrow> permission_decision" where
  "user_answer d scope e =
     (if ud_kind d = Rule_allow
      then Allow (grant_to_allow scope) (Some (cd_paramsHash (pe_card e)))
      else Deny (case ud_reason d of
          None \<Rightarrow> ''The user denied this action.''
        | Some r \<Rightarrow> if r = [] then ''The user denied this action.''
                   else ''The user denied this action: '' @ r)
        (scope = Grant_always))"

definition user_outcome :: "user_decision \<Rightarrow> grant_scope \<Rightarrow> pending_entry \<Rightarrow> finish_outcome" where
  "user_outcome d scope e =
     \<lparr> fo_decision = Some (user_answer d scope e),
       fo_outcome = (if ud_kind d = Rule_allow then Out_allowed else Out_denied),
       fo_scope = Some scope, fo_actor = Some (ud_actor d), fo_reason = ud_reason d,
       fo_keepWaiting = False \<rparr>"

lemma resolve_target_eq:
  "resolve_target env ps d scope e E =
   finish env ps (cd_requestId (pe_card e))
     (if ud_kind d = Rule_allow then Perm_allowed else Perm_denied)
     (user_outcome d scope e) (record_decision ps d scope e E)"
  by (simp add: resolve_target_def record_decision_def user_outcome_def user_answer_def
      split_beta Let_def)

lemma user_outcome_simps [simp]:
  "fo_decision (user_outcome d scope e) = Some (user_answer d scope e)"
  "\<not> fo_keepWaiting (user_outcome d scope e)"
  by (simp_all add: user_outcome_def)

lemma quiet_subset:
  "engine_quiet E \<Longrightarrow> set (eng_pending E') \<subseteq> set (eng_pending E) \<Longrightarrow> eng_aborted E' = eng_aborted E \<Longrightarrow>
   engine_quiet E'"
  by (auto simp: engine_quiet_def)

lemma set_delete_subset: "set (AList.delete k xs) \<subseteq> set xs"
  by (auto simp: AList.delete_eq)

lemma engine_inv_bound:
  "engine_inv env rq fl E \<Longrightarrow> map_of (eng_pending E) k = Some e \<Longrightarrow> ask_bound env (pe_ask e)"
  by (drule map_of_SomeD) (auto simp: engine_inv_def cards_ok_def)

context permission_store_laws
begin

lemma ok_ask:
  assumes "engine_ok env requests E" and "ask_bound env a"
  shows "engine_ok env requests (snd (ask env ps a E))"
proof -
  have inv: "engine_inv env requests [eng_next E] (E\<lparr>eng_next := Suc (eng_next E)\<rparr>)"
    using assms by (simp add: engine_ok_def inv_next_promise)
  then show ?thesis
    using assms inv_reissue[OF inv assms(2)]
    by (auto simp: engine_ok_def ask_reissue engine_quiet_def reissue_effect[OF inv assms(2)]
        next_entry_def)
qed

lemma ok_finish_answer:
  assumes ok: "engine_ok env requests E" and out: "\<not> fo_keepWaiting out" "fo_decision out \<noteq> None"
    and st: "st \<noteq> Perm_pending"
  shows "engine_ok env requests (finish env ps k st out E)"
proof (cases "map_of (eng_pending E) k")
  case None
  then show ?thesis using ok by (simp add: finish_def)
next
  case (Some e)
  from out(2) obtain d where d: "fo_decision out = Some d" by blast
  have "engine_inv env requests [] (settle (pe_promise e) d (close_entry ps k st out e E))"
    using ok Some st by (auto simp: engine_ok_def intro: engine_inv_settle inv_close_entry)
  moreover have "engine_quiet (settle (pe_promise e) d (close_entry ps k st out e E))"
    using ok by (auto simp: engine_ok_def dest: subsetD[OF set_delete_subset] intro!: quiet_subset[of E])
  ultimately show ?thesis by (simp add: engine_ok_def finish_answers[OF Some out(1) d])
qed

lemma ok_finish_reissue:
  assumes ok: "engine_ok env requests E" and out: "fo_keepWaiting out" and st: "st \<noteq> Perm_pending"
  shows "engine_ok env requests (finish env ps k st out E)"
proof (cases "map_of (eng_pending E) k")
  case None
  then show ?thesis using ok by (simp add: finish_def)
next
  case (Some e)
  have inv: "engine_inv env requests [] E" and quiet: "engine_quiet E"
    using ok by (simp_all add: engine_ok_def)
  have e: "pe_reopen e"
    using quiet map_of_SomeD[OF Some] by (auto simp: engine_quiet_def)
  note bound = engine_inv_bound[OF inv Some]
  have inv': "engine_inv env requests [pe_promise e] (close_entry ps k st out e E)"
    by (rule inv_close_entry[OF inv Some st])
  show ?thesis
    using inv_reissue[OF inv' bound] quiet set_delete_subset[of k "eng_pending E"]
    by (auto simp: engine_ok_def finish_reissues[OF Some out e] engine_quiet_def
        reissue_effect[OF inv' bound] next_entry_def)
qed

lemma ok_new_ids:
  assumes ok: "engine_ok env requests E"
    and E': "E' = E\<lparr>eng_host := h, eng_store := st\<rparr>"
    and h: "host_ok h" "\<And>i. issued_id (eng_host E) i \<Longrightarrow> issued_id h i"
    and st: "requests st = requests (eng_store E)"
  shows "engine_ok env requests E'"
  using assms
  by (auto simp: engine_ok_def engine_inv_def cards_ok_def promises_ok_def listeners_ok_def
      rows_ok_def engine_quiet_def)

lemma ok_host: "engine_ok env requests E \<Longrightarrow> host_ok (eng_host E)"
  by (simp add: engine_ok_def engine_inv_def cards_ok_def)

lemma ok_save_standing_rule:
  assumes "engine_ok env requests E"
  shows "engine_ok env requests (save_standing_rule ps t kind crd E)"
  by (rule ok_new_ids[OF assms, where h = "eng_host (save_standing_rule ps t kind crd E)"
        and st = "eng_store (save_standing_rule ps t kind crd E)"])
    (simp_all add: save_standing_rule_def split_beta Let_def store_simps ok_host[OF assms])

lemma ok_record_decision:
  assumes "engine_ok env requests E"
  shows "engine_ok env requests (record_decision ps d scope e E)"
  by (rule ok_new_ids[OF assms, where h = "eng_host (record_decision ps d scope e E)"
        and st = "eng_store (record_decision ps d scope e E)"])
    (simp_all add: record_decision_def split_beta Let_def store_simps ok_host[OF assms])

lemma ok_resolve_target:
  assumes "engine_ok env requests E"
  shows "engine_ok env requests (resolve_target env ps d scope e E)"
  by (auto simp: resolve_target_eq intro!: ok_finish_answer ok_record_decision assms)

lemma ok_fold:
  "engine_ok env requests E \<Longrightarrow>
   (\<And>x E. x \<in> set xs \<Longrightarrow> engine_ok env requests E \<Longrightarrow> engine_ok env requests (f x E)) \<Longrightarrow>
   engine_ok env requests (fold f xs E)"
  by (induction xs arbitrary: E) auto

lemma ok_resolve:
  assumes "engine_ok env requests E"
  shows "engine_ok env requests (snd (resolve env ps d E))"
  using assms
  by (auto simp: resolve_def Let_def split: option.split
      intro!: ok_finish_reissue ok_fold ok_resolve_target ok_save_standing_rule)

lemma ok_decide:
  assumes "engine_ok env requests E"
  shows "engine_ok env requests (snd (decide env ps call tool risk preview mode signal E))"
  using assms
  by (auto simp: decide_def Let_def split_beta ask_bound_def split: option.split intro!: ok_ask)

lemma ok_cancel:
  assumes "engine_ok env requests E"
  shows "engine_ok env requests (cancelPendingForTask env ps t reason E)"
    and "engine_ok env requests (cancelAll env ps reason E)"
  using assms
  by (auto simp: cancelPendingForTask_def cancelAll_def cancel_outcome_def
      intro!: ok_fold ok_finish_answer)

lemma fold_onAbort:
  assumes "engine_inv env requests [] E"
  shows "engine_inv env requests [] (fold (onAbort ps) ks E) \<and>
    eng_pending (fold (onAbort ps) ks E) = filter (\<lambda>(k, _). k \<notin> set ks) (eng_pending E) \<and>
    eng_aborted (fold (onAbort ps) ks E) = eng_aborted E"
  using assms
proof (induction ks arbitrary: E)
  case Nil
  then show ?case by simp
next
  case (Cons k ks)
  from Cons.IH[OF inv_onAbort[OF Cons.prems], of k] show ?case
    by (auto simp: AList.delete_eq intro!: filter_cong)
qed

lemma ok_abort:
  assumes ok: "engine_ok env requests E"
  shows "engine_ok env requests (abort_signal ps signal E)"
proof (cases "signal \<in> set (eng_aborted E)")
  case True
  then show ?thesis using ok by (simp add: abort_signal_def)
next
  case False
  let ?E = "E\<lparr>eng_aborted := signal # eng_aborted E\<rparr>"
  let ?ks = "map snd (filter (\<lambda>l. fst l = signal) (eng_listeners E))"
  have inv: "engine_inv env requests [] ?E"
    using ok by (simp add: engine_ok_def engine_inv_def cards_ok_def promises_ok_def
        listeners_ok_def rows_ok_def)
  have "set ?ks = {k. \<exists>e. (k, e) \<in> set (eng_pending E) \<and> ai_signal (pe_ask e) = signal}"
    using ok by (force simp: engine_ok_def engine_inv_def listeners_ok_def)
  then have "engine_quiet (fold (onAbort ps) ?ks ?E)"
    using fold_onAbort[OF inv, of ?ks] ok by (auto simp: engine_ok_def engine_quiet_def)
  then show ?thesis
    using False fold_onAbort[OF inv, of ?ks] by (simp add: abort_signal_def engine_ok_def)
qed

lemma ok_step:
  "engine_ok env requests E \<Longrightarrow> engine_ok env requests (perm_step env ps op E)"
  by (cases op) (auto intro: ok_decide ok_resolve ok_cancel ok_abort)

lemma ok_run:
  "engine_ok env requests E \<Longrightarrow> engine_ok env requests (perm_run env ps ops E)"
  by (auto simp: perm_run_def intro: ok_fold ok_step)

lemma ok_new:
  "host_ok h \<Longrightarrow> requests st = [] \<Longrightarrow> engine_ok env requests (new_engine w st h)"
  by (simp add: engine_ok_def engine_inv_def cards_ok_def promises_ok_def listeners_ok_def
      rows_ok_def engine_quiet_def new_engine_def)

end

section \<open>Answers\<close>

lemma record_decision_simps [simp]:
  "eng_pending (record_decision ps d scope e E) = eng_pending E"
  "eng_settled (record_decision ps d scope e E) = eng_settled E"
  "eng_next (record_decision ps d scope e E) = eng_next E"
  "eng_aborted (record_decision ps d scope e E) = eng_aborted E"
  "eng_workspaceId (record_decision ps d scope e E) = eng_workspaceId E"
  by (simp_all add: record_decision_def split_beta Let_def)

lemma save_standing_rule_simps [simp]:
  "eng_pending (save_standing_rule ps t kind crd E) = eng_pending E"
  "eng_settled (save_standing_rule ps t kind crd E) = eng_settled E"
  "eng_next (save_standing_rule ps t kind crd E) = eng_next E"
  "eng_aborted (save_standing_rule ps t kind crd E) = eng_aborted E"
  "eng_workspaceId (save_standing_rule ps t kind crd E) = eng_workspaceId E"
  by (simp_all add: save_standing_rule_def split_beta Let_def)

lemma filter_key_id: "k \<notin> fst ` set xs \<Longrightarrow> filter (\<lambda>(k', _). k \<noteq> k') xs = xs"
  by (induction xs) auto

abbreviation entry_key :: "pending_entry \<Rightarrow> string" where
  "entry_key e \<equiv> cd_requestId (pe_card e)"

text \<open>A step that answers the entry it is given: the entry leaves the pending map and its
  promise is resolved with \<open>ans\<close>.\<close>

definition answers ::
    "perm_env \<Rightarrow> ('st \<Rightarrow> stored_request list) \<Rightarrow> (pending_entry \<Rightarrow> permission_decision) \<Rightarrow>
     (pending_entry \<Rightarrow> 'st engine \<Rightarrow> 'st engine) \<Rightarrow> bool" where
  "answers env rq ans f \<longleftrightarrow> (\<forall>e E. engine_ok env rq E \<longrightarrow> map_of (eng_pending E) (entry_key e) = Some e \<longrightarrow>
     engine_ok env rq (f e E) \<and> eng_next (f e E) = eng_next E \<and>
     eng_pending (f e E) = AList.delete (entry_key e) (eng_pending E) \<and>
     eng_settled (f e E) = eng_settled E @ [(pe_promise e, ans e)])"

lemma fold_answers:
  assumes f: "answers env rq ans f" and "engine_ok env rq E" and "distinct (map entry_key es)"
    and "\<forall>e\<in>set es. map_of (eng_pending E) (entry_key e) = Some e"
  shows "engine_ok env rq (fold f es E) \<and> eng_next (fold f es E) = eng_next E \<and>
    eng_pending (fold f es E) = filter (\<lambda>(k, _). k \<notin> entry_key ` set es) (eng_pending E) \<and>
    eng_settled (fold f es E) = eng_settled E @ map (\<lambda>e. (pe_promise e, ans e)) es"
  using assms(2-)
proof (induction es arbitrary: E)
  case Nil
  then show ?case by simp
next
  case (Cons e es)
  have e: "map_of (eng_pending E) (entry_key e) = Some e"
    by (rule bspec[OF Cons.prems(3)]) simp
  have step: "engine_ok env rq (f e E)" "eng_next (f e E) = eng_next E"
    "eng_pending (f e E) = AList.delete (entry_key e) (eng_pending E)"
    "eng_settled (f e E) = eng_settled E @ [(pe_promise e, ans e)]"
    using f Cons.prems(1) e unfolding answers_def by blast+
  have "\<forall>e'\<in>set es. map_of (eng_pending (f e E)) (entry_key e') = Some e'"
  proof
    fix e' assume "e' \<in> set es"
    have "map_of (eng_pending E) (entry_key e') = Some e'"
      by (rule bspec[OF Cons.prems(3)]) (simp add: \<open>e' \<in> set es\<close>)
    moreover have "entry_key e' \<noteq> entry_key e"
    proof
      assume eq: "entry_key e' = entry_key e"
      have "entry_key e' \<in> entry_key ` set es" by (rule imageI) (rule \<open>e' \<in> set es\<close>)
      moreover have "entry_key e \<notin> entry_key ` set es" using Cons.prems(2) by simp
      ultimately show False by (simp only: eq)
    qed
    ultimately show "map_of (eng_pending (f e E)) (entry_key e') = Some e'"
      unfolding step(3) AList.delete_conv' by simp
  qed
  note IH = Cons.IH[OF step(1) _ this]
  have "filter (\<lambda>(k, _). k \<notin> entry_key ` set es) (AList.delete (entry_key e) (eng_pending E)) =
    filter (\<lambda>(k, _). k \<notin> entry_key ` set (e # es)) (eng_pending E)"
    by (auto simp: AList.delete_eq intro!: filter_cong)
  with IH Cons.prems(2) step show ?case by simp
qed

lemma ok_entry_key:
  "engine_ok env rq E \<Longrightarrow> map_of (eng_pending E) k = Some e \<Longrightarrow> entry_key e = k"
  by (metis engine_inv_requestId engine_ok_def map_of_SomeD)

lemma ok_keys: "engine_ok env rq E \<Longrightarrow> distinct (map fst (eng_pending E))"
  by (auto simp: engine_ok_def dest: engine_inv_keys)

lemma ok_pending_entries:
  assumes "engine_ok env rq E"
  shows "map (entry_key \<circ> snd) (eng_pending E) = map fst (eng_pending E)"
    and "\<forall>e\<in>snd ` set (eng_pending E). map_of (eng_pending E) (entry_key e) = Some e"
proof -
  have inv: "engine_inv env rq [] E" using assms by (simp add: engine_ok_def)
  show "map (entry_key \<circ> snd) (eng_pending E) = map fst (eng_pending E)"
    using engine_inv_requestId[OF inv] by auto
  show "\<forall>e\<in>snd ` set (eng_pending E). map_of (eng_pending E) (entry_key e) = Some e"
    using engine_inv_requestId[OF inv] engine_inv_keys[OF inv] by (auto simp: map_of_eq_Some_iff)
qed

context permission_store_laws
begin

lemma finish_answers_step:
  assumes ok: "engine_ok env requests E" and k: "map_of (eng_pending E) k = Some e"
    and out: "\<not> fo_keepWaiting out" "fo_decision out = Some d" and st: "st \<noteq> Perm_pending"
  shows "engine_ok env requests (finish env ps k st out E) \<and>
    eng_next (finish env ps k st out E) = eng_next E \<and>
    eng_pending (finish env ps k st out E) = AList.delete k (eng_pending E) \<and>
    eng_settled (finish env ps k st out E) = eng_settled E @ [(pe_promise e, d)]"
proof -
  have "engine_inv env requests [pe_promise e] (close_entry ps k st out e E)"
    using ok k st by (simp add: engine_ok_def inv_close_entry)
  then have "eng_settled (settle (pe_promise e) d (close_entry ps k st out e E)) =
    eng_settled E @ [(pe_promise e, d)]"
    by (simp add: settled_settle[of _ "[]"] engine_inv_def)
  then show ?thesis
    using ok_finish_answer[OF ok out(1) _ st, of k] out finish_answers[OF k out] by simp
qed

lemma resolve_target_answers: "answers env requests (user_answer d scope) (resolve_target env ps d scope)"
  unfolding answers_def
proof (intro allI impI)
  fix e E
  assume ok: "engine_ok env requests E" and e: "map_of (eng_pending E) (entry_key e) = Some e"
  have "engine_ok env requests (record_decision ps d scope e E)"
    using ok by (rule ok_record_decision)
  from finish_answers_step[OF this, of "entry_key e" e "user_outcome d scope e" "user_answer d scope e"
      "if ud_kind d = Rule_allow then Perm_allowed else Perm_denied"]
  show "engine_ok env requests (resolve_target env ps d scope e E) \<and>
     eng_next (resolve_target env ps d scope e E) = eng_next E \<and>
     eng_pending (resolve_target env ps d scope e E) = AList.delete (entry_key e) (eng_pending E) \<and>
     eng_settled (resolve_target env ps d scope e E) =
       eng_settled E @ [(pe_promise e, user_answer d scope e)]"
    using e by (simp add: resolve_target_eq)
qed

lemma cancel_answers:
  "answers env requests (\<lambda>e. Deny reason False)
     (\<lambda>e. finish env ps (entry_key e) Perm_cancelled (cancel_outcome reason))"
  unfolding answers_def by (auto simp: finish_answers_step cancel_outcome_def)

lemma cancelAll_effect:
  assumes ok: "engine_ok env requests E"
  shows "eng_pending (cancelAll env ps reason E) = [] \<and>
    eng_next (cancelAll env ps reason E) = eng_next E \<and>
    engine_ok env requests (cancelAll env ps reason E) \<and>
    eng_settled (cancelAll env ps reason E) =
      eng_settled E @ map (\<lambda>(k, e). (pe_promise e, Deny reason False)) (eng_pending E)"
proof -
  have "map entry_key (map snd (eng_pending E)) = map fst (eng_pending E)"
    using ok_pending_entries(1)[OF ok] unfolding list.map_comp .
  then have "distinct (map entry_key (map snd (eng_pending E)))"
    by (simp only: ok_keys[OF ok])
  from fold_answers[OF cancel_answers ok this, of reason] ok_pending_entries[OF ok]
  show ?thesis
    by (force simp: cancelAll_def comp_def split_beta filter_empty_conv image_iff)
qed

lemma resolve_targets_pending:
  assumes ok: "engine_ok env requests E" and e: "map_of (eng_pending E) (ud_requestId d) = Some e"
  shows "distinct (map entry_key (resolution_targets d e E))"
    and "\<forall>x\<in>set (resolution_targets d e E). map_of (eng_pending E) (entry_key x) = Some x"
proof -
  let ?others = "filter (\<lambda>(k, other). k \<noteq> ud_requestId d \<and>
      cd_ruleKey (pe_card other) = cd_ruleKey (pe_card e)) (eng_pending E)"
  have others: "map entry_key (map snd ?others) = map fst ?others"
    using ok_pending_entries(1)[OF ok] by (simp add: map_eq_conv)
  have "distinct (map fst ?others)"
    using ok_keys[OF ok] by (rule distinct_map_filter)
  moreover have "ud_requestId d \<notin> set (map fst ?others)" by auto
  ultimately show "distinct (map entry_key (resolution_targets d e E))"
    using ok_entry_key[OF ok e] others
    by (simp add: resolution_targets_def del: map_map set_map)
  show "\<forall>x\<in>set (resolution_targets d e E). map_of (eng_pending E) (entry_key x) = Some x"
    using ok_pending_entries(2)[OF ok] ok_entry_key[OF ok e] e
    by (force simp: resolution_targets_def)
qed

lemma resolve_effect:
  assumes ok: "engine_ok env requests E" and e: "map_of (eng_pending E) (ud_requestId d) = Some e"
    and "ud_expectedParamsHash d = cd_paramsHash (pe_card e)"
  shows "fst (resolve env ps d E) = map entry_key (resolution_targets d e E)"
    and "eng_settled (snd (resolve env ps d E)) = eng_settled E @
      map (\<lambda>x. (pe_promise x, user_answer d (effective_scope d e) x)) (resolution_targets d e E)"
    and "eng_pending (snd (resolve env ps d E)) =
      filter (\<lambda>(k, _). k \<notin> entry_key ` set (resolution_targets d e E)) (eng_pending E)"
proof -
  define E1 where "E1 = (if ud_kind d = Rule_allow \<and>
      (effective_scope d e = Grant_task \<or> effective_scope d e = Grant_workspace)
    then save_standing_rule ps
           (if effective_scope d e = Grant_task then Some (cd_taskId (pe_card e)) else None)
           Rule_allow (pe_card e) E else E)"
  define E2 where "E2 = (if ud_kind d = Rule_deny \<and> effective_scope d e = Grant_always
    then save_standing_rule ps None Rule_deny (pe_card e) E1 else E1)"
  have res: "resolve env ps d E = (map entry_key (resolution_targets d e E),
      fold (resolve_target env ps d (effective_scope d e)) (resolution_targets d e E) E2)"
    using assms(2,3) by (simp add: resolve_def Let_def E1_def E2_def comp_def)
  have ok2: "engine_ok env requests E2"
    using ok by (auto simp: E1_def E2_def intro: ok_save_standing_rule)
  have same: "eng_pending E2 = eng_pending E" "eng_settled E2 = eng_settled E"
    by (simp_all add: E1_def E2_def)
  note effect = fold_answers[OF resolve_target_answers ok2, of "resolution_targets d e E"
      d "effective_scope d e", unfolded same, OF resolve_targets_pending[OF ok e]]
  show "fst (resolve env ps d E) = map entry_key (resolution_targets d e E)"
    by (simp add: res)
  show "eng_settled (snd (resolve env ps d E)) = eng_settled E @
      map (\<lambda>x. (pe_promise x, user_answer d (effective_scope d e) x)) (resolution_targets d e E)"
    using effect by (simp add: res)
  show "eng_pending (snd (resolve env ps d E)) =
      filter (\<lambda>(k, _). k \<notin> entry_key ` set (resolution_targets d e E)) (eng_pending E)"
    using effect by (simp add: res)
qed

lemma resolve_mismatch:
  assumes ok: "engine_ok env requests E" and e: "map_of (eng_pending E) (ud_requestId d) = Some e"
    and mismatch: "ud_expectedParamsHash d \<noteq> cd_paramsHash (pe_card e)"
  shows "fst (resolve env ps d E) = []"
    and "eng_settled (snd (resolve env ps d E)) = eng_settled E"
    and "\<exists>k' e'. eng_pending (snd (resolve env ps d E)) =
           AList.delete (ud_requestId d) (eng_pending E) @ [(k', e')] \<and>
         pe_promise e' = pe_promise e \<and> pe_ask e' = pe_ask e \<and>
         k' \<notin> sr_id ` set (requests (eng_store E))"
proof -
  let ?out = "\<lparr> fo_decision = None, fo_outcome = Out_invalidated, fo_scope = None, fo_actor = None,
    fo_reason = None, fo_keepWaiting = True \<rparr>"
  let ?E = "close_entry ps (ud_requestId d) Perm_invalidated ?out e E"
  have inv: "engine_inv env requests [] E" and quiet: "engine_quiet E"
    using ok by (simp_all add: engine_ok_def)
  have q: "pe_reopen e" "ai_signal (pe_ask e) \<notin> set (eng_aborted E)"
    using quiet map_of_SomeD[OF e] by (auto simp: engine_quiet_def)
  have inv': "engine_inv env requests [pe_promise e] ?E"
    by (rule inv_close_entry[OF inv e]) simp
  have res: "resolve env ps d E = ([], reissue env ps (pe_ask e) (pe_promise e) ?E)"
    using e mismatch q by (simp add: resolve_def finish_reissues)
  note effect = reissue_effect[OF inv' engine_inv_bound[OF inv e]]
  show "fst (resolve env ps d E) = []" by (simp add: res)
  show "eng_settled (snd (resolve env ps d E)) = eng_settled E"
    using q by (simp add: res effect)
  have "map sr_id (requests (eng_store ?E)) = map sr_id (requests (eng_store E))"
    using inv by (simp add: engine_inv_def rows_ok_def requests_resolveRequest map_update_where)
  from arg_cong[OF this, of set]
  have ids: "sr_id ` set (requests (eng_store ?E)) = sr_id ` set (requests (eng_store E))" by simp
  show "\<exists>k' e'. eng_pending (snd (resolve env ps d E)) =
           AList.delete (ud_requestId d) (eng_pending E) @ [(k', e')] \<and>
         pe_promise e' = pe_promise e \<and> pe_ask e' = pe_ask e \<and>
         k' \<notin> sr_id ` set (requests (eng_store E))"
    using q next_key_fresh(2)[OF inv'] ids
    by (intro exI[of _ "next_key ?E"] exI[of _ "next_entry env (pe_ask e) (pe_promise e) True ?E"])
      (simp add: res effect, simp add: next_entry_def)
qed

end

section \<open>Standing rules\<close>

text \<open>Every operation keeps the workspace and only ever adds rules.\<close>

definition workspace_rules :: "'st permission_store \<Rightarrow> 'st engine \<Rightarrow> standing_rule set" where
  "workspace_rules ps E = set (ps_listRules ps (eng_workspaceId E) (eng_store E))"

lemma workspace_simps [simp]:
  "eng_workspaceId (snd (openRequest env ps a p E)) = eng_workspaceId E"
  "eng_workspaceId (store_reopen k E) = eng_workspaceId E"
  "eng_store (store_reopen k E) = eng_store E"
  by (simp_all add: openRequest_def store_reopen_def split_beta Let_def split: option.split)

lemma workspace_finish [simp]:
  "eng_workspaceId (finish env ps k st out E) = eng_workspaceId E"
  by (simp add: finish_def split_beta Let_def split: option.split)

lemma workspace_resolve_target [simp]:
  "eng_workspaceId (resolve_target env ps d scope e E) = eng_workspaceId E"
  by (simp add: resolve_target_eq)

definition keeps_rules ::
    "'st permission_store \<Rightarrow> standing_rule set \<Rightarrow> ('st engine \<Rightarrow> 'st engine) \<Rightarrow> bool" where
  "keeps_rules ps new f \<longleftrightarrow> (\<forall>E. eng_workspaceId (f E) = eng_workspaceId E \<and>
     workspace_rules ps E \<subseteq> workspace_rules ps (f E) \<and>
     workspace_rules ps (f E) \<subseteq> workspace_rules ps E \<union> new)"

lemma keeps_rules_fold:
  "(\<And>x. x \<in> set xs \<Longrightarrow> keeps_rules ps new (f x)) \<Longrightarrow> keeps_rules ps new (fold f xs)"
proof (induction xs)
  case Nil
  then show ?case by (simp add: keeps_rules_def)
next
  case (Cons x xs)
  then have "keeps_rules ps new (f x)" and "keeps_rules ps new (fold f xs)" by auto
  then show ?case unfolding keeps_rules_def by (simp, blast)
qed

abbreviation grantable :: "standing_rule set" where
  "grantable \<equiv> {u. \<not> (ru_kind u = Rule_allow \<and> ru_risk u = R3)}"

context permission_store_laws
begin

lemma rules_onAbort:
  "ps_listRules ps w (eng_store (onAbort ps k E)) = ps_listRules ps w (eng_store E)"
  by (simp add: onAbort_def store_simps split: option.split)

lemma rules_openRequest:
  "ps_listRules ps w (eng_store (snd (openRequest env ps a p E))) = ps_listRules ps w (eng_store E)"
  by (simp add: openRequest_def split_beta Let_def rules_onAbort store_simps)

lemma rules_finish:
  "ps_listRules ps w (eng_store (finish env ps k st out E)) = ps_listRules ps w (eng_store E)"
  by (simp add: finish_def split_beta Let_def rules_openRequest store_simps split: option.split)

lemma rules_resolve_target:
  "ps_listRules ps w (eng_store (resolve_target env ps d scope e E)) = ps_listRules ps w (eng_store E)"
  by (simp add: resolve_target_eq rules_finish record_decision_def split_beta Let_def store_simps)

lemma rules_fold_resolve:
  "ps_listRules ps w (eng_store (fold (resolve_target env ps d scope) es E)) =
     ps_listRules ps w (eng_store E) \<and>
   eng_workspaceId (fold (resolve_target env ps d scope) es E) = eng_workspaceId E"
  by (induction es arbitrary: E) (simp_all add: rules_resolve_target)

lemma rules_save_standing:
  "\<exists>u. ru_kind u = kind \<and> ru_ruleKey u = cd_ruleKey crd \<and> ru_taskId u = t \<and>
     ru_risk u = ra_level (cd_risk crd) \<and>
     workspace_rules ps (save_standing_rule ps t kind crd E) = insert u (workspace_rules ps E)"
  by (rule exI[of _ "\<lparr> ru_id = fst (eng_newId ''rule'' E), ru_workspaceId = eng_workspaceId E,
        ru_taskId = t, ru_kind = kind, ru_ruleKey = cd_ruleKey crd, ru_risk = ra_level (cd_risk crd),
        ru_createdAt = fst (eng_now (snd (eng_newId ''rule'' E))) \<rparr>"])
    (simp add: workspace_rules_def save_standing_rule_def split_beta Let_def store_simps)

lemma keeps_resolve: "keeps_rules ps grantable (\<lambda>E. snd (resolve env ps d E))"
  unfolding keeps_rules_def
proof
  fix E
  show "eng_workspaceId (snd (resolve env ps d E)) = eng_workspaceId E \<and>
     workspace_rules ps E \<subseteq> workspace_rules ps (snd (resolve env ps d E)) \<and>
     workspace_rules ps (snd (resolve env ps d E)) \<subseteq> workspace_rules ps E \<union> grantable"
  proof (cases "map_of (eng_pending E) (ud_requestId d)")
    case None
    then show ?thesis by (simp add: resolve_def)
  next
    case (Some e)
    obtain u where "ru_kind u = Rule_allow" "ru_risk u = ra_level (cd_risk (pe_card e))"
      and u: "workspace_rules ps (save_standing_rule ps
        (if effective_scope d e = Grant_task then Some (cd_taskId (pe_card e)) else None)
        Rule_allow (pe_card e) E) = insert u (workspace_rules ps E)"
      using rules_save_standing by metis
    moreover obtain v where "ru_kind v = Rule_deny"
      and v: "workspace_rules ps (save_standing_rule ps None Rule_deny (pe_card e) E) =
        insert v (workspace_rules ps E)"
      using rules_save_standing by metis
    moreover have "ra_level (cd_risk (pe_card e)) \<noteq> R3"
      if "ud_kind d = Rule_allow" "effective_scope d e = Grant_task \<or> effective_scope d e = Grant_workspace"
      using that by (auto simp: effective_scope_def split: if_splits)
    ultimately show ?thesis
      using Some unfolding resolve_def workspace_rules_def Let_def
      by (auto simp: rules_fold_resolve rules_finish)
  qed
qed

lemma keeps_step: "keeps_rules ps grantable (perm_step env ps op)"
proof (cases op)
  case (Op_resolve d)
  then show ?thesis using keeps_resolve[of env d] by (simp add: keeps_rules_def)
next
  case (Op_decide call tool risk preview mode signal)
  then show ?thesis
    by (auto simp: keeps_rules_def workspace_rules_def decide_def ask_def Let_def split_beta
        rules_openRequest split: option.split)
next
  case (Op_cancel_task t reason)
  have "keeps_rules ps grantable (fold (\<lambda>entry E'. if cd_taskId (pe_card entry) \<noteq> t then E'
      else finish env ps (cd_requestId (pe_card entry)) Perm_cancelled (cancel_outcome reason) E') es)"
    for es
    by (rule keeps_rules_fold) (simp add: keeps_rules_def workspace_rules_def rules_finish)
  then show ?thesis
    unfolding Op_cancel_task keeps_rules_def perm_step.simps cancelPendingForTask_def by blast
next
  case (Op_cancel_all reason)
  have "keeps_rules ps grantable (fold (\<lambda>entry. finish env ps (cd_requestId (pe_card entry))
      Perm_cancelled (cancel_outcome reason)) es)" for es
    by (rule keeps_rules_fold) (simp add: keeps_rules_def workspace_rules_def rules_finish)
  then show ?thesis
    unfolding Op_cancel_all keeps_rules_def perm_step.simps cancelAll_def by blast
next
  case (Op_abort signal)
  have "keeps_rules ps grantable (fold (onAbort ps) ks)" for ks
    by (rule keeps_rules_fold) (simp add: keeps_rules_def workspace_rules_def rules_onAbort)
  note keeps = this
  show ?thesis
    unfolding Op_abort keeps_rules_def
  proof
    fix E :: "'st engine"
    let ?ks = "map snd (filter (\<lambda>l. fst l = signal) (eng_listeners E))"
    let ?E = "E\<lparr>eng_aborted := signal # eng_aborted E\<rparr>"
    have "workspace_rules ps ?E = workspace_rules ps E" and "eng_workspaceId ?E = eng_workspaceId E"
      by (simp_all add: workspace_rules_def)
    with keeps[of ?ks, unfolded keeps_rules_def, rule_format, of ?E]
    show "eng_workspaceId (perm_step env ps (Op_abort signal) E) = eng_workspaceId E \<and>
        workspace_rules ps E \<subseteq> workspace_rules ps (perm_step env ps (Op_abort signal) E) \<and>
        workspace_rules ps (perm_step env ps (Op_abort signal) E) \<subseteq> workspace_rules ps E \<union> grantable"
      by (simp add: abort_signal_def)
  qed
qed

lemma keeps_run: "keeps_rules ps grantable (perm_run env ps ops)"
  using keeps_rules_fold[of ops ps grantable "perm_step env ps"] keeps_step
  by (simp add: perm_run_def[abs_def])

end

section \<open>Promises are numbered upwards\<close>

lemma next_openRequest [simp]: "eng_next (snd (openRequest env ps a p E)) = eng_next E"
  by (simp add: openRequest_def split_beta Let_def)

lemma next_store_reopen [simp]: "eng_next (store_reopen k E) = eng_next E"
  by (simp add: store_reopen_def split: option.split)

lemma next_finish [simp]: "eng_next (finish env ps k st out E) = eng_next E"
  by (simp add: finish_def split_beta Let_def split: option.split)

lemma next_resolve_target [simp]: "eng_next (resolve_target env ps d scope e E) = eng_next E"
  by (simp add: resolve_target_eq)

lemma next_fold: "(\<And>x E. eng_next (f x E) = eng_next E) \<Longrightarrow> eng_next (fold f xs E) = eng_next E"
  by (induction xs arbitrary: E) simp_all

lemma next_resolve [simp]: "eng_next (snd (resolve env ps d E)) = eng_next E"
  by (simp add: resolve_def Let_def next_fold split: option.split)

lemma next_ask: "eng_next (snd (ask env ps a E)) = Suc (eng_next E)"
  by (simp add: ask_def split_beta Let_def)

lemma next_decide:
  "eng_next (snd (decide env ps call tool risk preview mode signal E)) =
     (case fst (decide env ps call tool risk preview mode signal E) of
        Decided d \<Rightarrow> eng_next E | Waiting p \<Rightarrow> Suc (eng_next E))"
  by (simp add: decide_def split_beta Let_def next_ask split: option.split)

lemma next_step: "eng_next E \<le> eng_next (perm_step env ps op E)"
  by (cases op) (simp_all add: next_decide cancelPendingForTask_def cancelAll_def abort_signal_def
      next_fold split: decide_result.split)

lemma next_run: "eng_next E \<le> eng_next (perm_run env ps ops E)"
  unfolding perm_run_def by (induction ops arbitrary: E) (auto intro: le_trans[OF next_step])

end
