(* ===== verification/Permission_Properties.thy ===== *)
theory Permission_Properties
  imports Permission_Safety
begin

text \<open>
  The theorems of the permission system, over the engine on the SQLite store of the desktop
  application (the in-memory store satisfies the same lemmas, through the interpretation \<open>mem\<close>).
\<close>

abbreviation sql_session ::
    "perm_env \<Rightarrow> perm_op list \<Rightarrow> string \<Rightarrow> host \<Rightarrow> permission_tables engine" where
  "sql_session env ops w h \<equiv>
     perm_run env SqlPermissionStore ops (new_engine w empty_permission_tables h)"

lemma sql_session_ok: "host_ok h \<Longrightarrow> engine_ok env pt_requests (sql_session env ops w h)"
  by (rule sql.ok_run, rule sql.ok_new) (simp_all add: empty_permission_tables_def)

section \<open>Sample values for the witnesses\<close>

definition sample_env :: perm_env where
  "sample_env = \<lparr> env_sha = (\<lambda>s. s), env_redact = (\<lambda>j. j) \<rparr>"

definition sample_call :: tool_call_request where
  "sample_call = \<lparr> tc_callId = ''c1'', tc_runId = ''r1'', tc_taskId = ''t1'',
     tc_toolName = ''run_command'', tc_input = JObj [(''cmd'', JStr ''ls'')] \<rparr>"

definition sample_tool :: tool_info where
  "sample_tool = \<lparr> ti_name = ''run_command'', ti_version = 1, ti_description = [] \<rparr>"

definition sample_risk :: "risk_level \<Rightarrow> risk_assessment" where
  "sample_risk l = \<lparr> ra_level = l, ra_reasons = [], ra_recognized = None \<rparr>"

definition sample_preview :: tool_preview where
  "sample_preview = \<lparr> tp_summary = ''ls'', tp_detail = None, tp_diff = JNull, tp_command = JNull,
     tp_targets = None, tp_ruleKey = Some ''cmd:ls'' \<rparr>"

definition sample_decide :: "risk_level \<Rightarrow> perm_op" where
  "sample_decide l = Op_decide sample_call sample_tool (sample_risk l) sample_preview Agent_edit ''s1''"

definition sample_session :: "permission_tables engine" where
  "sample_session = sql_session sample_env [sample_decide R3] ''w'' sample_host"

definition sample_answer :: "rule_kind \<Rightarrow> grant_scope \<Rightarrow> string \<Rightarrow> user_decision" where
  "sample_answer kind scope hash = \<lparr> ud_requestId = ''perm_'', ud_kind = kind, ud_scope = scope,
     ud_expectedParamsHash = hash, ud_reason = None, ud_applyToSimilar = False, ud_actor = ''user'' \<rparr>"

definition sample_ask :: ask_input where
  "sample_ask = \<lparr> ai_call = sample_call, ai_tool = sample_tool, ai_risk = sample_risk R3,
     ai_preview = sample_preview, ai_ruleKey = ''cmd:ls'',
     ai_paramsHash = hashParams (\<lambda>s. s) (tc_input sample_call), ai_signal = ''s1'' \<rparr>"

definition sample_entry :: pending_entry where
  "sample_entry = \<lparr> pe_card = make_card sample_env ''w'' ''perm_'' 1000 sample_ask, pe_promise = 0,
     pe_ask = sample_ask, pe_reopen = True \<rparr>"

lemma sample_pending: "eng_pending sample_session = [(''perm_'', sample_entry)]"
  by (simp add: sample_session_def perm_run_def sample_decide_def decide_def sample_risk_def Let_def
      SqlPermissionStore_def sql_listRules_def new_engine_def empty_permission_tables_def
      sample_preview_def sample_env_def sample_call_def ask_def openRequest_def store_reopen_def
      eng_newId_def eng_now_def newId_def timestamp_def sample_host_def split_beta sample_entry_def
      sample_ask_def)

lemma sample_entry_simps [simp]:
  "cd_paramsHash (pe_card sample_entry) = hashParams (\<lambda>s. s) (tc_input sample_call)"
  "cd_ruleKey (pe_card sample_entry) = ''cmd:ls''" "entry_key sample_entry = ''perm_''"
  "ra_level (cd_risk (pe_card sample_entry)) = R3" "pe_promise sample_entry = 0"
  "pe_ask sample_entry = sample_ask" "ai_call sample_ask = sample_call"
  by (simp_all add: sample_entry_def sample_ask_def sample_risk_def)

lemma sample_answer_simps [simp]:
  "ud_requestId (sample_answer kind scope hash) = ''perm_''"
  "ud_kind (sample_answer kind scope hash) = kind" "ud_scope (sample_answer kind scope hash) = scope"
  "ud_expectedParamsHash (sample_answer kind scope hash) = hash"
  "ud_applyToSimilar (sample_answer kind scope hash) = False"
  by (simp_all add: sample_answer_def)

lemma sample_env_sha [simp]: "env_sha sample_env = (\<lambda>s. s)"
  by (simp add: sample_env_def)

section \<open>What runs without asking\<close>

definition call_rule_key :: "tool_info \<Rightarrow> tool_preview \<Rightarrow> string" where
  "call_rule_key tool preview = or_else (''tool:'' @ ti_name tool) (tp_ruleKey preview)"

text \<open>The standing rules of a kind that match a call.\<close>

definition matching_rules ::
    "'st permission_store \<Rightarrow> 'st engine \<Rightarrow> rule_kind \<Rightarrow> tool_call_request \<Rightarrow> tool_info \<Rightarrow>
     tool_preview \<Rightarrow> standing_rule set" where
  "matching_rules ps E k call tool preview =
     {u \<in> workspace_rules ps E. ru_kind u = k \<and>
        rule_matches (call_rule_key tool preview) (tc_taskId call) u}"

lemma find_matching:
  "find (\<lambda>r. ru_kind r = k \<and> rule_matches (call_rule_key tool preview) (tc_taskId call) r)
      (ps_listRules ps (eng_workspaceId E) (eng_store E)) = None \<longleftrightarrow>
   matching_rules ps E k call tool preview = {}"
  by (auto simp: find_None_iff matching_rules_def workspace_rules_def)


section \<open>Every waiting call is answered once\<close>

text \<open>C1: After any sequence of decisions, user answers, cancellations and aborts, every call that
  was ever made to wait is either still pending or was answered exactly once (the promises of
  the pending entries and of the answers are together the promises handed out); the pending
  requests are exactly the stored requests in state PENDING, none of them waits on an aborted
  run, and \<open>cancelAll\<close> leaves nothing pending and every promise answered.\<close>

theorem permission_every_call_answered_once:
  assumes "host_ok h"
  shows "let E = sql_session env ops w h; F = cancelAll env SqlPermissionStore reason E in
     mset (map (pe_promise \<circ> snd) (eng_pending E)) + mset (map fst (eng_settled E)) =
       mset [0..<eng_next E] \<and>
     distinct (map cd_requestId (pendingAll E)) \<and>
     open_rows (pt_requests (eng_store E)) = set (map cd_requestId (pendingAll E)) \<and>
     set (map (ai_signal \<circ> pe_ask \<circ> snd) (eng_pending E)) \<inter> set (eng_aborted E) = {} \<and>
     eng_pending F = [] \<and> mset (map fst (eng_settled F)) = mset [0..<eng_next E] \<and>
     open_rows (pt_requests (eng_store F)) = {}"
proof -
  let ?E = "sql_session env ops w h"
  let ?F = "cancelAll env SqlPermissionStore reason ?E"
  have ok: "engine_ok env pt_requests ?E" by (rule sql_session_ok[OF assms])
  note cancel = sql.cancelAll_effect[OF ok, of reason]
  have ids: "map cd_requestId (pendingAll ?E) = map fst (eng_pending ?E)"
    using ok_pending_entries(1)[OF ok] by (simp add: pendingAll_def comp_assoc)
  have "promises_ok [] ?F" and "rows_ok pt_requests ?F"
    using cancel by (simp_all add: engine_ok_def engine_inv_def)
  moreover have "set (map (ai_signal \<circ> pe_ask \<circ> snd) (eng_pending ?E)) \<inter> set (eng_aborted ?E) = {}"
    using ok by (auto simp: engine_ok_def engine_quiet_def)
  moreover have "promises_ok [] ?E" and "rows_ok pt_requests ?E"
    using ok by (simp_all add: engine_ok_def engine_inv_def)
  ultimately show ?thesis
    using ok_keys[OF ok] cancel unfolding Let_def ids
    by (simp add: promises_ok_def rows_ok_def)
qed

theorem permission_every_call_answered_once_witness:
  "eng_pending sample_session \<noteq> [] \<and>
   eng_pending (cancelAll sample_env SqlPermissionStore ''quit'' sample_session) = []"
  using permission_every_call_answered_once[OF sample_host_ok, of sample_env
      "[sample_decide R3]" "''w''" "''quit''"] sample_pending
  by (auto simp: Let_def sample_session_def)

section \<open>Approvals are bound to the parameters\<close>

text \<open>C8: PERM-007: an answer given on a card whose hash is not the hash of the pending request
  answers nothing. The request is closed, and the same call waits on under a fresh request
  identifier (the promise and the call are unchanged).\<close>

theorem permission_hash_mismatch_voids:
  assumes "host_ok h" and "E = sql_session env ops w h"
    and "map_of (eng_pending E) (ud_requestId d) = Some e"
    and "ud_expectedParamsHash d \<noteq> cd_paramsHash (pe_card e)"
  shows "let (ids, F) = resolve env SqlPermissionStore d E in
     ids = [] \<and> eng_settled F = eng_settled E \<and>
     (\<exists>k' e'. eng_pending F = AList.delete (ud_requestId d) (eng_pending E) @ [(k', e')] \<and>
        pe_promise e' = pe_promise e \<and> pe_ask e' = pe_ask e \<and>
        k' \<notin> sr_id ` set (pt_requests (eng_store E)))"
  using sql.resolve_mismatch[OF sql_session_ok[OF assms(1)] assms(3)[unfolded assms(2)] assms(4)]
  unfolding assms(2) by (simp add: split_beta Let_def)

theorem permission_hash_mismatch_voids_witness:
  "fst (resolve sample_env SqlPermissionStore (sample_answer Rule_allow Grant_once ''stale'')
     sample_session) = []"
  using permission_hash_mismatch_voids[OF sample_host_ok sample_session_def,
      of "sample_answer Rule_allow Grant_once ''stale''" sample_entry] sample_pending
  by (simp add: split_beta Let_def hashParams_def sample_call_def)

text \<open>C7: An answer with the right hash answers exactly its targets, in order: the request itself
  and, if the user asked for it, every other pending request of the same rule key. An approval
  carries the hash of the input of the call it answers.\<close>

theorem permission_approval_bound:
  assumes "host_ok h" and "E = sql_session env ops w h"
    and "map_of (eng_pending E) (ud_requestId d) = Some e"
    and "ud_expectedParamsHash d = cd_paramsHash (pe_card e)"
  shows "let (ids, F) = resolve env SqlPermissionStore d E;
             targets = resolution_targets d e E
     in ids = map entry_key targets \<and>
        eng_pending F = filter (\<lambda>(k, _). k \<notin> set ids) (eng_pending E) \<and>
        map fst (eng_settled F) = map fst (eng_settled E) @ map pe_promise targets \<and>
        (ud_kind d = Rule_allow \<longrightarrow> eng_settled F = eng_settled E @ map (\<lambda>x. (pe_promise x,
           Allow (grant_to_allow (effective_scope d e))
             (Some (hashParams (env_sha env) (tc_input (ai_call (pe_ask x))))))) targets)"
proof -
  have ok: "engine_ok env pt_requests E" using assms(1,2) sql_session_ok by simp
  note effect = sql.resolve_effect[OF ok assms(3,4)]
  have inv: "engine_inv env pt_requests [] E" using ok by (simp add: engine_ok_def)
  have hash: "cd_paramsHash (pe_card x) = hashParams (env_sha env) (tc_input (ai_call (pe_ask x)))"
    if "x \<in> set (resolution_targets d e E)" for x
  proof -
    from sql.resolve_targets_pending(2)[OF ok assms(3)] that
    have x: "map_of (eng_pending E) (entry_key x) = Some x" by (rule bspec)
    show ?thesis
      using arg_cong[OF engine_inv_card[OF inv map_of_SomeD[OF x]], of cd_paramsHash]
        engine_inv_bound[OF inv x] by (simp add: ask_bound_def)
  qed
  show ?thesis
    unfolding split_beta Let_def effect
    by (auto simp: user_answer_def hash comp_def)
qed

theorem permission_approval_bound_witness:
  "eng_settled (snd (resolve sample_env SqlPermissionStore
      (sample_answer Rule_allow Grant_workspace (hashParams (\<lambda>s. s) (tc_input sample_call)))
      sample_session)) =
   eng_settled sample_session @ [(0, Allow Allow_once (Some (hashParams (\<lambda>s. s) (tc_input sample_call))))]"
  using permission_approval_bound[OF sample_host_ok sample_session_def,
      of "sample_answer Rule_allow Grant_workspace (hashParams (\<lambda>s. s) (tc_input sample_call))"
        sample_entry]
  by (simp add: sample_pending split_beta Let_def resolution_targets_def effective_scope_def
      grant_to_allow_def)

section \<open>Standing rules\<close>

text \<open>C9: PERM-003: no standing grant ever covers an R3 action. Whatever the user answers and in
  whatever order, the stored allow rules never have risk R3; and an R3 call is allowed without
  asking in \<open>full\<close> mode only.\<close>

theorem permission_no_standing_r3:
  "let E = sql_session env ops w h;
       out = decide env SqlPermissionStore call tool risk preview mode signal E
   in filter (\<lambda>u. ru_kind u = Rule_allow \<and> ru_risk u = R3)
        (sql_listRules w (eng_store E)) = [] \<and>
      (if ra_level risk = R3 \<and> mode \<noteq> Agent_full
       then fst out \<in> {Decided (Deny
              ''The user has permanently denied this kind of action in this workspace.'' True),
              Waiting (eng_next E)}
       else True)"
proof -
  let ?N = "new_engine w empty_permission_tables h"
  have rules: "workspace_rules SqlPermissionStore E = set (sql_listRules (eng_workspaceId E) (eng_store E))"
    for E by (simp add: workspace_rules_def SqlPermissionStore_def)
  have "workspace_rules SqlPermissionStore ?N = {}"
    by (simp add: rules new_engine_def empty_permission_tables_def sql_listRules_def)
  moreover have "eng_workspaceId ?N = w" by (simp add: new_engine_def)
  ultimately have "set (sql_listRules w (eng_store (sql_session env ops w h))) \<subseteq> grantable"
    using sql.keeps_run[of env ops] unfolding keeps_rules_def rules by (metis Un_empty_left)
  then show ?thesis
    by (auto simp: Let_def decide_def filter_empty_conv ask_reissue split_beta split: option.splits)
qed

text \<open>C10: A permanent denial sticks. After the user denied a request with scope \<open>always\<close>, every
  later call of the same rule key in the workspace is denied without asking, in every mode,
  after any further operations and after a restart on the stored tables.\<close>

theorem permission_deny_always_sticks:
  assumes "map_of (eng_pending E) (ud_requestId d) = Some e"
    and "ud_expectedParamsHash d = cd_paramsHash (pe_card e)"
    and "ud_kind d = Rule_deny" and "ud_scope d = Grant_always"
    and "call_rule_key tool preview = cd_ruleKey (pe_card e)" and "ra_level risk \<noteq> R0"
  shows "let F = snd (resolve env SqlPermissionStore d E);
             G = perm_run env SqlPermissionStore ops' (new_engine (eng_workspaceId E)
                   (eng_store (perm_run env SqlPermissionStore ops F)) h)
         in \<exists>r. decide env SqlPermissionStore call tool risk preview mode signal G =
              (Decided (Deny r True), G)"
proof -
  let ?ps = SqlPermissionStore
  let ?F = "snd (resolve env ?ps d E)"
  let ?H = "perm_run env ?ps ops ?F"
  let ?N = "new_engine (eng_workspaceId E) (eng_store ?H) h"
  let ?G = "perm_run env ?ps ops' ?N"
  obtain u where u: "ru_kind u = Rule_deny" "ru_ruleKey u = cd_ruleKey (pe_card e)" "ru_taskId u = None"
    and "workspace_rules ?ps (save_standing_rule ?ps None Rule_deny (pe_card e) E) =
      insert u (workspace_rules ?ps E)"
    using sql.rules_save_standing by metis
  then have "u \<in> workspace_rules ?ps ?F"
    using assms(1-4) by (simp add: resolve_def effective_scope_def workspace_rules_def Let_def
        sql.rules_fold_resolve)
  moreover have "eng_workspaceId ?F = eng_workspaceId E"
    using sql.keeps_resolve[of env d] by (simp add: keeps_rules_def)
  moreover have "workspace_rules ?ps ?F \<subseteq> workspace_rules ?ps ?H"
    and "eng_workspaceId ?H = eng_workspaceId ?F"
    using sql.keeps_run[of env ops, unfolded keeps_rules_def, rule_format, of ?F] by simp_all
  ultimately have "u \<in> workspace_rules ?ps ?H" and "eng_workspaceId ?H = eng_workspaceId E"
    by auto
  then have "u \<in> workspace_rules ?ps ?N" by (simp add: workspace_rules_def new_engine_def)
  then have "u \<in> workspace_rules ?ps ?G"
    using sql.keeps_run[of env ops'] unfolding keeps_rules_def by blast
  then have "matching_rules ?ps ?G Rule_deny call tool preview \<noteq> {}"
    using u assms(5) by (auto simp: matching_rules_def rule_matches_def)
  with assms(6) find_matching[of Rule_deny tool preview call ?ps ?G] show ?thesis
    unfolding decide_def call_rule_key_def[symmetric] Let_def
    by auto
qed

theorem permission_deny_always_sticks_witness:
  "\<exists>r. fst (decide sample_env SqlPermissionStore sample_call sample_tool (sample_risk R1)
      sample_preview Agent_full ''s2''
      (new_engine ''w'' (eng_store (snd (resolve sample_env SqlPermissionStore
         (sample_answer Rule_deny Grant_always (hashParams (\<lambda>s. s) (tc_input sample_call)))
         sample_session))) sample_host)) = Decided (Deny r True)"
proof -
  have "eng_workspaceId sample_session = ''w''"
    using sql.keeps_run[of sample_env "[sample_decide R3]"]
    by (simp add: sample_session_def keeps_rules_def new_engine_def)
  moreover have "call_rule_key sample_tool sample_preview = cd_ruleKey (pe_card sample_entry)"
    by (simp add: call_rule_key_def sample_preview_def)
  moreover have "ra_level (sample_risk R1) \<noteq> R0" by (simp add: sample_risk_def)
  ultimately show ?thesis
    using permission_deny_always_sticks[of sample_session
      "sample_answer Rule_deny Grant_always (hashParams (\<lambda>s. s) (tc_input sample_call))" sample_entry
      sample_tool sample_preview "sample_risk R1" sample_env "[]" "[]" sample_host sample_call
      Agent_full "''s2''"]
    by (auto simp: sample_pending perm_run_def Let_def)
qed

section \<open>Approving similar requests\<close>



end
