(* ===== verification/Plan_Utils.thy ===== *)
theory Plan_Utils
  imports Canonical_Json
begin

text \<open>
  Task plans (\<open>packages/tool-gateway/src/plan-utils.ts\<close>): numbering a proposed plan, merging the
  user's edit into the current plan, and applying the agent's status updates with the delta that
  goes to the event log. An absent optional field is \<open>None\<close>.
\<close>

datatype step_status = Step_pending | Step_in_progress | Step_done | Step_skipped | Step_blocked

record plan_step =
  ps_id :: string
  ps_title :: string
  ps_description :: "string option"
  ps_status :: step_status
  ps_expectedFiles :: "string list option"
  ps_verification :: "string option"

record task_plan =
  tp_version :: nat
  tp_plan_summary :: string
  tp_steps :: "plan_step list"

record proposed_step =
  pp_title :: string
  pp_description :: "string option"
  pp_expectedFiles :: "string list option"
  pp_verification :: "string option"

definition step_id :: "nat \<Rightarrow> nat \<Rightarrow> string" where
  "step_id version i = ''step-'' @ show_nat version @ ''-'' @ show_nat (i + 1)"

fun indexed :: "nat \<Rightarrow> 'a list \<Rightarrow> (nat \<times> 'a) list" where
  "indexed n [] = []"
| "indexed n (x # xs) = (n, x) # indexed (Suc n) xs"

definition normalizeProposedPlan :: "string \<Rightarrow> proposed_step list \<Rightarrow> nat \<Rightarrow> task_plan" where
  "normalizeProposedPlan summary steps version =
     \<lparr> tp_version = version, tp_plan_summary = summary,
       tp_steps = map (\<lambda>(i, step).
         \<lparr> ps_id = step_id version i, ps_title = pp_title step,
           ps_description = pp_description step, ps_status = Step_pending,
           ps_expectedFiles = pp_expectedFiles step, ps_verification = pp_verification step \<rparr>)
         (indexed 0 steps) \<rparr>"

section \<open>Merging a user edit\<close>

record edit_step =
  es_id :: "string option"
  es_title :: string
  es_description :: "string option"

definition steps_by_id :: "plan_step list \<Rightarrow> string \<Rightarrow> plan_step option" where
  "steps_by_id steps = map_of (rev (map (\<lambda>s. (ps_id s, s)) steps))"

definition edit_prev :: "plan_step list \<Rightarrow> edit_step \<Rightarrow> plan_step option" where
  "edit_prev steps step =
     (case es_id step of None \<Rightarrow> None | Some i \<Rightarrow> if i = [] then None else steps_by_id steps i)"

definition merge_step :: "plan_step list \<Rightarrow> nat \<Rightarrow> nat \<Rightarrow> edit_step \<Rightarrow> plan_step" where
  "merge_step steps version i step =
     (let prev = edit_prev steps step in
      \<lparr> ps_id = (case prev of None \<Rightarrow> step_id version i | Some p \<Rightarrow> ps_id p),
        ps_title = es_title step,
        ps_description = coalesce (es_description step) (Option.bind prev ps_description),
        ps_status = (case prev of None \<Rightarrow> Step_pending | Some p \<Rightarrow> ps_status p),
        ps_expectedFiles = Option.bind prev ps_expectedFiles,
        ps_verification = Option.bind prev ps_verification \<rparr>)"

definition plan_shape :: "string \<Rightarrow> plan_step list \<Rightarrow> string" where
  "plan_shape summary steps =
     stringify (JObj [(''summary'', JStr summary),
       (''steps'', JArr (map (\<lambda>s. JObj [(''id'', JStr (ps_id s)), (''title'', JStr (ps_title s)),
          (''description'', case ps_description s of None \<Rightarrow> JUndef | Some d \<Rightarrow> JStr d)]) steps))])"

record plan_edit_result =
  per_plan :: task_plan
  per_removedDone :: "plan_step list"
  per_changed :: bool

definition applyPlanEdit ::
    "task_plan \<Rightarrow> string option \<Rightarrow> edit_step list \<Rightarrow> nat \<Rightarrow> plan_edit_result" where
  "applyPlanEdit current edit_summary edit_steps version =
     (let steps = map (\<lambda>(i, step). merge_step (tp_steps current) version i step)
                    (indexed 0 edit_steps);
          keptIds = set (map ps_id steps);
          removedDone = filter (\<lambda>s. ps_id s \<notin> keptIds \<and> ps_status s = Step_done) (tp_steps current);
          summary = or_else (tp_plan_summary current) edit_summary
      in \<lparr> per_plan = \<lparr> tp_version = version, tp_plan_summary = summary, tp_steps = steps \<rparr>,
           per_removedDone = removedDone,
           per_changed = (plan_shape summary steps
                            \<noteq> plan_shape (tp_plan_summary current) (tp_steps current)) \<rparr>)"

section \<open>Status updates\<close>

record status_delta =
  dl_id :: string
  dl_from :: step_status
  dl_to :: step_status

definition wanted_status :: "(string \<times> step_status) list \<Rightarrow> string \<Rightarrow> step_status option" where
  "wanted_status updates = map_of (rev updates)"

fun update_steps ::
    "(string \<times> step_status) list \<Rightarrow> plan_step list \<Rightarrow> plan_step list \<times> status_delta list" where
  "update_steps updates [] = ([], [])"
| "update_steps updates (step # steps) =
     (let (rest, delta) = update_steps updates steps in
      case wanted_status updates (ps_id step) of
        None \<Rightarrow> (step # rest, delta)
      | Some to \<Rightarrow>
          if to = ps_status step then (step # rest, delta)
          else (step\<lparr>ps_status := to\<rparr> # rest,
                \<lparr> dl_id = ps_id step, dl_from = ps_status step, dl_to = to \<rparr> # delta))"

definition applyStatusUpdates ::
    "task_plan \<Rightarrow> (string \<times> step_status) list \<Rightarrow> nat \<Rightarrow> task_plan \<times> status_delta list" where
  "applyStatusUpdates current updates version =
     (let (steps, delta) = update_steps updates (tp_steps current)
      in (current\<lparr>tp_version := version, tp_steps := steps\<rparr>, delta))"

section \<open>Lemmas\<close>

lemma indexed_nth: "map snd (indexed n xs) = xs"
  by (induction n xs rule: indexed.induct) simp_all

lemma step_id_inject: "step_id v i = step_id v j \<longleftrightarrow> i = j"
  by (simp add: step_id_def)

text \<open>The member a serialised object drops carries the value \<open>undefined\<close>.\<close>

fun drop_undef :: "(string \<times> json) list \<Rightarrow> (string \<times> json) list" where
  "drop_undef [] = []"
| "drop_undef ((k, v) # fs) = (if v = JUndef then drop_undef fs else (k, v) # drop_undef fs)"

lemma stringify_fields_drop: "stringify_fields (drop_undef fs) = stringify_fields fs"
  by (induction fs rule: drop_undef.induct) auto

abbreviation shape_fields :: "plan_step \<Rightarrow> (string \<times> json) list" where
  "shape_fields s \<equiv> [(''id'', JStr (ps_id s)), (''title'', JStr (ps_title s)),
     (''description'', case ps_description s of None \<Rightarrow> JUndef | Some d \<Rightarrow> JStr d)]"

lemma stringify_items_shape:
  "stringify_items (map (\<lambda>s. JObj (shape_fields s)) steps) =
   stringify_items (map (\<lambda>s. JObj (drop_undef (shape_fields s))) steps)"
  by (induction steps) (simp_all add: stringify_fields_drop split: option.splits)

lemma defined_items_shape:
  "defined_items (map (\<lambda>s. JObj (drop_undef (shape_fields s))) steps)"
  by (induction steps) (auto split: option.splits)

lemma plan_shape_inject:
  "plan_shape a xs = plan_shape b ys \<longleftrightarrow>
   a = b \<and> map (\<lambda>s. (ps_id s, ps_title s, ps_description s)) xs =
           map (\<lambda>s. (ps_id s, ps_title s, ps_description s)) ys"
proof -
  let ?obj = "\<lambda>a xs. JObj [(''summary'', JStr a),
    (''steps'', JArr (map (\<lambda>s. JObj (drop_undef (shape_fields s))) xs))]"
  have shape: "plan_shape a xs = stringify (?obj a xs)" for a xs
    by (simp add: plan_shape_def stringify_items_shape del: drop_undef.simps)
  have items: "map (\<lambda>s. JObj (drop_undef (shape_fields s))) xs =
      map (\<lambda>s. JObj (drop_undef (shape_fields s))) ys \<longleftrightarrow>
    map (\<lambda>s. (ps_id s, ps_title s, ps_description s)) xs =
      map (\<lambda>s. (ps_id s, ps_title s, ps_description s)) ys" for xs ys
  proof (induction xs arbitrary: ys)
    case Nil
    then show ?case by auto
  next
    case (Cons x xs)
    show ?case
    proof (cases ys)
      case Nil
      then show ?thesis by simp
    next
      case (Cons y ys')
      with Cons.IH[of ys'] show ?thesis by (auto split: option.splits)
    qed
  qed
  have "stringify (?obj a xs) = stringify (?obj b ys) \<longleftrightarrow> ?obj a xs = ?obj b ys"
    by (rule stringify_inject) (simp_all add: defined_items_shape del: drop_undef.simps)
  then show ?thesis
    unfolding shape by (simp add: items del: drop_undef.simps)
qed

lemma update_steps_map:
  "fst (update_steps updates steps) =
   map (\<lambda>s. s\<lparr>ps_status := or_else (ps_status s) (wanted_status updates (ps_id s))\<rparr>) steps"
  by (induction updates steps rule: update_steps.induct)
    (auto simp: split_beta Let_def split: option.splits)

lemma update_steps_delta:
  "snd (update_steps updates steps) =
   map (\<lambda>s. \<lparr> dl_id = ps_id s, dl_from = ps_status s,
             dl_to = the (wanted_status updates (ps_id s)) \<rparr>)
     (filter (\<lambda>s. wanted_status updates (ps_id s) \<notin> {None, Some (ps_status s)}) steps)"
  by (induction updates steps rule: update_steps.induct)
    (auto simp: split_beta Let_def split: option.splits)

lemma steps_by_id_id: "steps_by_id steps i = Some s \<Longrightarrow> ps_id s = i \<and> s \<in> set steps"
  by (auto simp: steps_by_id_def dest!: map_of_SomeD)

text \<open>C17: A user edit never loses or forges progress: a step whose identifier is in the current
  plan keeps its status, files and verification; every other step is pending; the completed
  steps that would be dropped are exactly the reported ones; and \<open>changed\<close> is false exactly when
  the summary and every identifier, title and description are the same.\<close>

theorem plan_edit_keeps_progress:
  "let r = applyPlanEdit current s edits version; new = tp_steps (per_plan r) in
   map ps_title new = map es_title edits \<and>
   map ps_status new = map (\<lambda>e. case edit_prev (tp_steps current) e of
       None \<Rightarrow> Step_pending | Some p \<Rightarrow> ps_status p) edits \<and>
   set (per_removedDone r) =
     {p \<in> set (tp_steps current). ps_status p = Step_done} - {p. ps_id p \<in> ps_id ` set new} \<and>
   (per_changed r \<longleftrightarrow>
     \<not> (or_else (tp_plan_summary current) s = tp_plan_summary current \<and>
        map (\<lambda>s. (ps_id s, ps_title s, ps_description s)) new =
        map (\<lambda>s. (ps_id s, ps_title s, ps_description s)) (tp_steps current)))"
proof -
  have field: "map f (map (\<lambda>(i, step). merge_step ss version i step) (indexed 0 edits)) = map g edits"
    if "\<And>i e. f (merge_step ss version i e) = g e" for f :: "plan_step \<Rightarrow> 'b" and g ss
  proof -
    have "map f (map (\<lambda>(i, step). merge_step ss version i step) (indexed 0 edits)) =
      map g (map snd (indexed 0 edits))" using that by (auto simp: split_beta)
    then show ?thesis by (simp only: indexed_nth)
  qed
  show ?thesis
    unfolding Let_def
  proof (intro conjI)
    show "map ps_title (tp_steps (per_plan (applyPlanEdit current s edits version))) = map es_title edits"
      unfolding applyPlanEdit_def Let_def plan_edit_result.simps task_plan.simps
      by (rule field) (simp add: merge_step_def Let_def)
    show "map ps_status (tp_steps (per_plan (applyPlanEdit current s edits version))) =
      map (\<lambda>e. case edit_prev (tp_steps current) e of
         None \<Rightarrow> Step_pending | Some p \<Rightarrow> ps_status p) edits"
      unfolding applyPlanEdit_def Let_def plan_edit_result.simps task_plan.simps
      by (rule field) (simp add: merge_step_def Let_def)
  qed (auto simp: applyPlanEdit_def Let_def plan_shape_inject)
qed

text \<open>C18: The identifiers of a merged plan stay unique: if the current plan has unique
  identifiers, none of them is one the new version would generate, and the edit names every
  surviving step once, then the merged plan has unique identifiers.\<close>

theorem plan_edit_ids_unique:
  assumes "distinct (map ps_id (tp_steps current))"
    and "\<And>i. step_id version i \<notin> ps_id ` set (tp_steps current)"
    and "distinct (filter (\<lambda>i. i \<noteq> None) (map es_id edits))"
  shows "distinct (map ps_id (tp_steps (per_plan (applyPlanEdit current s edits version))))"
proof -
  let ?new = "\<lambda>n es. map (\<lambda>(i, step). merge_step (tp_steps current) version i step) (indexed n es)"
  have old: "ps_id (merge_step (tp_steps current) version i e) = j \<Longrightarrow>
      j \<in> ps_id ` set (tp_steps current) \<Longrightarrow> es_id e = Some j" for i e j
    using assms(2) steps_by_id_id
    by (fastforce simp: merge_step_def Let_def edit_prev_def split: option.splits if_splits)
  have new: "ps_id (merge_step (tp_steps current) version i e) = step_id version i \<or>
      ps_id (merge_step (tp_steps current) version i e) \<in> ps_id ` set (tp_steps current)" for i e
    using steps_by_id_id
    by (fastforce simp: merge_step_def Let_def edit_prev_def split: option.splits if_splits)
  have mem: "(i, e) \<in> set (indexed n es) \<Longrightarrow> e \<in> set es \<and> n \<le> i" for i e n es
    by (induction n es rule: indexed.induct) auto
  have "distinct (map ps_id (?new n es))"
    if "distinct (filter (\<lambda>i. i \<noteq> None) (map es_id es))" for n es
    using that
  proof (induction n es rule: indexed.induct)
    case (1 n)
    then show ?case by simp
  next
    case (2 n e es)
    let ?me = "ps_id (merge_step (tp_steps current) version n e)"
    have "?me \<noteq> ps_id (merge_step (tp_steps current) version i e')"
      if ie: "(i, e') \<in> set (indexed (Suc n) es)" for i e'
    proof
      assume eq: "?me = ps_id (merge_step (tp_steps current) version i e')"
      from mem[OF ie] have e': "e' \<in> set es" and i: "Suc n \<le> i" by auto
      show False
      proof (cases "?me \<in> ps_id ` set (tp_steps current)")
        case True
        then have "es_id e = Some ?me" and "es_id e' = Some ?me"
          using old[OF refl, of n e] old[of i e' ?me] eq by auto
        with "2.prems" e' show False by (auto simp: image_iff split: if_splits)
      next
        case False
        then have "step_id version n = step_id version i"
          using new[of n e] new[of i e'] eq by metis
        with i show False by (simp add: step_id_inject)
      qed
    qed
    then have "?me \<notin> ps_id ` set (?new (Suc n) es)" by auto
    moreover have "distinct (map ps_id (?new (Suc n) es))"
      using "2.IH" "2.prems" by (simp split: if_splits)
    ultimately show ?case by (simp add: image_image)
  qed
  from this[OF assms(3)] show ?thesis by (simp add: applyPlanEdit_def Let_def)
qed

definition sample_plan :: task_plan where
  "sample_plan = normalizeProposedPlan ''p''
     [\<lparr> pp_title = ''a'', pp_description = None, pp_expectedFiles = None, pp_verification = None \<rparr>] 1"

theorem plan_edit_ids_unique_witness:
  "distinct (map ps_id (tp_steps (per_plan (applyPlanEdit sample_plan None
     [\<lparr> es_id = Some (step_id 1 0), es_title = ''b'', es_description = None \<rparr>,
      \<lparr> es_id = None, es_title = ''c'', es_description = None \<rparr>] 2))))"
proof -
  have "step_id 2 i \<noteq> step_id 1 0" for i
  proof -
    have "show_nat 2 = ''2''" "show_nat 1 = ''1''"
      by code_simp+
    then show ?thesis by (simp add: step_id_def)
  qed
  then show ?thesis
    by (intro plan_edit_ids_unique)
      (simp_all add: sample_plan_def normalizeProposedPlan_def)
qed

text \<open>C19: The delta of a status update is exact: it lists, in plan order, precisely the steps
  whose status changes, with the old and the new status; no other field changes; and applying
  the same updates again changes nothing.\<close>

theorem plan_status_delta_exact:
  "let (plan, delta) = applyStatusUpdates current updates version in
   delta = map (\<lambda>(old, new). \<lparr> dl_id = ps_id old, dl_from = ps_status old, dl_to = ps_status new \<rparr>)
             (filter (\<lambda>(old, new). old \<noteq> new) (zip (tp_steps current) (tp_steps plan))) \<and>
   map (\<lambda>s. (ps_id s, ps_title s, ps_description s, ps_expectedFiles s, ps_verification s))
     (tp_steps plan) =
   map (\<lambda>s. (ps_id s, ps_title s, ps_description s, ps_expectedFiles s, ps_verification s))
     (tp_steps current) \<and>
   snd (applyStatusUpdates plan updates version) = [] \<and>
   tp_plan_summary plan = tp_plan_summary current \<and> tp_version plan = version"
proof -
  let ?f = "\<lambda>s. s\<lparr>ps_status := or_else (ps_status s) (wanted_status updates (ps_id s))\<rparr>"
  let ?P = "\<lambda>s. (\<exists>y. wanted_status updates (ps_id s) = Some y) \<and>
    wanted_status updates (ps_id s) \<noteq> Some (ps_status s)"
  have differs: "s \<noteq> ?f s \<longleftrightarrow> ?P s" for s :: plan_step
    by (cases s; cases "wanted_status updates (ps_id s)") auto
  have zip: "filter (\<lambda>p. fst p \<noteq> snd p) (zip xs (map ?f xs)) = map (\<lambda>s. (s, ?f s)) (filter ?P xs)"
    for xs :: "plan_step list"
    by (induction xs) (simp_all only: list.simps zip_Cons_Cons zip_Nil filter.simps differs fst_conv
        snd_conv split: if_split, auto)
  have again: "filter ?P (map ?f xs) = []" for xs :: "plan_step list"
    by (auto simp: filter_empty_conv or_else_def split: option.splits)
  have delta: "snd (update_steps updates xs) = map (\<lambda>p. \<lparr> dl_id = ps_id (fst p),
      dl_from = ps_status (fst p), dl_to = ps_status (snd p) \<rparr>)
      (filter (\<lambda>p. fst p \<noteq> snd p) (zip xs (map ?f xs)))" for xs
    unfolding zip by (auto simp: update_steps_delta)
  have stable: "snd (update_steps updates (map ?f xs)) = []" for xs
    using again[of xs] by (auto simp: update_steps_delta)
  show ?thesis
    unfolding applyStatusUpdates_def split_beta Let_def update_steps_map fst_conv snd_conv
    using delta[of "tp_steps current"] stable[of "tp_steps current"]
    by (simp add: update_steps_map)
qed

end
