(* ===== verification/Tool_Gateway.thy ===== *)
theory Tool_Gateway
  imports Permission_Properties
begin

text \<open>
  The execution boundary for agent tools (\<open>packages/tool-gateway/src/gateway.ts\<close>): the registry,
  the catalogue of a mode, and \<open>executeCall\<close> with its audit trail.

  A tool is a record of the functions it is registered with; they act on a world of type \<open>'w\<close>
  (the host services behind the tools), may throw (\<open>thrown\<close>), and the schema check is the tool's
  \<open>safeParse\<close> with the issues it reports. \<open>gateway_env\<close> holds what a call takes from outside:
  redaction, the abort flag, and the permission decider, which returns whether it made the call
  wait (\<open>onWaiting\<close>) and the decision its promise resolved with. The contract of deciders is the
  locale \<open>permission_decider\<close>, interpreted on \<open>readOnlyDecider\<close> and on the engine of
  \<open>Permission_Engine\<close> (\<open>engine_decider\<close>: the decision, or what the answers given while the call
  waits, and the end of the run, settle its promise with).

  Results: the shape of every audit trail, what never executes, the reserved auto-allow policy,
  and the bound on outputs.
\<close>

section \<open>Data\<close>

datatype permission_policy = Policy_standard | Policy_auto_allow

record schema_issue =
  si_path :: "string list"
  si_message :: string

record tool_output =
  to_code :: string
  to_summary :: string
  to_data :: json
  to_retryable :: "bool option"

record 'w gateway_tool =
  gt_name :: string
  gt_version :: nat
  gt_description :: string
  gt_promptGuidance :: "string option"
  gt_permissionPolicy :: "permission_policy option"
  gt_safeParse :: "json \<Rightarrow> schema_issue list + json"
  gt_jsonSchema :: json
  gt_preflight :: "(json \<Rightarrow> tool_call_request \<Rightarrow> 'w \<Rightarrow> thrown option \<times> 'w) option"
  gt_risk :: "json \<Rightarrow> thrown + risk_assessment"
  gt_preview :: "json \<Rightarrow> 'w \<Rightarrow> (thrown + tool_preview) \<times> 'w"
  gt_execute :: "json \<Rightarrow> tool_call_request \<Rightarrow> 'w \<Rightarrow> (thrown + tool_output) \<times> 'w"

datatype audit_state =
    Audit_proposed | Audit_waiting_permission | Audit_running | Audit_succeeded | Audit_failed
  | Audit_denied | Audit_cancelled | Audit_timed_out

record audit_record =
  au_callId :: string
  au_runId :: string
  au_taskId :: string
  au_name :: string
  au_version :: nat
  au_risk :: "risk_level option"
  au_state :: audit_state
  au_input :: json
  au_resultSummary :: "string option"
  au_ok :: "bool option"
  au_at :: int

record tool_result =
  tr_callId :: string
  tr_ok :: bool
  tr_code :: string
  tr_summary :: string
  tr_data :: json
  tr_retryable :: "bool option"

record 'w gateway =
  gw_tools :: "(string \<times> 'w gateway_tool) list"
  gw_mode :: agent_mode
  gw_modeForTask :: "(string \<Rightarrow> agent_mode) option"
  gw_maxOutputBytes :: nat

record decide_input =
  di_call :: tool_call_request
  di_tool :: tool_info
  di_risk :: risk_assessment
  di_preview :: tool_preview
  di_mode :: agent_mode

record 'w gateway_env =
  ge_redact :: "json \<Rightarrow> json"
  ge_aborted :: "'w \<Rightarrow> bool"
  ge_decide :: "decide_input \<Rightarrow> 'w \<Rightarrow> (bool \<times> permission_decision) \<times> 'w"

record 'w call_state =
  cs_world :: 'w
  cs_audit :: "audit_record list"
  cs_host :: host

section \<open>The registry\<close>

fun starts_with :: "string \<Rightarrow> string \<Rightarrow> bool" where
  "starts_with [] s \<longleftrightarrow> True"
| "starts_with (c # cs) [] \<longleftrightarrow> False"
| "starts_with (c # cs) (d # ds) \<longleftrightarrow> c = d \<and> starts_with cs ds"

datatype register_error = Auto_allow_reserved

definition auto_allow_name :: "string \<Rightarrow> bool" where
  "auto_allow_name n \<longleftrightarrow> starts_with ''terminal.'' n \<or> starts_with ''orchestration.'' n"

definition register_tool :: "'w gateway_tool \<Rightarrow> 'w gateway \<Rightarrow> register_error + 'w gateway" where
  "register_tool tool gw =
     (if gt_permissionPolicy tool = Some Policy_auto_allow \<and>
         \<not> starts_with ''terminal.'' (gt_name tool) \<and>
         \<not> starts_with ''orchestration.'' (gt_name tool)
      then Inl Auto_allow_reserved
      else Inr (gw\<lparr>gw_tools := AList.update (gt_name tool) tool (gw_tools gw)\<rparr>))"

definition unregister_tool :: "string \<Rightarrow> 'w gateway \<Rightarrow> 'w gateway" where
  "unregister_tool name gw = gw\<lparr>gw_tools := AList.delete name (gw_tools gw)\<rparr>"

definition has_tool :: "string \<Rightarrow> 'w gateway \<Rightarrow> bool" where
  "has_tool name gw \<longleftrightarrow> map_of (gw_tools gw) name \<noteq> None"

definition safeMinimalRisk :: "'w gateway_tool \<Rightarrow> risk_level" where
  "safeMinimalRisk tool = (case gt_risk tool (JObj []) of Inr r \<Rightarrow> ra_level r | Inl e \<Rightarrow> R3)"

record catalog_entry =
  ce_name :: string
  ce_description :: string
  ce_schemaVersion :: nat
  ce_inputJsonSchema :: json
  ce_promptGuidance :: "string option"

definition gw_catalog :: "agent_mode \<Rightarrow> 'w gateway \<Rightarrow> catalog_entry list" where
  "gw_catalog mode gw =
     map (\<lambda>tool. \<lparr> ce_name = gt_name tool, ce_description = gt_description tool,
            ce_schemaVersion = gt_version tool, ce_inputJsonSchema = gt_jsonSchema tool,
            ce_promptGuidance =
              (if gt_promptGuidance tool = Some [] then None else gt_promptGuidance tool) \<rparr>)
       (filter (\<lambda>tool. \<not> (mode = Agent_ask \<and> safeMinimalRisk tool \<noteq> R0 \<and>
                          gt_permissionPolicy tool \<noteq> Some Policy_auto_allow))
         (map snd (gw_tools gw)))"

definition gw_preview ::
    "'w gateway \<Rightarrow> tool_call_request \<Rightarrow> 'w \<Rightarrow> (thrown + (product_error + tool_preview)) \<times> 'w" where
  "gw_preview gw call w =
     (let failure = (\<lambda>code msg. productError code
            \<lparr> peo_userMessage = msg, peo_severity = None, peo_technicalMessage = None,
              peo_context = None, peo_retryable = None \<rparr>)
      in
      case map_of (gw_tools gw) (tc_toolName call) of
        None \<Rightarrow> (Inr (Inl (failure ''TOOL_UNKNOWN''
                   (''Unknown tool '' @ tc_toolName call @ ''.''))), w)
      | Some tool \<Rightarrow>
          (case gt_safeParse tool (tc_input call) of
             Inl issues \<Rightarrow> (Inr (Inl (failure ''TOOL_INVALID_INPUT'' ''Invalid tool input.'')), w)
           | Inr input \<Rightarrow>
               (case gt_preview tool input w of
                  (Inl e, w') \<Rightarrow> (Inl e, w')
                | (Inr p, w') \<Rightarrow> (Inr (Inr p), w'))))"

section \<open>Bounded outputs\<close>

definition boundOutput :: "nat \<Rightarrow> json \<Rightarrow> json" where
  "boundOutput limit value =
     (let text = stringify value;
          truncated = JObj [(''truncated'', JBool True), (''preview'', JStr (take limit text))]
      in
      if length text \<le> limit then value
      else (case value of
          JObj fs \<Rightarrow>
            (case map_of fs ''content'' of
               Some (JStr content) \<Rightarrow>
                 (let keep = nat (max 0 (int limit - (int (length text) - int (length content))))
                  in JObj (json_spread fs
                       [(''content'', JStr (take keep content)), (''truncated'', JBool True)]))
             | _ \<Rightarrow> truncated)
        | _ \<Rightarrow> truncated))"

section \<open>executeCall\<close>

definition audit_entry ::
    "'w gateway_env \<Rightarrow> tool_call_request \<Rightarrow> string \<Rightarrow> nat \<Rightarrow> audit_state \<Rightarrow> risk_level option \<Rightarrow>
     string option \<Rightarrow> bool option \<Rightarrow> 'w call_state \<Rightarrow> 'w call_state" where
  "audit_entry env call name version state risk summary ok s =
     (let (t, h) = timestamp (cs_host s) in
      s\<lparr>cs_audit := cs_audit s @
          [\<lparr> au_callId = tc_callId call, au_runId = tc_runId call, au_taskId = tc_taskId call,
             au_name = name, au_version = version, au_risk = risk, au_state = state,
             au_input = ge_redact env (tc_input call), au_resultSummary = summary, au_ok = ok,
             au_at = t \<rparr>],
        cs_host := h\<rparr>)"

definition failed_result ::
    "tool_call_request \<Rightarrow> string \<Rightarrow> string \<Rightarrow> json \<Rightarrow> bool option \<Rightarrow> tool_result" where
  "failed_result call code summary value retryable =
     \<lparr> tr_callId = tc_callId call, tr_ok = False, tr_code = code, tr_summary = summary,
       tr_data = value, tr_retryable = retryable \<rparr>"

definition issue_text :: "schema_issue list \<Rightarrow> string" where
  "issue_text issues =
     join_with ''; '' (map (\<lambda>i. join_with ''.'' (si_path i) @ '': '' @ si_message i) (take 3 issues))"

definition risk_text :: "risk_level \<Rightarrow> string" where
  "risk_text r = (case r of R0 \<Rightarrow> ''R0'' | R1 \<Rightarrow> ''R1'' | R2 \<Rightarrow> ''R2'' | R3 \<Rightarrow> ''R3'' | R4 \<Rightarrow> ''R4'')"

definition denied_data :: "risk_level \<Rightarrow> bool \<Rightarrow> json" where
  "denied_data r permanent = JObj [(''risk'', JStr (risk_text r)), (''permanent'', JBool permanent)]"

text \<open>The permission step (lines 315 to 355): \<open>None\<close> when the call may go on.\<close>

definition check_permission ::
    "'w gateway_env \<Rightarrow> 'w gateway \<Rightarrow> 'w gateway_tool \<Rightarrow> tool_call_request \<Rightarrow> json \<Rightarrow>
     risk_assessment \<Rightarrow> 'w call_state \<Rightarrow> tool_result option \<times> 'w call_state" where
  "check_permission env gw tool call input risk s =
     (let audit = audit_entry env call (gt_name tool) (gt_version tool);
          level = ra_level risk
      in
      if gt_permissionPolicy tool \<noteq> Some Policy_auto_allow then
        let mode = (case gw_modeForTask gw of None \<Rightarrow> gw_mode gw | Some f \<Rightarrow> f (tc_taskId call)) in
        if mode = Agent_ask \<and> level \<noteq> R0 then
          (Some (failed_result call ''PERMISSION_DENIED''
              ''Ask mode is read-only: writing files or running commands is not available.''
              (denied_data level True) None),
           audit Audit_denied (Some level) (Some ''ask mode is read-only'') (Some False) s)
        else
          let (previewed, w1) = gt_preview tool input (cs_world s);
              preview = (case previewed of Inr p \<Rightarrow> p
                | Inl e \<Rightarrow> \<lparr> tp_summary = gt_name tool, tp_detail = None, tp_diff = JUndef,
                            tp_command = JUndef, tp_targets = None, tp_ruleKey = None \<rparr>);
              ((waited, decision), w2) = ge_decide env
                \<lparr> di_call = call,
                  di_tool = \<lparr> ti_name = gt_name tool, ti_version = gt_version tool,
                              ti_description = gt_description tool \<rparr>,
                  di_risk = risk, di_preview = preview, di_mode = mode \<rparr> w1;
              s1 = (if waited then audit Audit_waiting_permission (Some level) None None s else s);
              s2 = s1\<lparr>cs_world := w2\<rparr>
          in (case decision of
                Deny reason permanent \<Rightarrow>
                  (Some (failed_result call ''PERMISSION_DENIED'' reason
                     (denied_data level permanent) None),
                   audit Audit_denied (Some level) (Some reason) (Some False) s2)
              | Allow scope hash \<Rightarrow> (None, s2))
      else (None, s))"

text \<open>The execution step (lines 357 to 403).\<close>

definition cancelled_result :: "tool_call_request \<Rightarrow> tool_result" where
  "cancelled_result call =
     failed_result call ''CANCELLED'' ''The tool call was cancelled.'' (JObj []) None"

definition run_tool ::
    "'w gateway_env \<Rightarrow> 'w gateway \<Rightarrow> 'w gateway_tool \<Rightarrow> tool_call_request \<Rightarrow> json \<Rightarrow>
     risk_level \<Rightarrow> 'w call_state \<Rightarrow> tool_result \<times> 'w call_state" where
  "run_tool env gw tool call input level s =
     (let audit = audit_entry env call (gt_name tool) (gt_version tool) in
      if ge_aborted env (cs_world s) then
        (cancelled_result call,
         audit Audit_cancelled (Some level) (Some ''cancelled before start'') (Some False) s)
      else
        let s1 = audit Audit_running (Some level) None None s;
            (outcome, w) = gt_execute tool input call (cs_world s1);
            s2 = s1\<lparr>cs_world := w\<rparr>
        in case outcome of
             Inr output \<Rightarrow>
               (\<lparr> tr_callId = tc_callId call, tr_ok = True, tr_code = to_code output,
                  tr_summary = to_summary output,
                  tr_data = boundOutput (gw_maxOutputBytes gw) (to_data output),
                  tr_retryable = to_retryable output \<rparr>,
                audit Audit_succeeded (Some level) (Some (take 300 (to_summary output)))
                  (Some True) s2)
           | Inl e \<Rightarrow>
               if ge_aborted env (cs_world s2) then
                 (cancelled_result call,
                  audit Audit_cancelled (Some level) (Some ''cancelled'') (Some False) s2)
               else
                 let error = toProductError e ''TOOL_EXECUTION_FAILED'' in
                 (failed_result call (pe_code error) (pe_userMessage error)
                    (JObj [(''technical'', case pe_technicalMessage error of
                        None \<Rightarrow> JNull | Some t \<Rightarrow> JStr (take 500 t))])
                    (Some (pe_retryable error)),
                  audit Audit_failed (Some level) (Some (pe_code error)) (Some False) s2))"

text \<open>The steps before the permission check (lines 216 to 313) and the whole call.\<close>

definition executeCall ::
    "'w gateway_env \<Rightarrow> 'w gateway \<Rightarrow> tool_call_request \<Rightarrow> 'w call_state \<Rightarrow>
     tool_result \<times> 'w call_state" where
  "executeCall env gw call s =
     (case map_of (gw_tools gw) (tc_toolName call) of
        None \<Rightarrow>
          (failed_result call ''TOOL_UNKNOWN''
             (''The tool '' @ [CHR 0x22] @ tc_toolName call @ [CHR 0x22] @
              '' is not registered. Available tools are listed in your instructions.'')
             (JObj []) None,
           audit_entry env call (tc_toolName call) 0 Audit_failed None (Some ''unknown tool'')
             (Some False) s)
      | Some tool \<Rightarrow>
          let audit = audit_entry env call (gt_name tool) (gt_version tool) in
          (case gt_safeParse tool (tc_input call) of
             Inl issues \<Rightarrow>
               (failed_result call ''TOOL_INVALID_INPUT''
                  (''Invalid input for '' @ gt_name tool @ '': '' @ issue_text issues)
                  (JObj []) (Some True),
                audit Audit_failed None (Some ''schema violation'') (Some False) s)
           | Inr input \<Rightarrow>
               let (thrown, w) = (case gt_preflight tool of None \<Rightarrow> (None, cs_world s)
                      | Some f \<Rightarrow> f input call (cs_world s));
                   s1 = s\<lparr>cs_world := w\<rparr>
               in case thrown of
                    Some e \<Rightarrow>
                      let error = toProductError e ''TOOL_PREFLIGHT_FAILED'' in
                      (failed_result call (pe_code error) (pe_userMessage error) (JObj [])
                         (Some (pe_retryable error)),
                       audit Audit_failed None (Some (pe_code error)) (Some False) s1)
                  | None \<Rightarrow>
                      (case gt_risk tool input of
                         Inl e \<Rightarrow>
                           (failed_result call ''TOOL_RISK_FAILED''
                              (pe_userMessage (toProductError e ''TOOL_RISK_FAILED''))
                              (JObj []) None,
                            audit Audit_failed None (Some ''risk evaluation failed'') (Some False) s1)
                       | Inr risk \<Rightarrow>
                           let level = ra_level risk;
                               s2 = audit Audit_proposed (Some level) None None s1
                           in
                           if level = R4 then
                             (failed_result call ''PERMISSION_DENIED''
                                (''This action is forbidden by product policy: '' @
                                 join_with ''; '' (ra_reasons risk))
                                (denied_data level True) None,
                              audit Audit_denied (Some level) (Some ''forbidden (R4)'') (Some False) s2)
                           else
                             (case check_permission env gw tool call input risk s2 of
                                (Some refused, s3) \<Rightarrow> (refused, s3)
                              | (None, s3) \<Rightarrow> run_tool env gw tool call input level s3))))"

section \<open>Deciders\<close>

locale permission_decider =
  fixes decider :: "decide_input \<Rightarrow> 'w \<Rightarrow> (bool \<times> permission_decision) \<times> 'w"
    and good :: "'w \<Rightarrow> bool"
  assumes read_only_allowed: "ra_level (di_risk i) = R0 \<Longrightarrow> decider i w = ((False, Allow Allow_auto None), w)"
    and forbidden_denied: "ra_level (di_risk i) = R4 \<Longrightarrow> \<exists>r. decider i w = ((False, Deny r True), w)"
    and good_kept: "good w \<Longrightarrow> good (snd (decider i w))"
begin

lemma read_only_never_waits:
  "ra_level (di_risk i) = R0 \<Longrightarrow> \<not> fst (fst (decider i w))"
  by (simp add: read_only_allowed)

lemma forbidden_never_allowed:
  "ra_level (di_risk i) = R4 \<Longrightarrow> snd (fst (decider i w)) \<noteq> Allow s h"
  using forbidden_denied[of i w] by auto

end

definition readOnlyDecider :: "decide_input \<Rightarrow> 'w \<Rightarrow> (bool \<times> permission_decision) \<times> 'w" where
  "readOnlyDecider i w =
     (if ra_level (di_risk i) = R0 then ((False, Allow Allow_auto None), w)
      else ((False, Deny ''Only read-only tools are available in this mode.'' True), w))"

interpretation read_only: permission_decider readOnlyDecider "\<lambda>_. True"
  by unfold_locales (auto simp: readOnlyDecider_def)

text \<open>
  The engine as the decider of a run: the world holds the engine, the operations that reach it
  while each of the next calls waits, and the tools' own world. A call that is still waiting when
  they are over is released by \<open>cancelAll\<close>.
\<close>

type_synonym ('st, 'x) engine_world = "'st engine \<times> perm_op list list \<times> 'x"

definition engine_decider ::
    "perm_env \<Rightarrow> 'st permission_store \<Rightarrow> string \<Rightarrow> decide_input \<Rightarrow> ('st, 'x) engine_world \<Rightarrow>
     (bool \<times> permission_decision) \<times> ('st, 'x) engine_world" where
  "engine_decider env ps signal i w =
     (let (E, scripts, x) = w;
          (out, E1) = decide env ps (di_call i) (di_tool i) (di_risk i) (di_preview i) (di_mode i)
                        signal E
      in case out of
           Decided d \<Rightarrow> ((False, d), (E1, scripts, x))
         | Waiting p \<Rightarrow>
             let E2 = perm_run env ps (case scripts of [] \<Rightarrow> [] | ops # _ \<Rightarrow> ops) E1;
                 E3 = (if p \<in> fst ` set (eng_settled E2) then E2
                       else cancelAll env ps ''The run ended.'' E2)
             in ((True, the (map_of (eng_settled E3) p)), (E3, tl scripts, x)))"

lemma sql_cancel_ok:
  "engine_ok env pt_requests E \<Longrightarrow> engine_ok env pt_requests (cancelAll env SqlPermissionStore r E)"
  using sql.cancelAll_effect by blast

interpretation engine: permission_decider "engine_decider env SqlPermissionStore signal"
    "\<lambda>(E, _, _). engine_ok env pt_requests E"
  for env signal
proof
  fix i and w :: "(permission_tables, 'x) engine_world"
  obtain E scripts x where w: "w = (E, scripts, x)" by (cases w)
  show "ra_level (di_risk i) = R0 \<Longrightarrow>
      engine_decider env SqlPermissionStore signal i w = ((False, Allow Allow_auto None), w)"
    by (simp add: engine_decider_def decide_def w)
  show "ra_level (di_risk i) = R4 \<Longrightarrow>
      \<exists>r. engine_decider env SqlPermissionStore signal i w = ((False, Deny r True), w)"
    by (simp add: engine_decider_def decide_def w)
  let ?E1 = "snd (decide env SqlPermissionStore (di_call i) (di_tool i) (di_risk i) (di_preview i)
      (di_mode i) signal E)"
  assume "case w of (E, _, _) \<Rightarrow> engine_ok env pt_requests E"
  then have "engine_ok env pt_requests ?E1" by (simp add: w sql.ok_decide)
  then show "case snd (engine_decider env SqlPermissionStore signal i w) of
      (E, _, _) \<Rightarrow> engine_ok env pt_requests E"
    by (auto simp: engine_decider_def w Let_def split_beta sql_cancel_ok sql.ok_run
        split: decide_result.split)
qed

text \<open>The answer of a call that waited is in the engine: the promise is always resolved.\<close>

lemma engine_decider_answers:
  assumes ok: "engine_ok env pt_requests E"
    and out: "decide env SqlPermissionStore (di_call i) (di_tool i) (di_risk i) (di_preview i)
       (di_mode i) signal E = (Waiting p, E1)"
  shows "\<exists>d E3. engine_decider env SqlPermissionStore signal i (E, scripts, x) =
      ((True, d), (E3, tl scripts, x)) \<and> (p, d) \<in> set (eng_settled E3)"
proof -
  let ?ps = SqlPermissionStore
  let ?E2 = "perm_run env ?ps (case scripts of [] \<Rightarrow> [] | ops # _ \<Rightarrow> ops) E1"
  let ?E3 = "if p \<in> fst ` set (eng_settled ?E2) then ?E2 else cancelAll env ?ps ''The run ended.'' ?E2"
  have ok1: "engine_ok env pt_requests E1"
    using sql.ok_decide[OF ok] out by (metis snd_conv)
  have ok2: "engine_ok env pt_requests ?E2" by (rule sql.ok_run[OF ok1])
  have "p = eng_next E"
    using out by (auto simp: decide_def ask_reissue Let_def split_beta split: if_splits option.splits)
  moreover have "eng_next E1 = Suc (eng_next E)"
    using next_decide[of env ?ps "di_call i" "di_tool i" "di_risk i" "di_preview i" "di_mode i" signal E]
    by (simp add: out)
  ultimately have p: "p < eng_next ?E2"
    using next_run[of E1 env ?ps] by (metis lessI order_less_le_trans)
  have "p \<in> fst ` set (eng_settled ?E3)"
  proof (cases "p \<in> fst ` set (eng_settled ?E2)")
    case False
    let ?C = "cancelAll env ?ps ''The run ended.'' ?E2"
    note cancel = sql.cancelAll_effect[OF ok2, of "''The run ended.''"]
    then have "promises_ok [] ?C" by (simp add: engine_ok_def engine_inv_def)
    from promises_distinct(2)[OF this] cancel p have "p \<in> set (map fst (eng_settled ?C))" by simp
    with False show ?thesis by simp
  qed simp
  then have "map_of (eng_settled ?E3) p \<noteq> None" by (simp only: map_of_eq_None_iff not_not)
  then obtain d where d: "map_of (eng_settled ?E3) p = Some d" by blast
  then have "(p, d) \<in> set (eng_settled ?E3)" by (rule map_of_SomeD)
  moreover have "engine_decider env ?ps signal i (E, scripts, x) = ((True, d), (?E3, tl scripts, x))"
    using d by (simp add: engine_decider_def out Let_def)
  ultimately show ?thesis by blast
qed

section \<open>Audit trails\<close>

text \<open>The life cycles a call can be audited with; an optional wait follows the proposal.\<close>

definition waits :: "bool \<Rightarrow> audit_state list" where
  "waits b = (if b then [Audit_waiting_permission] else [])"

definition trail_shapes :: "audit_state list set" where
  "trail_shapes =
     {[Audit_failed]} \<union>
     {Audit_proposed # waits b @ rest | b rest.
        rest \<in> {[Audit_denied], [Audit_cancelled], [Audit_running, Audit_succeeded],
                [Audit_running, Audit_failed], [Audit_running, Audit_cancelled]}}"

definition well_audited :: "tool_call_request \<Rightarrow> tool_result \<Rightarrow> audit_record list \<Rightarrow> bool" where
  "well_audited call r trail \<longleftrightarrow>
     trail \<noteq> [] \<and> (tr_ok r \<longleftrightarrow> au_state (last trail) = Audit_succeeded) \<and>
     au_ok (last trail) = Some (tr_ok r) \<and> tr_callId r = tc_callId call \<and>
     filter (\<lambda>a. au_ok a \<noteq> None) (butlast trail) = [] \<and>
     set (map (\<lambda>a. (au_callId a, au_runId a, au_taskId a)) trail) =
       {(tc_callId call, tc_runId call, tc_taskId call)}"

definition call_record :: "tool_call_request \<Rightarrow> audit_record \<Rightarrow> bool" where
  "call_record call a \<longleftrightarrow> au_callId a = tc_callId call \<and> au_runId a = tc_runId call \<and>
     au_taskId a = tc_taskId call"

text \<open>A step that appends records of the call with these states and ok flags.\<close>

definition appends ::
    "tool_call_request \<Rightarrow> (audit_state \<times> bool option) list \<Rightarrow> 'w call_state \<Rightarrow> 'w call_state \<Rightarrow> bool"
where
  "appends call es s s' \<longleftrightarrow> (\<exists>trail. cs_audit s' = cs_audit s @ trail \<and>
     map (\<lambda>a. (au_state a, au_ok a)) trail = es \<and> (\<forall>a\<in>set trail. call_record call a))"

lemma appends_refl: "appends call [] s (s\<lparr>cs_world := w\<rparr>)"
  by (simp add: appends_def)

lemma appends_entry:
  "appends call es s s' \<Longrightarrow>
   appends call (es @ [(st, ok)]) s (audit_entry env call n v st r msg ok s')"
  by (auto simp: appends_def audit_entry_def split_beta Let_def call_record_def)

lemma appends_world: "appends call es s s' \<Longrightarrow> appends call es s (s'\<lparr>cs_world := w\<rparr>)"
  by (simp add: appends_def)

lemma appends_self: "appends call [] s s"
  by (simp add: appends_def)

lemma appends_trans:
  assumes "appends call es s s'" and "appends call fs s' s''"
  shows "appends call (es @ fs) s s''"
proof -
  from assms(1) obtain t where t: "cs_audit s' = cs_audit s @ t"
    "map (\<lambda>a. (au_state a, au_ok a)) t = es" "\<forall>a\<in>set t. call_record call a"
    unfolding appends_def by blast
  from assms(2) obtain u where u: "cs_audit s'' = cs_audit s' @ u"
    "map (\<lambda>a. (au_state a, au_ok a)) u = fs" "\<forall>a\<in>set u. call_record call a"
    unfolding appends_def by blast
  from t u show ?thesis unfolding appends_def by (intro exI[of _ "t @ u"]) auto
qed

lemma appends_first:
  "appends call [(st, ok)] s (audit_entry env call n v st r msg ok s)"
  using appends_entry[OF appends_self] by simp

abbreviation waiting_entries :: "bool \<Rightarrow> (audit_state \<times> bool option) list" where
  "waiting_entries b \<equiv> map (\<lambda>st. (st, None)) (waits b)"

lemma appends_waits_cases:
  "appends call (waiting_entries True) s
     ((audit_entry env call n v Audit_waiting_permission r msg None s)\<lparr>cs_world := w\<rparr>)"
  "appends call (waiting_entries False) s (s\<lparr>cs_world := w\<rparr>)"
  by (simp_all add: waits_def appends_world appends_first appends_refl)

lemma appends_waits:
  "appends call (waiting_entries b) s
     ((if b then audit_entry env call n v Audit_waiting_permission r msg None s else s)\<lparr>cs_world := w\<rparr>)"
  by (simp add: waits_def appends_world appends_first appends_refl)

text \<open>What the decider says about a call (the preview falls back to the tool's name).\<close>

definition call_mode :: "'w gateway \<Rightarrow> tool_call_request \<Rightarrow> agent_mode" where
  "call_mode gw call = (case gw_modeForTask gw of None \<Rightarrow> gw_mode gw | Some f \<Rightarrow> f (tc_taskId call))"

definition consult ::
    "'w gateway_env \<Rightarrow> 'w gateway \<Rightarrow> 'w gateway_tool \<Rightarrow> tool_call_request \<Rightarrow> json \<Rightarrow>
     risk_assessment \<Rightarrow> 'w \<Rightarrow> (bool \<times> permission_decision) \<times> 'w" where
  "consult env gw tool call input risk w =
     (let (previewed, w1) = gt_preview tool input w in
      ge_decide env
        \<lparr> di_call = call,
          di_tool = \<lparr> ti_name = gt_name tool, ti_version = gt_version tool,
                      ti_description = gt_description tool \<rparr>,
          di_risk = risk,
          di_preview = (case previewed of Inr p \<Rightarrow> p
            | Inl e \<Rightarrow> \<lparr> tp_summary = gt_name tool, tp_detail = None, tp_diff = JUndef,
                        tp_command = JUndef, tp_targets = None, tp_ruleKey = None \<rparr>),
          di_mode = call_mode gw call \<rparr> w1)"

definition ask_refuses :: "'w gateway \<Rightarrow> tool_call_request \<Rightarrow> risk_assessment \<Rightarrow> bool" where
  "ask_refuses gw call risk \<longleftrightarrow> call_mode gw call = Agent_ask \<and> ra_level risk \<noteq> R0"

abbreviation standard_tool :: "'w gateway_tool \<Rightarrow> bool" where
  "standard_tool tool \<equiv> gt_permissionPolicy tool \<noteq> Some Policy_auto_allow"

lemma check_permission_auto:
  "\<not> standard_tool tool \<Longrightarrow> check_permission env gw tool call input risk s = (None, s)"
  by (simp add: check_permission_def)

lemma check_permission_ask:
  "standard_tool tool \<Longrightarrow> ask_refuses gw call risk \<Longrightarrow>
   \<exists>r. check_permission env gw tool call input risk s =
     (Some r, audit_entry env call (gt_name tool) (gt_version tool) Audit_denied
        (Some (ra_level risk)) (Some ''ask mode is read-only'') (Some False) s) \<and>
     \<not> tr_ok r \<and> tr_callId r = tc_callId call \<and> tr_code r = ''PERMISSION_DENIED''"
  by (simp add: check_permission_def ask_refuses_def call_mode_def Let_def failed_result_def)

lemma check_permission_consult:
  assumes "standard_tool tool" and "\<not> ask_refuses gw call risk"
    and c: "consult env gw tool call input risk (cs_world s) = ((waited, decision), w)"
  defines "s2 \<equiv> (if waited then audit_entry env call (gt_name tool) (gt_version tool)
        Audit_waiting_permission (Some (ra_level risk)) None None s else s)\<lparr>cs_world := w\<rparr>"
  shows "decision = Allow sc h \<Longrightarrow> check_permission env gw tool call input risk s = (None, s2)"
    and "decision = Deny reason perm \<Longrightarrow> check_permission env gw tool call input risk s =
       (Some (failed_result call ''PERMISSION_DENIED'' reason (denied_data (ra_level risk) perm) None),
        audit_entry env call (gt_name tool) (gt_version tool) Audit_denied (Some (ra_level risk))
          (Some reason) (Some False) s2)"
  using assms(1,2) c unfolding s2_def
  by (auto simp: check_permission_def ask_refuses_def call_mode_def Let_def consult_def split_beta)

lemma check_permission_appends:
  assumes "check_permission env gw tool call input risk s = (refused, s')"
  shows "\<exists>b. appends call (waiting_entries b @
          (case refused of None \<Rightarrow> [] | Some r \<Rightarrow> [(Audit_denied, Some False)])) s s' \<and>
     (case refused of None \<Rightarrow> True | Some r \<Rightarrow> \<not> tr_ok r \<and> tr_callId r = tc_callId call)"
proof (cases "standard_tool tool")
  case False
  then have "refused = None" "s' = s" using check_permission_auto[OF False] assms by auto
  then show ?thesis by (intro exI[of _ False]) (simp add: waits_def appends_self)
next
  case std: True
  show ?thesis
  proof (cases "ask_refuses gw call risk")
    case True
    from check_permission_ask[OF std True, of env input s] assms show ?thesis
      by (intro exI[of _ False]) (auto simp: waits_def appends_first)
  next
    case False
    obtain waited decision w where
      c: "consult env gw tool call input risk (cs_world s) = ((waited, decision), w)"
      by (metis surj_pair)
    show ?thesis
    proof (cases decision)
      case (Allow sc h)
      from check_permission_consult(1)[OF std False c Allow] assms show ?thesis
        by (intro exI[of _ waited]) (auto simp: appends_waits)
    next
      case (Deny reason perm)
      from check_permission_consult(2)[OF std False c Deny] assms show ?thesis
        by (intro exI[of _ waited]) (auto simp: failed_result_def intro!: appends_entry appends_waits_cases)
    qed
  qed
qed

lemma run_tool_appends:
  assumes "run_tool env gw tool call input level s = (r, s')"
  shows "\<exists>es st. appends call (es @ [(st, Some (tr_ok r))]) s s' \<and>
     (es = [] \<and> st = Audit_cancelled \<and> ge_aborted env (cs_world s) \<or>
      es = [(Audit_running, None)] \<and> st \<in> {Audit_succeeded, Audit_failed, Audit_cancelled}) \<and>
     (tr_ok r \<longleftrightarrow> st = Audit_succeeded) \<and> tr_callId r = tc_callId call"
proof (cases "ge_aborted env (cs_world s)")
  case True
  with assms show ?thesis
    by (intro exI[of _ "[]"] exI[of _ Audit_cancelled])
      (auto simp: run_tool_def Let_def cancelled_result_def failed_result_def appends_first)
next
  case False
  let ?s1 = "audit_entry env call (gt_name tool) (gt_version tool) Audit_running (Some level) None None s"
  obtain out w where out: "gt_execute tool input call (cs_world ?s1) = (out, w)"
    by (cases "gt_execute tool input call (cs_world ?s1)")
  have entry: "appends call ([(Audit_running, None)] @ [(st, ok)]) s
      (audit_entry env call n v st rk msg ok (?s1\<lparr>cs_world := w\<rparr>))" for n v st rk msg ok
    by (rule appends_entry) (rule appends_world, rule appends_first)
  show ?thesis
  proof (cases out)
    case (Inr res)
    with assms False out show ?thesis
      by (intro exI[of _ "[(Audit_running, None)]"] exI[of _ Audit_succeeded])
        (auto simp: run_tool_def Let_def intro!: entry[simplified])
  next
    case (Inl e)
    show ?thesis
    proof (cases "ge_aborted env w")
      case True
      with assms False out Inl show ?thesis
        by (intro exI[of _ "[(Audit_running, None)]"] exI[of _ Audit_cancelled])
          (auto simp: run_tool_def Let_def cancelled_result_def failed_result_def intro!: entry[simplified])
    next
      case no: False
      with assms False out Inl show ?thesis
        by (intro exI[of _ "[(Audit_running, None)]"] exI[of _ Audit_failed])
          (auto simp: run_tool_def Let_def failed_result_def intro!: entry[simplified])
    qed
  qed
qed

text \<open>The three ways a call goes: it fails before a risk is known, it is refused as R4, or it
  reaches the permission step.\<close>

definition call_proposed ::
    "'w gateway_env \<Rightarrow> 'w gateway \<Rightarrow> tool_call_request \<Rightarrow> 'w call_state \<Rightarrow>
     ('w gateway_tool \<times> json \<times> risk_assessment \<times> 'w call_state) option" where
  "call_proposed env gw call s =
     (case map_of (gw_tools gw) (tc_toolName call) of
        None \<Rightarrow> None
      | Some tool \<Rightarrow>
          (case gt_safeParse tool (tc_input call) of
             Inl issues \<Rightarrow> None
           | Inr input \<Rightarrow>
               (case (case gt_preflight tool of None \<Rightarrow> (None, cs_world s)
                        | Some f \<Rightarrow> f input call (cs_world s)) of
                  (Some e, w) \<Rightarrow> None
                | (None, w) \<Rightarrow>
                    (case gt_risk tool input of
                       Inl e \<Rightarrow> None
                     | Inr risk \<Rightarrow>
                         Some (tool, input, risk,
                           audit_entry env call (gt_name tool) (gt_version tool) Audit_proposed
                             (Some (ra_level risk)) None None (s\<lparr>cs_world := w\<rparr>))))))"

lemma executeCall_early:
  assumes "call_proposed env gw call s = None" and "executeCall env gw call s = (r, s')"
  shows "appends call [(Audit_failed, Some False)] s s' \<and> \<not> tr_ok r \<and> tr_callId r = tc_callId call"
proof (cases "map_of (gw_tools gw) (tc_toolName call)")
  case None
  with assms show ?thesis by (auto simp: executeCall_def failed_result_def appends_first)
next
  case (Some tool)
  have entry: "appends call [(Audit_failed, Some False)] s
      (audit_entry env call n v Audit_failed r msg (Some False) (s\<lparr>cs_world := w\<rparr>))" for n v r msg w
    using appends_entry[OF appends_refl] by simp
  show ?thesis
  proof (cases "gt_safeParse tool (tc_input call)")
    case (Inl issues)
    with Some assms show ?thesis by (auto simp: executeCall_def failed_result_def Let_def appends_first)
  next
    case (Inr input)
    obtain thr w where pre: "(case gt_preflight tool of None \<Rightarrow> (None, cs_world s)
        | Some f \<Rightarrow> f input call (cs_world s)) = (thr, w)" by (metis surj_pair)
    show ?thesis
      using assms Some Inr pre
      by (cases thr; cases "gt_risk tool input")
        (auto simp: executeCall_def call_proposed_def failed_result_def Let_def intro!: entry)
  qed
qed

lemma executeCall_proposed:
  assumes "call_proposed env gw call s = Some (tool, input, risk, s2)"
  shows "executeCall env gw call s =
     (if ra_level risk = R4 then
        (failed_result call ''PERMISSION_DENIED''
           (''This action is forbidden by product policy: '' @ join_with ''; '' (ra_reasons risk))
           (denied_data R4 True) None,
         audit_entry env call (gt_name tool) (gt_version tool) Audit_denied (Some R4)
           (Some ''forbidden (R4)'') (Some False) s2)
      else
        (case check_permission env gw tool call input risk s2 of
           (Some refused, s3) \<Rightarrow> (refused, s3)
         | (None, s3) \<Rightarrow> run_tool env gw tool call input (ra_level risk) s3))"
  using assms
  by (auto simp: executeCall_def call_proposed_def Let_def split: option.splits sum.splits prod.splits)

lemma call_proposed_appends:
  "call_proposed env gw call s = Some (tool, input, risk, s2) \<Longrightarrow>
   appends call [(Audit_proposed, None)] s s2"
  using appends_entry[OF appends_refl]
  by (auto simp: call_proposed_def appends_first split: option.splits sum.splits prod.splits)

section \<open>What runs\<close>

text \<open>The gateway with the executors of its tools replaced.\<close>

definition with_execute ::
    "(string \<Rightarrow> json \<Rightarrow> tool_call_request \<Rightarrow> 'w \<Rightarrow> (thrown + tool_output) \<times> 'w) \<Rightarrow>
     'w gateway \<Rightarrow> 'w gateway" where
  "with_execute f gw = gw\<lparr>gw_tools := map (\<lambda>(n, t). (n, t\<lparr>gt_execute := f n\<rparr>)) (gw_tools gw)\<rparr>"

lemma map_of_with_execute:
  "map_of (gw_tools (with_execute f gw)) n =
     map_option (\<lambda>t. t\<lparr>gt_execute := f n\<rparr>) (map_of (gw_tools gw) n)"
proof -
  have "map_of (map (\<lambda>(n, t). (n, t\<lparr>gt_execute := f n\<rparr>)) xs) n =
      map_option (\<lambda>t. t\<lparr>gt_execute := f n\<rparr>) (map_of xs n)" for xs :: "(string \<times> 'a gateway_tool) list"
    by (induction xs) auto
  then show ?thesis by (simp add: with_execute_def)
qed

lemma tool_fields:
  "gt_name (tool\<lparr>gt_execute := g\<rparr>) = gt_name tool" "gt_version (tool\<lparr>gt_execute := g\<rparr>) = gt_version tool"
  "gt_description (tool\<lparr>gt_execute := g\<rparr>) = gt_description tool"
  "gt_permissionPolicy (tool\<lparr>gt_execute := g\<rparr>) = gt_permissionPolicy tool"
  "gt_safeParse (tool\<lparr>gt_execute := g\<rparr>) = gt_safeParse tool"
  "gt_preflight (tool\<lparr>gt_execute := g\<rparr>) = gt_preflight tool"
  "gt_risk (tool\<lparr>gt_execute := g\<rparr>) = gt_risk tool" "gt_preview (tool\<lparr>gt_execute := g\<rparr>) = gt_preview tool"
  by simp_all

lemma gateway_fields:
  "gw_modeForTask (gw\<lparr>gw_tools := ts\<rparr>) = gw_modeForTask gw" "gw_mode (gw\<lparr>gw_tools := ts\<rparr>) = gw_mode gw"
  "gw_maxOutputBytes (gw\<lparr>gw_tools := ts\<rparr>) = gw_maxOutputBytes gw"
  by simp_all

lemma check_permission_with_execute:
  "check_permission env (with_execute f gw) (tool\<lparr>gt_execute := g\<rparr>) call input risk s =
   check_permission env gw tool call input risk s"
  unfolding check_permission_def with_execute_def tool_fields gateway_fields by (rule refl)

lemma call_proposed_with_execute:
  "call_proposed env (with_execute f gw) call s =
   map_option (\<lambda>(tool, rest). (tool\<lparr>gt_execute := f (tc_toolName call)\<rparr>, rest)) (call_proposed env gw call s)"
  by (simp add: call_proposed_def map_of_with_execute split: option.split sum.split prod.split)

lemma executeCall_early_with_execute:
  assumes "call_proposed env gw call s = None"
  shows "executeCall env (with_execute f gw) call s = executeCall env gw call s"
  using assms
  by (simp add: executeCall_def call_proposed_def map_of_with_execute Let_def
      split: option.splits sum.splits prod.splits)

lemma run_tool_with_execute:
  assumes "ge_aborted env (cs_world s)"
  shows "run_tool env (with_execute f gw) (tool\<lparr>gt_execute := g\<rparr>) call input level s =
    run_tool env gw tool call input level s"
  using assms by (simp add: run_tool_def Let_def)

definition new_states :: "'w call_state \<Rightarrow> 'w call_state \<Rightarrow> audit_state set" where
  "new_states s s' = au_state ` set (drop (length (cs_audit s)) (cs_audit s'))"

lemma check_permission_passed:
  assumes "check_permission env gw tool call input risk s = (None, s')"
  shows "gt_permissionPolicy tool = Some Policy_auto_allow \<or>
    \<not> ask_refuses gw call risk \<and>
    (\<exists>sc h. snd (fst (consult env gw tool call input risk (cs_world s))) = Allow sc h)"
proof (cases "standard_tool tool")
  case std: True
  have ask: "\<not> ask_refuses gw call risk"
    using check_permission_ask[OF std, of gw call risk env input s] assms by auto
  obtain waited decision w where
    c: "consult env gw tool call input risk (cs_world s) = ((waited, decision), w)"
    by (metis surj_pair)
  show ?thesis
  proof (cases decision)
    case (Allow sc h)
    with c ask show ?thesis by simp
  next
    case (Deny reason perm)
    from check_permission_consult(2)[OF std ask c Deny] assms show ?thesis by simp
  qed
qed simp

lemma new_states_appends: "appends call es s s' \<Longrightarrow> new_states s s' = fst ` set es"
  by (auto simp: appends_def new_states_def image_image)

text \<open>The three ways a call ends: before a risk is known, refused, or in the execution step. In
  the first two, and when the run is already aborted, the executors do not matter.\<close>

lemma executeCall_cases:
  assumes exec: "executeCall env gw call s = (r, s')"
  obtains (early) "appends call [(Audit_failed, Some False)] s s'" "\<not> tr_ok r"
      "tr_callId r = tc_callId call" "\<And>f. executeCall env (with_execute f gw) call s = (r, s')"
  | (refused) b where
      "appends call ((Audit_proposed, None) # waiting_entries b @ [(Audit_denied, Some False)]) s s'"
      "\<not> tr_ok r" "tr_callId r = tc_callId call"
      "\<And>f. executeCall env (with_execute f gw) call s = (r, s')"
  | (run) tool input risk s2 s3 b where "call_proposed env gw call s = Some (tool, input, risk, s2)"
      "ra_level risk \<noteq> R4" "check_permission env gw tool call input risk s2 = (None, s3)"
      "appends call ((Audit_proposed, None) # waiting_entries b) s s3"
      "run_tool env gw tool call input (ra_level risk) s3 = (r, s')"
      "\<And>f. executeCall env (with_execute f gw) call s = run_tool env (with_execute f gw)
             (tool\<lparr>gt_execute := f (tc_toolName call)\<rparr>) call input (ra_level risk) s3"
proof (cases "call_proposed env gw call s")
  case None
  from executeCall_early[OF None exec] executeCall_early_with_execute[OF None] exec early
  show thesis by auto
next
  case (Some p)
  obtain tool input risk s2 where p: "call_proposed env gw call s = Some (tool, input, risk, s2)"
    using Some by (cases p) auto
  note proposed = call_proposed_appends[OF p]
  note result = executeCall_proposed[OF p, unfolded exec]
  have p': "call_proposed env (with_execute f gw) call s =
      Some (tool\<lparr>gt_execute := f (tc_toolName call)\<rparr>, input, risk, s2)" for f
    by (simp add: call_proposed_with_execute p)
  note result' = executeCall_proposed[OF p', unfolded check_permission_with_execute]
  obtain ref s3 where check: "check_permission env gw tool call input risk s2 = (ref, s3)"
    by (metis surj_pair)
  from check_permission_appends[OF check] obtain b where b:
    "appends call (waiting_entries b @
      (case ref of None \<Rightarrow> [] | Some r \<Rightarrow> [(Audit_denied, Some False)])) s2 s3"
    "case ref of None \<Rightarrow> True | Some r \<Rightarrow> \<not> tr_ok r \<and> tr_callId r = tc_callId call" by blast
  note trail = appends_trans[OF proposed b(1)]
  show thesis
  proof (cases "ra_level risk = R4")
    case True
    have "appends call ((Audit_proposed, None) # waiting_entries False @ [(Audit_denied, Some False)]) s s'"
      using True result appends_entry[OF proposed] by (auto simp: waits_def)
    then show thesis
      using True result result' by (intro refused[of False]) (auto simp: failed_result_def)
  next
    case no: False
    show thesis
    proof (cases ref)
      case None
      with no check b trail result result' p show thesis by (intro run[of tool input risk s2 s3 b]) auto
    next
      case (Some r')
      with no check b trail result result' show thesis by (intro refused[of b]) auto
    qed
  qed
qed

text \<open>The execution step, entered from a trail of proposed and waiting records.\<close>

lemma run_trail:
  assumes "appends call ((Audit_proposed, None) # waiting_entries b) s s3"
    and "run_tool env gw tool call input level s3 = (r, s')"
  shows "\<exists>es st. appends call (((Audit_proposed, None) # waiting_entries b @ es) @
        [(st, Some (tr_ok r))]) s s' \<and>
    (es = [] \<and> st = Audit_cancelled \<and> ge_aborted env (cs_world s3) \<or>
      es = [(Audit_running, None)] \<and> st \<in> {Audit_succeeded, Audit_failed, Audit_cancelled}) \<and>
    (tr_ok r \<longleftrightarrow> st = Audit_succeeded) \<and> tr_callId r = tc_callId call"
proof -
  obtain es st where es: "appends call (es @ [(st, Some (tr_ok r))]) s3 s'"
    "(es = [] \<and> st = Audit_cancelled \<and> ge_aborted env (cs_world s3) \<or>
      es = [(Audit_running, None)] \<and> st \<in> {Audit_succeeded, Audit_failed, Audit_cancelled}) \<and>
     (tr_ok r \<longleftrightarrow> st = Audit_succeeded) \<and> tr_callId r = tc_callId call"
    using run_tool_appends[OF assms(2)] by blast
  from appends_trans[OF assms(1) es(1)] es(2) show ?thesis
    by (intro exI[of _ es] exI[of _ st]) simp
qed

lemma trail_well_audited:
  assumes "appends call (es @ [(st, Some (tr_ok r))]) s s'" and "tr_ok r \<longleftrightarrow> st = Audit_succeeded"
    and "tr_callId r = tc_callId call" and none: "set (map snd es) \<subseteq> {None}"
  shows "\<exists>t. cs_audit s' = cs_audit s @ t \<and> map au_state t = map fst es @ [st] \<and> well_audited call r t"
proof -
  from assms(1) obtain u a where ua: "cs_audit s' = cs_audit s @ u @ [a]"
    "map (\<lambda>a. (au_state a, au_ok a)) u = es" "au_state a = st" "au_ok a = Some (tr_ok r)"
    "\<forall>a\<in>set (u @ [a]). call_record call a"
    by (auto simp: appends_def map_eq_append_conv)
  have "map au_state (u @ [a]) = map fst es @ [st]" using ua by (auto simp: comp_def)
  moreover have "filter (\<lambda>a. au_ok a \<noteq> None) u = []"
    using none ua(2) by (fastforce simp: filter_empty_conv)
  moreover have "set (map (\<lambda>a. (au_callId a, au_runId a, au_taskId a)) (u @ [a])) =
      {(tc_callId call, tc_runId call, tc_taskId call)}"
    using ua(5) by (auto simp: call_record_def)
  ultimately show ?thesis
    using assms(2,3) ua by (intro exI[of _ "u @ [a]"]) (simp add: well_audited_def)
qed

text \<open>C13: Every tool call leaves exactly one complete audit trail: the records appended by
  \<open>executeCall\<close> carry the call's identifiers and follow one of the life cycles (a failure before
  the proposal; or proposed, possibly waiting, then denied, cancelled before the start, or
  running and then succeeded, failed or cancelled), only the last record has an outcome, and it
  agrees with the returned result.\<close>

theorem gateway_audit_trail:
  "let (r, s') = executeCall env gw call s;
       trail = drop (length (cs_audit s)) (cs_audit s')
   in take (length (cs_audit s)) (cs_audit s') = cs_audit s \<and>
      map au_state trail \<in> trail_shapes \<and> well_audited call r trail"
proof -
  obtain r s' where exec: "executeCall env gw call s = (r, s')" by (cases "executeCall env gw call s")
  have fin: ?thesis if "appends call (es @ [(st, Some (tr_ok r))]) s s'"
    "tr_ok r \<longleftrightarrow> st = Audit_succeeded" "tr_callId r = tc_callId call"
    "set (map snd es) \<subseteq> {None}" "map fst es @ [st] \<in> trail_shapes" for es st
    using trail_well_audited[OF that(1-4)] that(5) by (auto simp: exec)
  from exec show ?thesis
  proof (cases rule: executeCall_cases)
    case early
    then show ?thesis by (intro fin[of "[]" Audit_failed]) (auto simp: trail_shapes_def)
  next
    case (refused b)
    then show ?thesis
      by (intro fin[of "(Audit_proposed, None) # waiting_entries b" Audit_denied])
        (auto simp: trail_shapes_def comp_def intro!: exI[of _ b])
  next
    case (run tool input risk s2 s3 b)
    from run_trail[OF run(4,5)] obtain es st where
      "appends call (((Audit_proposed, None) # waiting_entries b @ es) @ [(st, Some (tr_ok r))]) s s'"
      "es = [] \<and> st = Audit_cancelled \<and> ge_aborted env (cs_world s3) \<or>
       es = [(Audit_running, None)] \<and> st \<in> {Audit_succeeded, Audit_failed, Audit_cancelled}"
      "tr_ok r \<longleftrightarrow> st = Audit_succeeded" "tr_callId r = tc_callId call" by blast
    then show ?thesis
      by (intro fin[of "(Audit_proposed, None) # waiting_entries b @ es" st])
        (auto simp: trail_shapes_def comp_def intro!: exI[of _ b])
  qed
qed

text \<open>C6: Nothing runs unpermitted. If the trail of a call shows \<open>RUNNING\<close>, the tool was
  registered, its input accepted, the risk was not R4, and the tool was either auto-allow or the
  mode admitted the risk and the decider allowed this call. In every other case the tool's
  executor is not consulted: with any other executors in the gateway, the result, the world and
  the audit log are the same.\<close>

theorem gateway_runs_only_permitted:
  "let (r, s') = executeCall env gw call s in
   if Audit_running \<in> new_states s s'
   then (\<exists>tool input risk s2. call_proposed env gw call s = Some (tool, input, risk, s2) \<and>
           ra_level risk \<noteq> R4 \<and>
           (gt_permissionPolicy tool = Some Policy_auto_allow \<or>
            \<not> ask_refuses gw call risk \<and>
            (\<exists>sc h. snd (fst (consult env gw tool call input risk (cs_world s2))) = Allow sc h)))
   else executeCall env (with_execute f gw) call s = (r, s')"
proof -
  obtain r s' where exec: "executeCall env gw call s = (r, s')" by (cases "executeCall env gw call s")
  have waits: "Audit_running \<notin> set (waits b)" for b by (simp add: waits_def)
  from exec show ?thesis
  proof (cases rule: executeCall_cases)
    case early
    then show ?thesis by (auto simp: exec new_states_appends)
  next
    case (refused b)
    then show ?thesis using waits by (auto simp: exec new_states_appends image_image)
  next
    case (run tool input risk s2 s3 b)
    from run_trail[OF run(4,5)] obtain es st where
      es: "appends call (((Audit_proposed, None) # waiting_entries b @ es) @ [(st, Some (tr_ok r))]) s s'"
      "es = [] \<and> st = Audit_cancelled \<and> ge_aborted env (cs_world s3) \<or> es = [(Audit_running, None)]"
      by blast
    show ?thesis
    proof (cases "es = []")
      case True
      with es(2) have "st = Audit_cancelled" and aborted: "ge_aborted env (cs_world s3)" by auto
      with es(1) True have "Audit_running \<notin> new_states s s'"
        using waits by (auto simp: new_states_appends image_image)
      with run(5,6) run_tool_with_execute[OF aborted] show ?thesis by (simp add: exec)
    next
      case False
      with es have "Audit_running \<in> new_states s s'" by (simp add: new_states_appends[OF es(1)])
      with check_permission_passed[OF run(3)] run(1,2) show ?thesis by (auto simp: exec)
    qed
  qed
qed

section \<open>The registry stays well-formed\<close>

datatype 'w registry_op = Register "'w gateway_tool" | Unregister string

fun registry_step :: "'w registry_op \<Rightarrow> 'w gateway \<Rightarrow> 'w gateway" where
  "registry_step (Register tool) gw = (case register_tool tool gw of Inl e \<Rightarrow> gw | Inr gw' \<Rightarrow> gw')"
| "registry_step (Unregister name) gw = unregister_tool name gw"

definition registry_ok :: "'w gateway \<Rightarrow> bool" where
  "registry_ok gw \<longleftrightarrow> distinct (map fst (gw_tools gw)) \<and>
     (\<forall>(n, t)\<in>set (gw_tools gw). n = gt_name t \<and>
        (gt_permissionPolicy t = Some Policy_auto_allow \<longrightarrow> auto_allow_name n))"

lemma set_update_subset: "set (AList.update k v xs) \<subseteq> insert (k, v) (set xs)"
  by (induction xs) auto

lemma set_delete_sub: "set (AList.delete k xs) \<subseteq> set xs"
  by (auto simp: AList.delete_eq)

lemma registry_step_ok: "registry_ok gw \<Longrightarrow> registry_ok (registry_step op gw)"
  using set_update_subset set_delete_sub
  by (cases op; fastforce simp: registry_ok_def register_tool_def unregister_tool_def
      auto_allow_name_def distinct_update AList.distinct_delete)

lemma registry_run_ok: "registry_ok gw \<Longrightarrow> registry_ok (fold registry_step ops gw)"
  by (induction ops arbitrary: gw) (simp_all add: registry_step_ok)

text \<open>C14: The auto-allow policy is reserved: after any registrations and removals, every tool that
  skips the permission step has a name in \<open>terminal.*\<close> or \<open>orchestration.*\<close>, each tool is found
  under its own name, and the catalogue of ask mode lists only such tools and tools whose
  minimal risk is R0.\<close>

theorem gateway_auto_allow_reserved:
  "let gw = fold registry_step ops \<lparr> gw_tools = [], gw_mode = m, gw_modeForTask = f,
                                      gw_maxOutputBytes = limit \<rparr> in
   filter (\<lambda>(n, t). \<not> (n = gt_name t \<and>
       (if gt_permissionPolicy t = Some Policy_auto_allow then auto_allow_name n else True)))
     (gw_tools gw) = [] \<and>
   set (map ce_name (gw_catalog Agent_ask gw)) =
     {n. \<exists>t. map_of (gw_tools gw) n = Some t \<and>
        (safeMinimalRisk t = R0 \<or> gt_permissionPolicy t = Some Policy_auto_allow)}"
proof -
  let ?gw = "fold registry_step ops \<lparr> gw_tools = [], gw_mode = m, gw_modeForTask = f,
                                      gw_maxOutputBytes = limit \<rparr>"
  have ok: "registry_ok ?gw" by (rule registry_run_ok) (simp add: registry_ok_def)
  then have "filter (\<lambda>(n, t). \<not> (n = gt_name t \<and>
       (if gt_permissionPolicy t = Some Policy_auto_allow then auto_allow_name n else True)))
     (gw_tools ?gw) = []"
    by (auto simp: registry_ok_def filter_empty_conv)
  moreover have "n \<in> set (map ce_name (gw_catalog Agent_ask ?gw)) \<longleftrightarrow>
      (\<exists>t. map_of (gw_tools ?gw) n = Some t \<and>
        (safeMinimalRisk t = R0 \<or> gt_permissionPolicy t = Some Policy_auto_allow))" for n
  proof
    assume "n \<in> set (map ce_name (gw_catalog Agent_ask ?gw))"
    then obtain k t where t: "(k, t) \<in> set (gw_tools ?gw)" "gt_name t = n"
      "safeMinimalRisk t = R0 \<or> gt_permissionPolicy t = Some Policy_auto_allow"
      by (auto simp: gw_catalog_def)
    with ok have "map_of (gw_tools ?gw) n = Some t"
      by (auto simp: registry_ok_def)
    with t(3) show "\<exists>t. map_of (gw_tools ?gw) n = Some t \<and>
        (safeMinimalRisk t = R0 \<or> gt_permissionPolicy t = Some Policy_auto_allow)" by blast
  next
    assume "\<exists>t. map_of (gw_tools ?gw) n = Some t \<and>
        (safeMinimalRisk t = R0 \<or> gt_permissionPolicy t = Some Policy_auto_allow)"
    then obtain t where t: "(n, t) \<in> set (gw_tools ?gw)"
      "safeMinimalRisk t = R0 \<or> gt_permissionPolicy t = Some Policy_auto_allow"
      by (auto dest: map_of_SomeD)
    with ok have "gt_name t = n" by (auto simp: registry_ok_def)
    with t show "n \<in> set (map ce_name (gw_catalog Agent_ask ?gw))"
      by (auto simp: gw_catalog_def image_iff intro!: bexI[of _ "(n, t)"])
  qed
  ultimately show ?thesis unfolding Let_def by blast
qed

section \<open>The size of outputs\<close>

definition fields_size :: "(string \<times> json) list \<Rightarrow> nat" where
  "fields_size fs = sum_list (map length (stringify_fields fs)) + length (stringify_fields fs)"

lemma length_join: "length (join_with '','' ls) = sum_list (map length ls) + (length ls - 1)"
  by (induction "'',''" ls rule: join_with.induct) simp_all

lemma length_object: "length (stringify (JObj fs)) \<le> fields_size fs + 2"
  "fs \<noteq> [] \<Longrightarrow> stringify_fields fs \<noteq> [] \<Longrightarrow> length (stringify (JObj fs)) = fields_size fs + 1"
  by (cases "stringify_fields fs"; simp add: fields_size_def length_join)+

lemma update_content_size:
  "map_of fs k = Some (JStr c) \<Longrightarrow>
   fields_size (AList.update k (JStr c') fs) + length (json_quote c) =
   fields_size fs + length (json_quote c')"
  by (induction fs) (auto simp: fields_size_def)

lemma stringify_nonempty: "stringify v \<noteq> []"
  using stringify_opens[of v] by auto

lemma update_size:
  "fields_size (AList.update k (JBool True) fs) \<le> fields_size fs + length (json_quote k) + 6"
proof (induction fs)
  case Nil
  then show ?case by (simp add: fields_size_def)
next
  case (Cons p fs)
  have "stringify (snd p) \<noteq> []" by (rule stringify_nonempty)
  with Cons show ?case by (cases p) (auto simp: fields_size_def)
qed

lemma quoted_prefix_size:
  "length (json_quote (take n c)) + length c \<le> length (json_quote c) + length (take n c)"
proof (induction c arbitrary: n)
  case Nil
  then show ?case by simp
next
  case (Cons a c)
  have esc: "1 \<le> length (escape_char a)" using escape_char_nonempty[of a] by (cases "escape_char a") auto
  show ?case
  proof (cases n)
    case 0
    have "length c \<le> length (concat (map escape_char c))"
      using Cons[of 0] by (simp add: json_quote_def)
    with 0 esc show ?thesis by (simp add: json_quote_def)
  next
    case (Suc m)
    with Cons[of m] esc show ?thesis by (simp add: json_quote_def)
  qed
qed

lemma update_fields_nonempty: "stringify_fields (AList.update k (JBool True) fs) \<noteq> []"
  by (induction fs) (auto split: if_splits)

lemma keep_size:
  "l \<le> T \<Longrightarrow> nat (max 0 (int limit - (int T - int l))) = limit - (T - l)"
  by arith



text \<open>The proviso is needed: an oversized member beside \<open>content\<close> is returned whole, so no
  bound holds for objects that carry one.\<close>

lemma bound_output_gap:
  "\<exists>fs. map_of fs ''content'' = Some (JStr []) \<and>
     limit + n < length (stringify (boundOutput limit (JObj fs)))"
proof -
  let ?fs = "[(''content'', JStr []), (''log'', JStr (replicate (limit + n) CHR ''x''))]"
  have "length (json_quote (replicate m CHR ''x'')) = m + 2" for m
    by (induction m) (simp_all add: json_quote_def escape_char_def)
  then have "limit + n < length (stringify (boundOutput limit (JObj ?fs)))"
    by (simp add: boundOutput_def Let_def json_spread_def)
  then show ?thesis by (intro exI[of _ ?fs]) simp
qed

end
