(* ===== verification/Fabric_Tables.thy ===== *)
theory Fabric_Tables
  imports Dependency_Graph Host_Services
begin

text \<open>
  The Mission store of \<open>packages/persistence\<close>: its tables and its transactions. One record per
  row interface of \<open>mission-repository.ts\<close> (its domain object has the same members, so the
  \<open>...FromRow\<close> functions are not modelled separately), one record \<open>fab\<close> for the database, and
  the constraints the schema of \<open>migrations.ts\<close> declares on each table.

  \<^item> A JSON column holds the value it encodes. A timestamp column holds the milliseconds its ISO
    text denotes, so the comparisons of the SQL text are those of numbers; a timestamp inside a
    JSON payload is that number.
  \<^item> \<open>workspaces\<close> and \<open>session_tasks\<close> are the identifiers of the two tables outside the fabric
    that Missions refer to.
  \<^item> An operation is a value of type \<open>'a tx\<close>: it fails with an error or returns a value and the
    next database. \<open>SqlDatabase.transaction\<close> rolls back on a throw and joins an outer
    transaction, so a failed operation leaves the database its caller had.
\<close>

section \<open>Rows\<close>

datatype control_scope = Scope_mission_wide | Scope_hierarchical

record execution_policy =
  ep_controlScope :: control_scope
  ep_workspaceRoot :: string
  ep_environment :: "(string \<times> string) list"
  ep_preferredRuntime :: "string option"
  ep_preferredModel :: "string option"
  ep_maxConcurrentAgents :: "int option"
  ep_maxTotalAgents :: "int option"

definition defaultMissionExecutionPolicy :: "string \<Rightarrow> execution_policy" where
  "defaultMissionExecutionPolicy workspaceRoot =
     \<lparr> ep_controlScope = Scope_hierarchical, ep_workspaceRoot = workspaceRoot,
       ep_environment = [], ep_preferredRuntime = None, ep_preferredModel = None,
       ep_maxConcurrentAgents = None, ep_maxTotalAgents = None \<rparr>"

record mission_row =
  ms_id :: string
  ms_workspace_id :: string
  ms_origin_task :: "string option"
  ms_title :: string
  ms_goal :: string
  ms_acceptance :: "string list"
  ms_policy :: execution_policy
  ms_state :: mission_state
  ms_lead :: "string option"
  ms_version :: nat
  ms_created_at :: int
  ms_updated_at :: int
  ms_completed_at :: "int option"
  ms_deleted_at :: "int option"

record task_row =
  tk_id :: string
  tk_mission :: string
  tk_parent :: "string option"
  tk_created_by :: "string option"
  tk_title :: string
  tk_goal :: string
  tk_acceptance :: "string list"
  tk_expected_artifacts :: "string list"
  tk_work_mode :: assignment_work_mode
  tk_write_scope :: "string list option"
  tk_state :: mission_task_state
  tk_result :: "json option"
  tk_version :: nat
  tk_created_at :: int
  tk_updated_at :: int
  tk_completed_at :: "int option"

record dependency_row =
  dp_task :: string
  dp_on :: string
  dp_created_at :: int

record principal_row =
  pr_id :: string
  pr_kind :: principal_kind
  pr_provider :: "string option"
  pr_external :: "string option"
  pr_name :: string
  pr_state :: principal_state
  pr_created_at :: int
  pr_last_seen_at :: "int option"

record assignment_row =
  as_id :: string
  as_mission :: string
  as_task :: string
  as_supervisor :: "string option"
  as_assignee :: string
  as_active_attempt :: "string option"
  as_state :: assignment_state
  as_created_at :: int
  as_updated_at :: int
  as_completed_at :: "int option"

record attempt_row =
  at_id :: string
  at_assignment :: string
  at_ordinal :: nat
  at_runtime :: string
  at_model :: "string option"
  at_session :: "string option"
  at_terminal :: "string option"
  at_state :: attempt_state
  at_lease :: "int option"
  at_heartbeat :: "int option"
  at_started_at :: "int option"
  at_ended_at :: "int option"
  at_failure_code :: "string option"
  at_failure :: "json option"
  at_result :: "json option"

record message_row =
  mg_id :: string
  mg_mission :: string
  mg_conversation :: "string option"
  mg_request :: "string option"
  mg_from :: "string option"
  mg_to :: "string option"
  mg_thread :: "string option"
  mg_attempt :: "string option"
  mg_type :: message_type
  mg_priority :: message_priority
  mg_subject :: string
  mg_body :: string
  mg_payload :: "json option"
  mg_sequence :: nat
  mg_created_at :: int
  mg_delivered_at :: "int option"
  mg_read_at :: "int option"
  mg_suppressed_at :: "int option"
  mg_suppression_reason :: "string option"

record event_row =
  ev_id :: string
  ev_mission :: string
  ev_sequence :: nat
  ev_type :: string
  ev_actor :: "string option"
  ev_assignment :: "string option"
  ev_attempt :: "string option"
  ev_payload :: json
  ev_created_at :: int

datatype outbox_state = Outbox_PENDING | Outbox_PROCESSING | Outbox_COMPLETED | Outbox_FAILED

datatype outbox_operation = Start_runtime | Cancel_runtime

record outbox_row =
  ob_id :: string
  ob_mission :: string
  ob_operation :: outbox_operation
  ob_aggregate :: string
  ob_key :: string
  ob_payload :: json
  ob_state :: outbox_state
  ob_attempts :: nat
  ob_available_at :: int
  ob_last_error :: "string option"
  ob_created_at :: int
  ob_completed_at :: "int option"

record artifact_row =
  af_id :: string
  af_mission :: string
  af_assignment :: string
  af_attempt :: "string option"
  af_kind :: string
  af_label :: string
  af_reference :: json
  af_created_at :: int

datatype runtime_transport = Transport_native | Transport_acp | Transport_terminal

record runtime_session_row =
  rs_id :: string
  rs_attempt :: string
  rs_provider :: string
  rs_transport :: runtime_transport
  rs_external :: "string option"
  rs_process_key :: "string option"
  rs_state :: runtime_session_state
  rs_cwd :: string
  rs_capabilities :: json
  rs_last_event_at :: "int option"
  rs_created_at :: int
  rs_updated_at :: int

record runtime_event_row =
  re_id :: string
  re_session :: string
  re_attempt :: string
  re_sequence :: nat
  re_kind :: string
  re_payload :: json
  re_created_at :: int

record delivery_row =
  dl_message :: string
  dl_assignment :: string
  dl_state :: message_delivery_state
  dl_attempts :: nat
  dl_last_error :: "string option"
  dl_delivered_at :: "int option"
  dl_observed_at :: "int option"
  dl_updated_at :: int

record continuation_row =
  cn_id :: string
  cn_mission :: string
  cn_owner :: string
  cn_attempt :: string
  cn_mode :: continuation_mode
  cn_state :: continuation_state
  cn_reason :: string
  cn_cursor :: nat
  cn_deadline :: "int option"
  cn_key :: string
  cn_ready_at :: "int option"
  cn_delivered_at :: "int option"
  cn_consumed_at :: "int option"
  cn_cancelled_at :: "int option"
  cn_created_at :: int
  cn_updated_at :: int

datatype target_kind = Target_assignment_terminal | Target_message

record target_row =
  ct_id :: string
  ct_continuation :: string
  ct_kind :: target_kind
  ct_target :: "string option"
  ct_from :: "string option"
  ct_types :: "message_type list option"
  ct_thread :: "string option"
  ct_terminal_states :: "assignment_state list option"
  ct_satisfied_by :: "string option"
  ct_satisfied_payload :: "json option"
  ct_satisfied_at :: "int option"
  ct_created_at :: int

record intent_row =
  ri_id :: string
  ri_continuation :: string
  ri_mission :: string
  ri_owner :: string
  ri_attempt :: string
  ri_session :: "string option"
  ri_state :: resume_intent_state
  ri_key :: string
  ri_payload :: "(string \<times> json) list"
  ri_attempts :: nat
  ri_available_at :: int
  ri_last_error :: "string option"
  ri_delivered_at :: "int option"
  ri_acknowledged_at :: "int option"
  ri_created_at :: int
  ri_updated_at :: int

datatype conversation_state = Conversation_OPEN | Conversation_ARCHIVED

record conversation_row =
  cv_id :: string
  cv_mission :: string
  cv_topic :: string
  cv_created_by :: "string option"
  cv_state :: conversation_state
  cv_created_at :: int
  cv_updated_at :: int

record participant_row =
  cp_conversation :: string
  cp_principal :: string
  cp_assignment :: "string option"
  cp_joined_at :: int

record action_option =
  ao_id :: string
  ao_label :: string
  ao_description :: "string option"
  ao_recommended :: "bool option"
  ao_danger :: "bool option"

record request_row =
  rq_id :: string
  rq_mission :: string
  rq_conversation :: string
  rq_task :: "string option"
  rq_creator :: string
  rq_creator_assignment :: "string option"
  rq_assignee :: string
  rq_assignee_assignment :: "string option"
  rq_kind :: action_request_kind
  rq_title :: string
  rq_context :: string
  rq_response_type :: action_response_type
  rq_options :: "action_option list"
  rq_recommendation :: "string option"
  rq_impact :: "string option"
  rq_priority :: message_priority
  rq_blocking_scope :: blocking_scope
  rq_status :: action_request_status
  rq_opening_message :: "string option"
  rq_key :: string
  rq_due_at :: "int option"
  rq_resolved_at :: "int option"
  rq_created_at :: int
  rq_updated_at :: int

record resolution_row =
  rz_id :: string
  rz_request :: string
  rz_resolver :: string
  rz_resolver_assignment :: "string option"
  rz_outcome :: string
  rz_body :: string
  rz_payload :: "json option"
  rz_rationale :: "string option"
  rz_key :: string
  rz_created_at :: int

record incident_row =
  ic_id :: string
  ic_mission :: string
  ic_assignment :: "string option"
  ic_attempt :: "string option"
  ic_kind :: string
  ic_severity :: incident_severity
  ic_state :: incident_state
  ic_summary :: string
  ic_detail :: "json option"
  ic_automatic_attempts :: nat
  ic_request :: "string option"
  ic_created_at :: int
  ic_updated_at :: int
  ic_resolved_at :: "int option"

section \<open>The database\<close>

record fab =
  missions :: "mission_row list"
  tasks :: "task_row list"
  dependencies :: "dependency_row list"
  principals :: "principal_row list"
  assignments :: "assignment_row list"
  attempts :: "attempt_row list"
  messages :: "message_row list"
  message_seq :: nat
  events :: "event_row list"
  outbox :: "outbox_row list"
  artifacts :: "artifact_row list"
  runtime_sessions :: "runtime_session_row list"
  runtime_events :: "runtime_event_row list"
  deliveries :: "delivery_row list"
  continuations :: "continuation_row list"
  targets :: "target_row list"
  intents :: "intent_row list"
  conversations :: "conversation_row list"
  participants :: "participant_row list"
  requests :: "request_row list"
  resolutions :: "resolution_row list"
  incidents :: "incident_row list"
  workspaces :: "string list"
  session_tasks :: "string list"
  fab_host :: host

end
