(* ===== verification/Fabric_Transactions.thy ===== *)
theory Fabric_Transactions
  imports Fabric_Tables
begin

text \<open>
  Transactions over the Mission store: sequencing, the statements (\<open>upd\<close>, \<open>upd_count\<close>,
  \<open>insert_row\<close>), the schema constraints each \<open>INSERT\<close> is checked against, and a logic for
  relations between the database before and after an operation (locale \<open>tx_relation\<close>), with
  which the component theories prove their invariants.
\<close>

section \<open>Operations\<close>

datatype fab_error =
    Fab_failure string
  | Sql_unique string
  | Sql_foreign_key string

type_synonym 'a tx = "fab \<Rightarrow> fab_error + ('a \<times> fab)"

definition ret :: "'a \<Rightarrow> 'a tx" where
  "ret x s = Inr (x, s)"

definition throw :: "fab_error \<Rightarrow> 'a tx" where
  "throw e s = Inl e"

definition bnd :: "'a tx \<Rightarrow> ('a \<Rightarrow> 'b tx) \<Rightarrow> 'b tx" where
  "bnd m f s = and_then (m s) (\<lambda>(x, s'). f x s')"

definition thn :: "unit tx \<Rightarrow> 'b tx \<Rightarrow> 'b tx" where
  "thn m n = bnd m (\<lambda>_. n)"

definition failure :: "string \<Rightarrow> 'a tx" where
  "failure code = throw (Fab_failure code)"

text \<open>\<open>if (c) throw this.failure(code, ...)\<close>.\<close>

definition throw_if :: "bool \<Rightarrow> string \<Rightarrow> unit tx" where
  "throw_if c code = (if c then failure code else ret ())"

definition when_tx :: "bool \<Rightarrow> unit tx \<Rightarrow> unit tx" where
  "when_tx c m = (if c then m else ret ())"

definition reads :: "(fab \<Rightarrow> 'a) \<Rightarrow> 'a tx" where
  "reads f s = Inr (f s, s)"

definition change :: "(fab \<Rightarrow> fab) \<Rightarrow> unit tx" where
  "change f s = Inr ((), f s)"

definition require_row :: "string \<Rightarrow> (fab \<Rightarrow> 'a option) \<Rightarrow> 'a tx" where
  "require_row code f s = (case f s of None \<Rightarrow> Inl (Fab_failure code) | Some r \<Rightarrow> Inr (r, s))"

fun each_tx :: "('x \<Rightarrow> unit tx) \<Rightarrow> 'x list \<Rightarrow> unit tx" where
  "each_tx f [] = ret ()"
| "each_tx f (x # xs) = thn (f x) (each_tx f xs)"

fun collect_tx :: "('x \<Rightarrow> 'y tx) \<Rightarrow> 'x list \<Rightarrow> 'y list tx" where
  "collect_tx f [] = ret []"
| "collect_tx f (x # xs) = bnd (f x) (\<lambda>y. bnd (collect_tx f xs) (\<lambda>ys. ret (y # ys)))"

definition fresh :: "string \<Rightarrow> string tx" where
  "fresh prefix s = (let (i, h) = newId prefix (fab_host s) in Inr (i, s\<lparr>fab_host := h\<rparr>))"

definition now :: "int tx" where
  "now s = (let (t, h) = timestamp (fab_host s) in Inr (t, s\<lparr>fab_host := h\<rparr>))"

text \<open>\<open>x ? ... : ...\<close> on a nullable text: null and the empty text are false.\<close>

definition truthy :: "string option \<Rightarrow> bool" where
  "truthy v \<longleftrightarrow> (case v of None \<Rightarrow> False | Some t \<Rightarrow> t \<noteq> [])"

definition upd ::
    "(('r list \<Rightarrow> 'r list) \<Rightarrow> fab \<Rightarrow> fab) \<Rightarrow> ('r \<Rightarrow> bool) \<Rightarrow> ('r \<Rightarrow> 'r) \<Rightarrow> unit tx" where
  "upd tab P f = change (tab (update_where P f))"

definition upd_count ::
    "(fab \<Rightarrow> 'r list) \<Rightarrow> (('r list \<Rightarrow> 'r list) \<Rightarrow> fab \<Rightarrow> fab) \<Rightarrow> ('r \<Rightarrow> bool) \<Rightarrow> ('r \<Rightarrow> 'r) \<Rightarrow> nat tx" where
  "upd_count sel tab P f = bnd (reads (\<lambda>s. changes P (sel s))) (\<lambda>n. thn (upd tab P f) (ret n))"

definition insert_row ::
    "string \<Rightarrow> (fab \<Rightarrow> 'r list) \<Rightarrow> (('r list \<Rightarrow> 'r list) \<Rightarrow> fab \<Rightarrow> fab) \<Rightarrow> ('r list \<Rightarrow> 'r \<Rightarrow> bool) \<Rightarrow>
     (fab \<Rightarrow> 'r \<Rightarrow> bool) \<Rightarrow> 'r \<Rightarrow> unit tx" where
  "insert_row name sel tab unique refs r s =
     (if \<not> unique (sel s) r then Inl (Sql_unique name)
      else if \<not> refs s r then Inl (Sql_foreign_key name)
      else Inr ((), tab (\<lambda>rows. rows @ [r]) s))"

text \<open>\<open>INSERT OR IGNORE\<close>: a uniqueness conflict skips the row, a missing reference still fails.\<close>

definition insert_or_ignore ::
    "string \<Rightarrow> (fab \<Rightarrow> 'r list) \<Rightarrow> (('r list \<Rightarrow> 'r list) \<Rightarrow> fab \<Rightarrow> fab) \<Rightarrow> ('r list \<Rightarrow> 'r \<Rightarrow> bool) \<Rightarrow>
     (fab \<Rightarrow> 'r \<Rightarrow> bool) \<Rightarrow> 'r \<Rightarrow> unit tx" where
  "insert_or_ignore name sel tab unique refs r s =
     (if \<not> unique (sel s) r then Inr ((), s)
      else if \<not> refs s r then Inl (Sql_foreign_key name)
      else Inr ((), tab (\<lambda>rows. rows @ [r]) s))"

text \<open>For evaluation the sequencing operations are unfolded to case distinctions, whose branches are
  evaluated only once the result they depend on is known.\<close>

lemma bnd_eval [code_unfold]: "bnd m f = (\<lambda>s. case m s of Inl e \<Rightarrow> Inl e | Inr (x, s') \<Rightarrow> f x s')"
  by (rule ext) (simp add: bnd_def split: sum.splits)

lemma thn_eval [code_unfold]: "thn m n = (\<lambda>s. case m s of Inl e \<Rightarrow> Inl e | Inr (_, s') \<Rightarrow> n s')"
  by (simp add: thn_def bnd_eval)

lemma ret_eval [code_unfold]: "ret x = (\<lambda>s. Inr (x, s))"
  by (simp add: ret_def fun_eq_iff)

lemma reads_eval [code_unfold]: "reads f = (\<lambda>s. Inr (f s, s))"
  by (simp add: reads_def fun_eq_iff)

lemma throw_if_eval [code_unfold]:
  "throw_if c e = (\<lambda>s. if c then Inl (Fab_failure e) else Inr ((), s))"
  by (simp add: throw_if_def failure_def throw_def ret_def fun_eq_iff)

lemma when_tx_eval [code_unfold]: "when_tx c m = (\<lambda>s. if c then m s else Inr ((), s))"
  by (simp add: when_tx_def ret_def fun_eq_iff)

section \<open>Constraints of the schema\<close>

definition key_of :: "('r \<Rightarrow> 'k) \<Rightarrow> 'r list \<Rightarrow> 'k \<Rightarrow> bool" where
  "key_of k rows i \<longleftrightarrow> i \<in> k ` set rows"

definition opt_key_of :: "('r \<Rightarrow> 'k) \<Rightarrow> 'r list \<Rightarrow> 'k option \<Rightarrow> bool" where
  "opt_key_of k rows i \<longleftrightarrow> (case i of None \<Rightarrow> True | Some j \<Rightarrow> j \<in> k ` set rows)"

definition new_key :: "('r \<Rightarrow> 'k) \<Rightarrow> 'r list \<Rightarrow> 'r \<Rightarrow> bool" where
  "new_key k rows r \<longleftrightarrow> k r \<notin> k ` set rows"

abbreviation "is_mission s \<equiv> key_of ms_id (missions s)"
abbreviation "is_task s \<equiv> key_of tk_id (tasks s)"
abbreviation "is_principal s \<equiv> key_of pr_id (principals s)"
abbreviation "is_assignment s \<equiv> key_of as_id (assignments s)"
abbreviation "is_attempt s \<equiv> key_of at_id (attempts s)"
abbreviation "opt_assignment s \<equiv> opt_key_of as_id (assignments s)"
abbreviation "opt_attempt s \<equiv> opt_key_of at_id (attempts s)"

definition mission_refs :: "fab \<Rightarrow> mission_row \<Rightarrow> bool" where
  "mission_refs s r \<longleftrightarrow> ms_workspace_id r \<in> set (workspaces s) \<and>
     (case ms_origin_task r of None \<Rightarrow> True | Some t \<Rightarrow> t \<in> set (session_tasks s))"

definition task_refs :: "fab \<Rightarrow> task_row \<Rightarrow> bool" where
  "task_refs s r \<longleftrightarrow> is_mission s (tk_mission r) \<and> opt_key_of tk_id (tasks s) (tk_parent r)"

definition dependency_refs :: "fab \<Rightarrow> dependency_row \<Rightarrow> bool" where
  "dependency_refs s r \<longleftrightarrow> is_task s (dp_task r) \<and> is_task s (dp_on r)"

text \<open>The primary key and the \<open>CHECK\<close> of the table.\<close>

definition dependency_unique :: "dependency_row list \<Rightarrow> dependency_row \<Rightarrow> bool" where
  "dependency_unique rows r \<longleftrightarrow>
     (dp_task r, dp_on r) \<notin> (\<lambda>d. (dp_task d, dp_on d)) ` set rows \<and> dp_task r \<noteq> dp_on r"

definition assignment_refs :: "fab \<Rightarrow> assignment_row \<Rightarrow> bool" where
  "assignment_refs s r \<longleftrightarrow> is_mission s (as_mission r) \<and> is_task s (as_task r) \<and>
     opt_assignment s (as_supervisor r) \<and> is_principal s (as_assignee r)"

definition attempt_refs :: "fab \<Rightarrow> attempt_row \<Rightarrow> bool" where
  "attempt_refs s r \<longleftrightarrow> is_assignment s (at_assignment r)"

definition attempt_unique :: "attempt_row list \<Rightarrow> attempt_row \<Rightarrow> bool" where
  "attempt_unique rows r \<longleftrightarrow> new_key at_id rows r \<and>
     new_key (\<lambda>a. (at_assignment a, at_ordinal a)) rows r"

definition message_refs :: "fab \<Rightarrow> message_row \<Rightarrow> bool" where
  "message_refs s r \<longleftrightarrow> is_mission s (mg_mission r) \<and> opt_assignment s (mg_from r) \<and>
     opt_assignment s (mg_to r) \<and> opt_attempt s (mg_attempt r)"

definition event_refs :: "fab \<Rightarrow> event_row \<Rightarrow> bool" where
  "event_refs s r \<longleftrightarrow> is_mission s (ev_mission r) \<and> opt_key_of pr_id (principals s) (ev_actor r) \<and>
     opt_assignment s (ev_assignment r) \<and> opt_attempt s (ev_attempt r)"

definition event_unique :: "event_row list \<Rightarrow> event_row \<Rightarrow> bool" where
  "event_unique rows r \<longleftrightarrow> new_key ev_id rows r \<and> new_key (\<lambda>e. (ev_mission e, ev_sequence e)) rows r"

definition outbox_refs :: "fab \<Rightarrow> outbox_row \<Rightarrow> bool" where
  "outbox_refs s r \<longleftrightarrow> is_mission s (ob_mission r)"

definition outbox_unique :: "outbox_row list \<Rightarrow> outbox_row \<Rightarrow> bool" where
  "outbox_unique rows r \<longleftrightarrow> new_key ob_id rows r \<and>
     new_key (\<lambda>b. (ob_mission b, ob_operation b, ob_key b)) rows r"

definition artifact_refs :: "fab \<Rightarrow> artifact_row \<Rightarrow> bool" where
  "artifact_refs s r \<longleftrightarrow> is_mission s (af_mission r) \<and> is_assignment s (af_assignment r) \<and>
     opt_attempt s (af_attempt r)"

definition runtime_session_refs :: "fab \<Rightarrow> runtime_session_row \<Rightarrow> bool" where
  "runtime_session_refs s r \<longleftrightarrow> is_attempt s (rs_attempt r)"

definition runtime_event_refs :: "fab \<Rightarrow> runtime_event_row \<Rightarrow> bool" where
  "runtime_event_refs s r \<longleftrightarrow> key_of rs_id (runtime_sessions s) (re_session r) \<and>
     is_attempt s (re_attempt r)"

definition runtime_event_unique :: "runtime_event_row list \<Rightarrow> runtime_event_row \<Rightarrow> bool" where
  "runtime_event_unique rows r \<longleftrightarrow> new_key re_id rows r \<and>
     new_key (\<lambda>e. (re_session e, re_sequence e)) rows r"

definition delivery_refs :: "fab \<Rightarrow> delivery_row \<Rightarrow> bool" where
  "delivery_refs s r \<longleftrightarrow> key_of mg_id (messages s) (dl_message r) \<and> is_assignment s (dl_assignment r)"

definition delivery_unique :: "delivery_row list \<Rightarrow> delivery_row \<Rightarrow> bool" where
  "delivery_unique = new_key (\<lambda>d. (dl_message d, dl_assignment d))"

definition active_continuation :: "continuation_state \<Rightarrow> bool" where
  "active_continuation st \<longleftrightarrow> st \<in> set [Cont_ARMED, Cont_READY, Cont_DELIVERING, Cont_DELIVERED]"

definition continuation_refs :: "fab \<Rightarrow> continuation_row \<Rightarrow> bool" where
  "continuation_refs s r \<longleftrightarrow> is_mission s (cn_mission r) \<and> is_assignment s (cn_owner r) \<and>
     is_attempt s (cn_attempt r)"

text \<open>With the partial unique index: one active continuation per owner attempt.\<close>

definition continuation_unique :: "continuation_row list \<Rightarrow> continuation_row \<Rightarrow> bool" where
  "continuation_unique rows r \<longleftrightarrow> new_key cn_id rows r \<and>
     new_key (\<lambda>c. (cn_mission c, cn_owner c, cn_key c)) rows r \<and>
     \<not> (active_continuation (cn_state r) \<and>
        (\<exists>c\<in>set rows. active_continuation (cn_state c) \<and> cn_attempt c = cn_attempt r))"

definition target_refs :: "fab \<Rightarrow> target_row \<Rightarrow> bool" where
  "target_refs s r \<longleftrightarrow> key_of cn_id (continuations s) (ct_continuation r) \<and>
     opt_assignment s (ct_target r) \<and> opt_assignment s (ct_from r)"

definition intent_refs :: "fab \<Rightarrow> intent_row \<Rightarrow> bool" where
  "intent_refs s r \<longleftrightarrow> key_of cn_id (continuations s) (ri_continuation r) \<and>
     is_mission s (ri_mission r) \<and> is_assignment s (ri_owner r) \<and> is_attempt s (ri_attempt r)"

definition intent_unique :: "intent_row list \<Rightarrow> intent_row \<Rightarrow> bool" where
  "intent_unique rows r \<longleftrightarrow> new_key ri_id rows r \<and> new_key ri_continuation rows r \<and>
     new_key ri_key rows r"

definition conversation_refs :: "fab \<Rightarrow> conversation_row \<Rightarrow> bool" where
  "conversation_refs s r \<longleftrightarrow> is_mission s (cv_mission r) \<and>
     opt_key_of pr_id (principals s) (cv_created_by r)"

definition participant_refs :: "fab \<Rightarrow> participant_row \<Rightarrow> bool" where
  "participant_refs s r \<longleftrightarrow> key_of cv_id (conversations s) (cp_conversation r) \<and>
     is_principal s (cp_principal r) \<and> opt_assignment s (cp_assignment r)"

definition request_refs :: "fab \<Rightarrow> request_row \<Rightarrow> bool" where
  "request_refs s r \<longleftrightarrow> is_mission s (rq_mission r) \<and>
     key_of cv_id (conversations s) (rq_conversation r) \<and>
     opt_key_of tk_id (tasks s) (rq_task r) \<and> is_principal s (rq_creator r) \<and>
     opt_assignment s (rq_creator_assignment r) \<and> is_principal s (rq_assignee r) \<and>
     opt_assignment s (rq_assignee_assignment r)"

definition request_unique :: "request_row list \<Rightarrow> request_row \<Rightarrow> bool" where
  "request_unique rows r \<longleftrightarrow> new_key rq_id rows r \<and>
     new_key (\<lambda>q. (rq_mission q, rq_creator q, rq_key q)) rows r"

definition resolution_refs :: "fab \<Rightarrow> resolution_row \<Rightarrow> bool" where
  "resolution_refs s r \<longleftrightarrow> key_of rq_id (requests s) (rz_request r) \<and>
     is_principal s (rz_resolver r) \<and> opt_assignment s (rz_resolver_assignment r)"

definition resolution_unique :: "resolution_row list \<Rightarrow> resolution_row \<Rightarrow> bool" where
  "resolution_unique rows r \<longleftrightarrow> new_key rz_id rows r \<and> new_key rz_request rows r \<and>
     new_key rz_key rows r"

definition incident_refs :: "fab \<Rightarrow> incident_row \<Rightarrow> bool" where
  "incident_refs s r \<longleftrightarrow> is_mission s (ic_mission r) \<and> opt_assignment s (ic_assignment r) \<and>
     opt_attempt s (ic_attempt r) \<and> opt_key_of rq_id (requests s) (ic_request r)"

text \<open>\<open>NULL\<close> values are distinct for a \<open>UNIQUE\<close> constraint.\<close>

definition incident_unique :: "incident_row list \<Rightarrow> incident_row \<Rightarrow> bool" where
  "incident_unique rows r \<longleftrightarrow> new_key ic_id rows r \<and>
     \<not> (ic_assignment r \<noteq> None \<and> ic_attempt r \<noteq> None \<and>
        (\<exists>i\<in>set rows. ic_assignment i = ic_assignment r \<and> ic_attempt i = ic_attempt r \<and>
           ic_kind i = ic_kind r))"

definition insert_mission :: "mission_row \<Rightarrow> unit tx" where
  "insert_mission = insert_row ''missions'' missions missions_update (new_key ms_id) mission_refs"

definition insert_task :: "task_row \<Rightarrow> unit tx" where
  "insert_task = insert_row ''mission_tasks'' tasks tasks_update (new_key tk_id) task_refs"

definition insert_dependency :: "dependency_row \<Rightarrow> unit tx" where
  "insert_dependency = insert_row ''mission_task_dependencies'' dependencies dependencies_update
     dependency_unique dependency_refs"

definition insert_assignment :: "assignment_row \<Rightarrow> unit tx" where
  "insert_assignment = insert_row ''assignments'' assignments assignments_update
     (new_key as_id) assignment_refs"

definition insert_attempt :: "attempt_row \<Rightarrow> unit tx" where
  "insert_attempt = insert_row ''execution_attempts'' attempts attempts_update
     attempt_unique attempt_refs"

text \<open>\<open>sequence INTEGER PRIMARY KEY AUTOINCREMENT\<close>: the stored counter is never taken back.\<close>

definition insert_message_row :: "message_row \<Rightarrow> unit tx" where
  "insert_message_row r =
     bnd (reads message_seq) (\<lambda>n.
     thn (insert_row ''orchestration_messages'' messages messages_update (new_key mg_id) message_refs
            (r\<lparr>mg_sequence := Suc n\<rparr>))
     (change (\<lambda>s. s\<lparr>message_seq := Suc n\<rparr>)))"

definition insert_event :: "event_row \<Rightarrow> unit tx" where
  "insert_event = insert_row ''mission_events'' events events_update event_unique event_refs"

definition insert_outbox :: "outbox_row \<Rightarrow> unit tx" where
  "insert_outbox = insert_row ''orchestration_outbox'' outbox outbox_update outbox_unique outbox_refs"

definition insert_outbox_or_ignore :: "outbox_row \<Rightarrow> unit tx" where
  "insert_outbox_or_ignore =
     insert_or_ignore ''orchestration_outbox'' outbox outbox_update outbox_unique outbox_refs"

definition insert_artifact :: "artifact_row \<Rightarrow> unit tx" where
  "insert_artifact = insert_row ''assignment_artifacts'' artifacts artifacts_update
     (new_key af_id) artifact_refs"

definition insert_runtime_event :: "runtime_event_row \<Rightarrow> unit tx" where
  "insert_runtime_event = insert_row ''orchestration_runtime_events'' runtime_events
     runtime_events_update runtime_event_unique runtime_event_refs"

definition insert_delivery :: "delivery_row \<Rightarrow> unit tx" where
  "insert_delivery = insert_row ''orchestration_message_deliveries'' deliveries deliveries_update
     delivery_unique delivery_refs"

definition insert_continuation :: "continuation_row \<Rightarrow> unit tx" where
  "insert_continuation = insert_row ''orchestration_continuations'' continuations
     continuations_update continuation_unique continuation_refs"

definition insert_target :: "target_row \<Rightarrow> unit tx" where
  "insert_target = insert_row ''orchestration_continuation_targets'' targets targets_update
     (new_key ct_id) target_refs"

definition insert_intent_or_ignore :: "intent_row \<Rightarrow> unit tx" where
  "insert_intent_or_ignore = insert_or_ignore ''orchestration_resume_intents'' intents
     intents_update intent_unique intent_refs"

definition insert_conversation :: "conversation_row \<Rightarrow> unit tx" where
  "insert_conversation = insert_row ''orchestration_conversations'' conversations
     conversations_update (new_key cv_id) conversation_refs"

definition insert_request :: "request_row \<Rightarrow> unit tx" where
  "insert_request = insert_row ''orchestration_action_requests'' requests requests_update
     request_unique request_refs"

definition insert_resolution :: "resolution_row \<Rightarrow> unit tx" where
  "insert_resolution = insert_row ''orchestration_action_resolutions'' resolutions
     resolutions_update resolution_unique resolution_refs"

definition insert_incident :: "incident_row \<Rightarrow> unit tx" where
  "insert_incident = insert_row ''orchestration_incidents'' incidents incidents_update
     incident_unique incident_refs"

end
