(* ===== verification/Fabric_Core.thy ===== *)
theory Fabric_Core
  imports Fabric_Transactions
begin

text \<open>
  The private operations of \<open>MissionRepository\<close> that its public ones share: row lookups, the
  event log (\<open>appendEvent\<close>), principals, conversations, messages (\<open>insertMessage\<close>), the
  continuation machinery a message or a finished Assignment drives
  (\<open>satisfyContinuationsFrom...\<close>, \<open>reconcileContinuation\<close>, \<open>readyContinuation\<close>,
  \<open>cancelContinuation\<close>), the promotion of blocked tasks and the Mission reconciliations.
\<close>

section \<open>Texts of the enumerations in JSON payloads\<close>

fun assignment_state_text :: "assignment_state \<Rightarrow> string" where
  "assignment_state_text Assignment_PENDING = ''PENDING''"
| "assignment_state_text Assignment_ACTIVE = ''ACTIVE''"
| "assignment_state_text Assignment_WAITING = ''WAITING''"
| "assignment_state_text Assignment_PAUSED = ''PAUSED''"
| "assignment_state_text Assignment_COMPLETED = ''COMPLETED''"
| "assignment_state_text Assignment_FAILED = ''FAILED''"
| "assignment_state_text Assignment_CANCELLED = ''CANCELLED''"
| "assignment_state_text Assignment_ORPHANED = ''ORPHANED''"

fun message_type_text :: "message_type \<Rightarrow> string" where
  "message_type_text Msg_assignment = ''assignment''"
| "message_type_text Msg_progress = ''progress''"
| "message_type_text Msg_question = ''question''"
| "message_type_text Msg_answer = ''answer''"
| "message_type_text Msg_escalation = ''escalation''"
| "message_type_text Msg_completion = ''completion''"
| "message_type_text Msg_cancellation = ''cancellation''"
| "message_type_text Msg_handoff = ''handoff''"
| "message_type_text Msg_heartbeat = ''heartbeat''"

section \<open>Lookups\<close>

definition getMission :: "string \<Rightarrow> fab \<Rightarrow> mission_row option" where
  "getMission i s = find (\<lambda>r. ms_id r = i) (missions s)"

definition getAssignment :: "string \<Rightarrow> fab \<Rightarrow> assignment_row option" where
  "getAssignment i s = find (\<lambda>r. as_id r = i) (assignments s)"

definition getPrincipal :: "string \<Rightarrow> fab \<Rightarrow> principal_row option" where
  "getPrincipal i s = find (\<lambda>r. pr_id r = i) (principals s)"

definition getAttempt :: "string \<Rightarrow> fab \<Rightarrow> attempt_row option" where
  "getAttempt i s = find (\<lambda>r. at_id r = i) (attempts s)"

definition getConversation :: "string \<Rightarrow> fab \<Rightarrow> conversation_row option" where
  "getConversation i s = find (\<lambda>r. cv_id r = i) (conversations s)"

definition getMessage :: "string \<Rightarrow> fab \<Rightarrow> message_row option" where
  "getMessage i s = find (\<lambda>r. mg_id r = i) (messages s)"

definition getActionRequest :: "string \<Rightarrow> fab \<Rightarrow> request_row option" where
  "getActionRequest i s = find (\<lambda>r. rq_id r = i) (requests s)"

definition getContinuation :: "string \<Rightarrow> fab \<Rightarrow> continuation_row option" where
  "getContinuation i s = find (\<lambda>r. cn_id r = i) (continuations s)"

definition getResumeIntent :: "string \<Rightarrow> fab \<Rightarrow> intent_row option" where
  "getResumeIntent i s = find (\<lambda>r. ri_id r = i) (intents s)"

definition requireMission :: "string \<Rightarrow> mission_row tx" where
  "requireMission i = require_row ''ORCHESTRATION_MISSION_NOT_FOUND'' (getMission i)"

definition requireTask :: "string \<Rightarrow> task_row tx" where
  "requireTask i =
     require_row ''ORCHESTRATION_TASK_NOT_FOUND'' (\<lambda>s. find (\<lambda>r. tk_id r = i) (tasks s))"

definition requirePrincipal :: "string \<Rightarrow> principal_row tx" where
  "requirePrincipal i = require_row ''ORCHESTRATION_PRINCIPAL_NOT_FOUND'' (getPrincipal i)"

definition requireAssignment :: "string \<Rightarrow> assignment_row tx" where
  "requireAssignment i = require_row ''ORCHESTRATION_ASSIGNMENT_NOT_FOUND'' (getAssignment i)"

definition requireAttempt :: "string \<Rightarrow> attempt_row tx" where
  "requireAttempt i = require_row ''ORCHESTRATION_ATTEMPT_NOT_FOUND'' (getAttempt i)"

definition requireConversation :: "string \<Rightarrow> conversation_row tx" where
  "requireConversation i =
     require_row ''ORCHESTRATION_CONVERSATION_NOT_FOUND'' (getConversation i)"

definition requireActionRequest :: "string \<Rightarrow> request_row tx" where
  "requireActionRequest i =
     require_row ''ORCHESTRATION_ACTION_REQUEST_NOT_FOUND'' (getActionRequest i)"

definition requireActionResolution :: "string \<Rightarrow> resolution_row tx" where
  "requireActionResolution i =
     require_row ''ORCHESTRATION_ACTION_RESOLUTION_NOT_FOUND''
       (\<lambda>s. find (\<lambda>r. rz_id r = i) (resolutions s))"

definition requireIncident :: "string \<Rightarrow> incident_row tx" where
  "requireIncident i =
     require_row ''ORCHESTRATION_INCIDENT_NOT_FOUND'' (\<lambda>s. find (\<lambda>r. ic_id r = i) (incidents s))"

definition requireContinuation :: "string \<Rightarrow> continuation_row tx" where
  "requireContinuation i =
     require_row ''ORCHESTRATION_CONTINUATION_NOT_FOUND'' (getContinuation i)"

text \<open>\<open>x ? this.requireAttempt(x) : null\<close>, and the same for Assignments.\<close>

definition attempt_if :: "string option \<Rightarrow> attempt_row option tx" where
  "attempt_if i = (if truthy i then bnd (requireAttempt (the i)) (\<lambda>r. ret (Some r)) else ret None)"

definition assignment_if :: "string option \<Rightarrow> assignment_row option tx" where
  "assignment_if i =
     (if truthy i then bnd (requireAssignment (the i)) (\<lambda>r. ret (Some r)) else ret None)"

definition listTasks :: "string \<Rightarrow> fab \<Rightarrow> task_row list" where
  "listTasks m s = sort_key tk_created_at (filter (\<lambda>t. tk_mission t = m) (tasks s))"

definition task_in_mission :: "fab \<Rightarrow> string \<Rightarrow> string \<Rightarrow> bool" where
  "task_in_mission s m i \<longleftrightarrow> (\<exists>t\<in>set (tasks s). tk_id t = i \<and> tk_mission t = m)"

definition listDependencies :: "string \<Rightarrow> fab \<Rightarrow> dependency_row list" where
  "listDependencies m s =
     sort_key dp_created_at (filter (\<lambda>d. task_in_mission s m (dp_task d)) (dependencies s))"

definition hasActiveContinuationForOwner :: "string \<Rightarrow> fab \<Rightarrow> bool" where
  "hasActiveContinuationForOwner a s \<longleftrightarrow>
     (\<exists>c\<in>set (continuations s). cn_owner c = a \<and> active_continuation (cn_state c))"

definition assertAssignmentMission :: "string \<Rightarrow> string \<Rightarrow> unit tx" where
  "assertAssignmentMission assignmentId missionId =
     bnd (requireAssignment assignmentId) (\<lambda>a.
     throw_if (as_mission a \<noteq> missionId) ''ORCHESTRATION_TARGET_MISMATCH'')"

section \<open>Events and principals\<close>

definition next_event_sequence :: "string \<Rightarrow> fab \<Rightarrow> nat" where
  "next_event_sequence m s =
     Max (insert 0 (ev_sequence ` set (filter (\<lambda>e. ev_mission e = m) (events s)))) + 1"

definition appendEvent ::
    "string \<Rightarrow> string \<Rightarrow> string option \<Rightarrow> string option \<Rightarrow> string option \<Rightarrow> (string \<times> json) list \<Rightarrow>
     unit tx" where
  "appendEvent missionId ty actor assignmentId attemptId payload =
     bnd (reads (\<lambda>s. if truthy actor \<and> getPrincipal (the actor) s \<noteq> None then actor else None)) (\<lambda>durableActor.
     bnd (reads (next_event_sequence missionId)) (\<lambda>seq_no.
     bnd (fresh ''mevent'') (\<lambda>i.
     bnd now (\<lambda>t.
     insert_event
       \<lparr> ev_id = i, ev_mission = missionId, ev_sequence = seq_no, ev_type = ty,
         ev_actor = durableActor, ev_assignment = assignmentId, ev_attempt = attemptId,
         ev_payload = JObj payload, ev_created_at = t \<rparr>))))"

text \<open>The index \<open>idx_orchestration_principals_external\<close>; a row keeps its own values.\<close>

definition principal_external_free :: "principal_row list \<Rightarrow> principal_row \<Rightarrow> bool" where
  "principal_external_free rows r \<longleftrightarrow>
     \<not> (pr_external r \<noteq> None \<and> pr_provider r \<noteq> None \<and>
        (\<exists>p\<in>set rows. pr_id p \<noteq> pr_id r \<and> pr_provider p = pr_provider r \<and>
           pr_external p = pr_external r))"

definition upsertPrincipal :: "principal_row \<Rightarrow> unit tx" where
  "upsertPrincipal p =
     bnd (reads (getPrincipal (pr_id p))) (\<lambda>old.
     let new = (case old of None \<Rightarrow> p
                | Some q \<Rightarrow> q\<lparr> pr_provider := pr_provider p,
                             pr_external := coalesce (pr_external p) (pr_external q),
                             pr_name := pr_name p, pr_state := pr_state p,
                             pr_last_seen_at := pr_last_seen_at p \<rparr>) in
     bnd (reads principals) (\<lambda>rows.
     if \<not> principal_external_free rows new then throw (Sql_unique ''orchestration_principals'')
     else if old = None then change (principals_update (\<lambda>rows. rows @ [new]))
     else upd principals_update (\<lambda>q. pr_id q = pr_id p) (\<lambda>q. new)))"

section \<open>Conversations and messages\<close>

record message_input =
  mi_mission :: string
  mi_conversation :: "string option"
  mi_request :: "string option"
  mi_from :: "string option"
  mi_to :: "string option"
  mi_thread :: "string option"
  mi_attempt :: "string option"
  mi_type :: message_type
  mi_priority :: "message_priority option"
  mi_subject :: string
  mi_body :: "string option"
  mi_payload :: "(string \<times> json) list option"

text \<open>An input with the optional members absent.\<close>

definition plain_message ::
    "string \<Rightarrow> string option \<Rightarrow> string option \<Rightarrow> string option \<Rightarrow> message_type \<Rightarrow> string \<Rightarrow>
     message_input" where
  "plain_message mission from to attempt ty subject =
     \<lparr> mi_mission = mission, mi_conversation = None, mi_request = None, mi_from = from,
       mi_to = to, mi_thread = None, mi_attempt = attempt, mi_type = ty, mi_priority = None,
       mi_subject = subject, mi_body = None, mi_payload = None \<rparr>"

definition thread_conversation :: "string \<Rightarrow> string \<Rightarrow> fab \<Rightarrow> conversation_row option" where
  "thread_conversation missionId threadId s =
     (case find (\<lambda>m. mg_mission m = missionId \<and> (mg_id m = threadId \<or> mg_thread m = Some threadId) \<and>
                    mg_conversation m \<in> set (map (\<lambda>c. Some (cv_id c)) (conversations s)))
                (rev (messages s)) of
        None \<Rightarrow> None
      | Some m \<Rightarrow> find (\<lambda>c. mg_conversation m = Some (cv_id c)) (conversations s))"

definition ensureConversation ::
    "string \<Rightarrow> string option \<Rightarrow> string \<Rightarrow> string option \<Rightarrow> string option \<Rightarrow> conversation_row tx" where
  "ensureConversation missionId requestedId topic creator threadId =
     (if truthy requestedId then
        bnd (requireConversation (the requestedId)) (\<lambda>requested.
        thn (throw_if (cv_mission requested \<noteq> missionId) ''ORCHESTRATION_TARGET_OUTSIDE_MISSION'')
        (ret requested))
      else
        bnd (reads (\<lambda>s. if truthy threadId then thread_conversation missionId (the threadId) s else None))
        (\<lambda>found. case found of
           Some c \<Rightarrow> ret c
         | None \<Rightarrow>
             bnd (fresh ''conversation'') (\<lambda>i.
             bnd now (\<lambda>t.
             thn (insert_conversation
                   \<lparr> cv_id = i, cv_mission = missionId, cv_topic = topic, cv_created_by = creator,
                     cv_state = Conversation_OPEN, cv_created_at = t, cv_updated_at = t \<rparr>)
             (requireConversation i)))))"

definition participant_key :: "participant_row \<Rightarrow> string \<times> string" where
  "participant_key p = (cp_conversation p, cp_principal p)"

definition addConversationParticipant ::
    "string \<Rightarrow> string \<Rightarrow> string option \<Rightarrow> int \<Rightarrow> unit tx" where
  "addConversationParticipant conversationId principalId assignmentId joinedAt =
     (let r = \<lparr> cp_conversation = conversationId, cp_principal = principalId,
                cp_assignment = assignmentId, cp_joined_at = joinedAt \<rparr> in
      bnd (reads (\<lambda>s. participant_refs s r)) (\<lambda>refs.
      if \<not> refs then throw (Sql_foreign_key ''orchestration_conversation_participants'')
      else bnd (reads (\<lambda>s. participant_key r \<in> set (map participant_key (participants s)))) (\<lambda>present.
      if present then
        upd participants_update (\<lambda>p. participant_key p = participant_key r)
          (\<lambda>p. p\<lparr>cp_assignment := coalesce assignmentId (cp_assignment p)\<rparr>)
      else change (participants_update (\<lambda>rows. rows @ [r])))))"

text \<open>The participant row of one end of a message.\<close>

definition add_message_end :: "string \<Rightarrow> string option \<Rightarrow> int \<Rightarrow> unit tx" where
  "add_message_end conversationId assignmentId t =
     when_tx (truthy assignmentId)
       (bnd (requireAssignment (the assignmentId)) (\<lambda>a.
        addConversationParticipant conversationId (as_assignee a) (Some (as_id a)) t))"

section \<open>Continuations\<close>

record continuation_bundle =
  bd_continuation :: continuation_row
  bd_targets :: "target_row list"
  bd_intent :: "intent_row option"

definition continuationBundle :: "string \<Rightarrow> continuation_bundle tx" where
  "continuationBundle i =
     bnd (requireContinuation i) (\<lambda>c.
     bnd (reads (\<lambda>s. filter (\<lambda>t. ct_continuation t = i) (targets s))) (\<lambda>ts.
     bnd (reads (\<lambda>s. find (\<lambda>r. ri_continuation r = i) (intents s))) (\<lambda>intent.
     ret \<lparr> bd_continuation = c, bd_targets = ts, bd_intent = intent \<rparr>)))"

definition is_armed :: "fab \<Rightarrow> string \<Rightarrow> bool" where
  "is_armed s i \<longleftrightarrow> (\<exists>c\<in>set (continuations s). cn_id c = i \<and> cn_state c = Cont_ARMED)"

definition satisfyContinuationTarget :: "string \<Rightarrow> string \<Rightarrow> (string \<times> json) list \<Rightarrow> bool tx" where
  "satisfyContinuationTarget targetId satisfiedBy payload =
     bnd now (\<lambda>t.
     bnd (reads is_armed) (\<lambda>armed.
     bnd (upd_count targets targets_update
            (\<lambda>r. ct_id r = targetId \<and> ct_satisfied_at r = None \<and> armed (ct_continuation r))
            (\<lambda>r. r\<lparr> ct_satisfied_by := Some satisfiedBy, ct_satisfied_payload := Some (JObj payload),
                    ct_satisfied_at := Some t \<rparr>)) (\<lambda>n.
     ret (n = 1))))"

definition CONFIRMED_RESUME_DELIVERY_CONTRACT :: string where
  "CONFIRMED_RESUME_DELIVERY_CONTRACT = ''agent-turn-start-v1''"

definition readyContinuation :: "string \<Rightarrow> (string \<times> json) list \<Rightarrow> bool tx" where
  "readyContinuation i trigger =
     bnd (requireContinuation i) (\<lambda>c.
     if cn_state c \<noteq> Cont_ARMED then ret False else
     bnd now (\<lambda>t.
     bnd (upd_count continuations continuations_update
            (\<lambda>r. cn_id r = i \<and> cn_state r = Cont_ARMED)
            (\<lambda>r. r\<lparr> cn_state := Cont_READY, cn_ready_at := coalesce (cn_ready_at r) (Some t),
                    cn_updated_at := t \<rparr>)) (\<lambda>n.
     if n \<noteq> 1 then ret False else
     bnd (requireAttempt (cn_attempt c)) (\<lambda>attempt.
     bnd (fresh ''resume_intent'') (\<lambda>intentId.
     let payload = [(''continuationId'', JStr (cn_id c)), (''reason'', JStr (cn_reason c)),
                    (''trigger'', JObj trigger),
                    (''deliveryContract'', JStr CONFIRMED_RESUME_DELIVERY_CONTRACT)] in
     thn (insert_intent_or_ignore
            \<lparr> ri_id = intentId, ri_continuation = cn_id c, ri_mission = cn_mission c,
              ri_owner = cn_owner c, ri_attempt = cn_attempt c, ri_session = at_session attempt,
              ri_state = Intent_PENDING, ri_key = ''resume:'' @ cn_id c, ri_payload = payload,
              ri_attempts = 0, ri_available_at = t, ri_last_error = None, ri_delivered_at = None,
              ri_acknowledged_at = None, ri_created_at = t, ri_updated_at = t \<rparr>)
     (thn (appendEvent (cn_mission c) ''continuation.ready'' None (Some (cn_owner c))
            (Some (cn_attempt c)) payload)
     (ret True)))))))"

definition message_satisfaction :: "message_row \<Rightarrow> (string \<times> json) list" where
  "message_satisfaction m =
     [(''kind'', JStr ''message''), (''messageId'', JStr (mg_id m)),
      (''sequence'', JNum (int (mg_sequence m))), (''fromAssignmentId'', json_opt_str (mg_from m)),
      (''type'', JStr (message_type_text (mg_type m))), (''threadId'', json_opt_str (mg_thread m)),
      (''subject'', JStr (mg_subject m))]"

definition assignment_satisfaction :: "assignment_row \<Rightarrow> (string \<times> json) list" where
  "assignment_satisfaction a =
     [(''kind'', JStr ''assignment_terminal''), (''assignmentId'', JStr (as_id a)),
      (''state'', JStr (assignment_state_text (as_state a)))]"

text \<open>The optional clauses of a message condition.\<close>

definition message_matches :: "target_row \<Rightarrow> message_row \<Rightarrow> bool" where
  "message_matches t m \<longleftrightarrow>
     (if truthy (ct_from t) then mg_from m = ct_from t else True) \<and>
     (if truthy (ct_thread t) then mg_thread m = ct_thread t else True) \<and>
     (case ct_types t of None \<Rightarrow> True | Some ts \<Rightarrow> if ts = [] then True else mg_type m \<in> set ts)"

definition reconcile_target :: "continuation_row \<Rightarrow> target_row \<Rightarrow> unit tx" where
  "reconcile_target c t =
     (if ct_satisfied_at t \<noteq> None then ret ()
      else if ct_kind t = Target_assignment_terminal then
        (if \<not> truthy (ct_target t) then ret () else
         bnd (reads (getAssignment (the (ct_target t)))) (\<lambda>found.
         case found of None \<Rightarrow> ret () | Some a \<Rightarrow>
           when_tx (as_state a \<in> set (or_else [] (ct_terminal_states t)))
             (bnd (satisfyContinuationTarget (ct_id t) (as_id a) (assignment_satisfaction a))
              (\<lambda>_. ret ()))))
      else
        bnd (reads (\<lambda>s. find (\<lambda>m. mg_mission m = cn_mission c \<and> mg_to m = Some (cn_owner c) \<and>
                mg_suppressed_at m = None \<and> cn_cursor c < mg_sequence m \<and> message_matches t m)
              (messages s))) (\<lambda>found.
        case found of None \<Rightarrow> ret () | Some m \<Rightarrow>
          bnd (satisfyContinuationTarget (ct_id t) (mg_id m) (message_satisfaction m)) (\<lambda>_. ret ())))"

definition conditions_ready :: "continuation_mode \<Rightarrow> target_row list \<Rightarrow> bool" where
  "conditions_ready mode ts =
     (let satisfied = filter (\<lambda>t. ct_satisfied_at t \<noteq> None) ts in
      if mode = Mode_all then length satisfied = length ts else length satisfied > 0)"

definition satisfied_ids :: "target_row list \<Rightarrow> json" where
  "satisfied_ids ts = JArr (map (JStr \<circ> ct_id) (filter (\<lambda>t. ct_satisfied_at t \<noteq> None) ts))"

definition reconcileContinuation :: "string \<Rightarrow> continuation_bundle tx" where
  "reconcileContinuation i =
     bnd (continuationBundle i) (\<lambda>b.
     if cn_state (bd_continuation b) \<noteq> Cont_ARMED then ret b else
     thn (each_tx (reconcile_target (bd_continuation b)) (bd_targets b))
     (bnd (continuationBundle i) (\<lambda>b.
     let c = bd_continuation b; ts = bd_targets b in
     thn (if conditions_ready (cn_mode c) ts then
            bnd (readyContinuation i
                   [(''kind'', JStr ''conditions''), (''satisfiedTargetIds'', satisfied_ids ts)])
              (\<lambda>_. ret ())
          else (case cn_deadline c of None \<Rightarrow> ret () | Some d \<Rightarrow>
            bnd now (\<lambda>t.
            when_tx (d \<le> t)
              (bnd (readyContinuation i
                  [(''kind'', JStr ''deadline''), (''timedOut'', JBool True),
                   (''deadlineAt'', JNum d), (''satisfiedTargetIds'', satisfied_ids ts)])
               (\<lambda>_. ret ())))))
     (continuationBundle i))))"

text \<open>The targets of an armed continuation of one Mission and kind that are not yet satisfied.\<close>

definition open_targets :: "(continuation_row \<Rightarrow> bool) \<Rightarrow> target_kind \<Rightarrow> fab \<Rightarrow> target_row list" where
  "open_targets P kind s =
     filter (\<lambda>t. ct_kind t = kind \<and> ct_satisfied_at t = None \<and>
                (\<exists>c\<in>set (continuations s). cn_id c = ct_continuation t \<and> cn_state c = Cont_ARMED \<and> P c))
       (targets s)"

text \<open>Satisfies each matching target and collects the continuations touched.\<close>

fun satisfy_each ::
    "(target_row \<Rightarrow> bool) \<Rightarrow> string \<Rightarrow> (string \<times> json) list \<Rightarrow> target_row list \<Rightarrow> string list \<Rightarrow>
     string list tx" where
  "satisfy_each match by payload [] touched = ret touched"
| "satisfy_each match by payload (t # ts) touched =
     (if \<not> match t then satisfy_each match by payload ts touched
      else bnd (satisfyContinuationTarget (ct_id t) by payload) (\<lambda>changed.
           satisfy_each match by payload ts
             (if changed then set_add (ct_continuation t) touched else touched)))"

definition satisfyContinuationsFromMessage :: "message_row \<Rightarrow> unit tx" where
  "satisfyContinuationsFromMessage m =
     (if \<not> truthy (mg_to m) \<or> mg_suppressed_at m \<noteq> None then ret () else
      bnd (reads (open_targets (\<lambda>c. Some (cn_owner c) = mg_to m \<and> cn_mission c = mg_mission m \<and>
                    cn_cursor c < mg_sequence m) Target_message)) (\<lambda>rows.
      bnd (satisfy_each (\<lambda>t. message_matches t m) (mg_id m) (message_satisfaction m) rows []) (\<lambda>touched.
      each_tx (\<lambda>i. bnd (reconcileContinuation i) (\<lambda>_. ret ())) touched)))"

definition satisfyContinuationsFromAssignment :: "assignment_row \<Rightarrow> unit tx" where
  "satisfyContinuationsFromAssignment a =
     bnd (reads (\<lambda>s. filter (\<lambda>t. ct_target t = Some (as_id a))
                  (open_targets (\<lambda>c. cn_mission c = as_mission a) Target_assignment_terminal s))) (\<lambda>rows.
     bnd (satisfy_each (\<lambda>t. as_state a \<in> set (or_else [] (ct_terminal_states t)))
            (as_id a) (assignment_satisfaction a) rows []) (\<lambda>touched.
     each_tx (\<lambda>i. bnd (reconcileContinuation i) (\<lambda>_. ret ())) touched))"

definition cancelContinuation :: "string \<Rightarrow> string \<Rightarrow> bool tx" where
  "cancelContinuation i reason =
     bnd (reads (getContinuation i)) (\<lambda>found.
     case found of None \<Rightarrow> ret False
     | Some c \<Rightarrow>
         if cn_state c \<in> set [Cont_CONSUMED, Cont_CANCELLED] then ret False else
         bnd now (\<lambda>t.
         bnd (upd_count continuations continuations_update
                (\<lambda>r. cn_id r = i \<and> active_continuation (cn_state r))
                (\<lambda>r. r\<lparr> cn_state := Cont_CANCELLED,
                        cn_cancelled_at := coalesce (cn_cancelled_at r) (Some t),
                        cn_updated_at := t \<rparr>)) (\<lambda>n.
         if n \<noteq> 1 then ret False else
         thn (upd intents_update (\<lambda>r. ri_continuation r = i \<and> ri_state r \<noteq> Intent_ACKNOWLEDGED)
                (\<lambda>r. r\<lparr> ri_state := Intent_CANCELLED, ri_last_error := Some reason,
                        ri_updated_at := t \<rparr>))
         (thn (appendEvent (cn_mission c) ''continuation.cancelled'' None (Some (cn_owner c))
                (Some (cn_attempt c)) [(''continuationId'', JStr i), (''reason'', JStr reason)])
         (ret True)))))"

definition cancelOwnedContinuations :: "string \<Rightarrow> string option \<Rightarrow> string \<Rightarrow> nat tx" where
  "cancelOwnedContinuations owner attemptId reason =
     bnd (reads (\<lambda>s. map cn_id (filter (\<lambda>c. cn_owner c = owner \<and>
            (case attemptId of None \<Rightarrow> True | Some a \<Rightarrow> cn_attempt c = a) \<and>
            active_continuation (cn_state c)) (continuations s)))) (\<lambda>ids.
     bnd (collect_tx (\<lambda>i. cancelContinuation i reason) ids) (\<lambda>cancelled_flags.
     ret (length (filter id cancelled_flags))))"

section \<open>Messages\<close>

definition insertMessage :: "message_input \<Rightarrow> string option \<Rightarrow> message_row tx" where
  "insertMessage input suppressionReason =
     bnd (fresh ''message'') (\<lambda>i.
     bnd now (\<lambda>t.
     bnd (assignment_if (mi_from input)) (\<lambda>creator.
     bnd (ensureConversation (mi_mission input) (mi_conversation input) (mi_subject input)
            (map_option as_assignee creator) (mi_thread input)) (\<lambda>conversation.
     thn (insert_message_row
            \<lparr> mg_id = i, mg_mission = mi_mission input, mg_conversation = Some (cv_id conversation),
              mg_request = mi_request input, mg_from = mi_from input, mg_to = mi_to input,
              mg_thread = mi_thread input, mg_attempt = mi_attempt input, mg_type = mi_type input,
              mg_priority = or_else Prio_normal (mi_priority input), mg_subject = mi_subject input,
              mg_body = or_else [] (mi_body input), mg_payload = map_option JObj (mi_payload input),
              mg_sequence = 0, mg_created_at = t, mg_delivered_at = None, mg_read_at = None,
              mg_suppressed_at = (if truthy suppressionReason then Some t else None),
              mg_suppression_reason = suppressionReason \<rparr>)
     (thn (add_message_end (cv_id conversation) (mi_from input) t)
     (thn (add_message_end (cv_id conversation) (mi_to input) t)
     (thn (upd conversations_update (\<lambda>c. cv_id c = cv_id conversation) (\<lambda>c. c\<lparr>cv_updated_at := t\<rparr>))
     (thn (when_tx (truthy (mi_to input) \<and> \<not> truthy suppressionReason)
            (insert_delivery
               \<lparr> dl_message = i, dl_assignment = the (mi_to input), dl_state = Delivery_pending,
                 dl_attempts = 0, dl_last_error = None, dl_delivered_at = None,
                 dl_observed_at = None, dl_updated_at = t \<rparr>))
     (bnd (require_row ''TypeError'' (getMessage i)) (\<lambda>message.
     thn (when_tx (\<not> truthy suppressionReason) (satisfyContinuationsFromMessage message))
     (ret message)))))))))))"

section \<open>Tasks and Missions\<close>

definition lifecycleAuthority :: "assignment_row \<Rightarrow> attempt_row \<Rightarrow> string \<Rightarrow> string option" where
  "lifecycleAuthority a t principalId =
     (if as_assignee a \<noteq> principalId then Some ''sender_not_assignee''
      else if as_active_attempt a \<noteq> Some (at_id t) then Some ''inactive_attempt''
      else if at_state t \<notin> set [Attempt_STARTING, Attempt_RUNNING, Attempt_WAITING]
      then Some ''attempt_not_active''
      else None)"

text \<open>The number of dependencies of a task whose task is not complete.\<close>

definition incomplete_dependencies :: "string \<Rightarrow> fab \<Rightarrow> nat" where
  "incomplete_dependencies i s =
     length (filter (\<lambda>d. dp_task d = i \<and>
        (\<exists>t\<in>set (tasks s). tk_id t = dp_on d \<and> tk_state t \<noteq> Task_COMPLETED)) (dependencies s))"

definition promotion_candidates :: "string \<Rightarrow> string \<Rightarrow> fab \<Rightarrow> task_row list" where
  "promotion_candidates missionId completed s =
     filter (\<lambda>t. tk_mission t = missionId \<and> tk_state t = Task_BLOCKED \<and>
        (\<exists>d\<in>set (dependencies s). dp_task d = tk_id t \<and> dp_on d = completed)) (tasks s)"

definition promote_candidate :: "string \<Rightarrow> int \<Rightarrow> task_row \<Rightarrow> unit tx" where
  "promote_candidate missionId t candidate =
     bnd (reads (incomplete_dependencies (tk_id candidate))) (\<lambda>incomplete.
     when_tx (incomplete = 0)
       (thn (upd tasks_update (\<lambda>r. tk_id r = tk_id candidate)
               (\<lambda>r. r\<lparr> tk_state := Task_READY, tk_updated_at := t,
                       tk_version := tk_version r + 1 \<rparr>))
       (bnd (reads (\<lambda>s. map as_id (filter (\<lambda>a. as_task a = tk_id candidate) (assignments s)))) (\<lambda>ids.
       thn (upd outbox_update (\<lambda>b. ob_state b = Outbox_PENDING \<and> ob_operation b = Start_runtime \<and>
                                   ob_aggregate b \<in> set ids)
              (\<lambda>b. b\<lparr> ob_available_at := t \<rparr>))
       (appendEvent missionId ''task.ready'' None None None [(''taskId'', JStr (tk_id candidate))])))))"

definition promoteReadyTasks :: "string \<Rightarrow> string \<Rightarrow> int \<Rightarrow> unit tx" where
  "promoteReadyTasks missionId completed t =
     bnd (reads (promotion_candidates missionId completed)) (\<lambda>candidates.
     each_tx (promote_candidate missionId t) candidates)"

definition reconcileMissionState :: "string \<Rightarrow> int \<Rightarrow> unit tx" where
  "reconcileMissionState missionId t =
     bnd (requireMission missionId) (\<lambda>mission.
     if ms_state mission \<noteq> Mission_RUNNING then ret () else
     bnd (reads (listTasks missionId)) (\<lambda>ts.
     if ts = [] \<or> \<not> list_all (\<lambda>k. tk_state k = Task_COMPLETED) ts then ret () else
     thn (upd missions_update (\<lambda>m. ms_id m = missionId \<and> ms_state m = Mission_RUNNING)
            (\<lambda>m. m\<lparr> ms_state := Mission_VERIFYING, ms_version := ms_version m + 1,
                    ms_updated_at := t \<rparr>))
     (appendEvent missionId ''mission.verificationReady'' None None None
        [(''completedTasks'', JNum (int (length ts)))])))"

definition TERMINAL_MISSION_STATES :: "mission_state list" where
  "TERMINAL_MISSION_STATES = [Mission_COMPLETED, Mission_FAILED, Mission_CANCELLED]"

definition LIVE_ASSIGNMENT_STATES :: "assignment_state list" where
  "LIVE_ASSIGNMENT_STATES =
     [Assignment_PENDING, Assignment_ACTIVE, Assignment_WAITING, Assignment_PAUSED,
      Assignment_ORPHANED]"

definition assignments_in :: "string \<Rightarrow> assignment_state list \<Rightarrow> fab \<Rightarrow> nat" where
  "assignments_in missionId states s =
     length (filter (\<lambda>a. as_mission a = missionId \<and> as_state a \<in> set states) (assignments s))"

definition illegal_transition_guard :: "'s illegal_transition + unit \<Rightarrow> unit tx" where
  "illegal_transition_guard g =
     (case g of Inl _ \<Rightarrow> failure ''ORCHESTRATION_ILLEGAL_TRANSITION'' | Inr _ \<Rightarrow> ret ())"

definition cancelMissionWhenAssignmentsExhausted ::
    "string \<Rightarrow> string option \<Rightarrow> string \<Rightarrow> int \<Rightarrow> bool tx" where
  "cancelMissionWhenAssignmentsExhausted missionId actor reason t =
     bnd (requireMission missionId) (\<lambda>mission.
     if ms_state mission \<in> set TERMINAL_MISSION_STATES then ret False else
     bnd (reads (assignments_in missionId [Assignment_CANCELLED])) (\<lambda>cancelled.
     bnd (reads (assignments_in missionId LIVE_ASSIGNMENT_STATES)) (\<lambda>live.
     if cancelled = 0 \<or> live > 0 then ret False else
     thn (illegal_transition_guard (assertMissionTransition (ms_state mission) Mission_CANCELLED))
     (thn (upd missions_update (\<lambda>m. ms_id m = missionId)
             (\<lambda>m. m\<lparr> ms_state := Mission_CANCELLED, ms_version := ms_version m + 1,
                     ms_updated_at := t, ms_completed_at := Some t \<rparr>))
     (thn (appendEvent missionId ''mission.cancelled'' actor None None
             [(''reason'', JStr reason), (''source'', JStr ''assignments_exhausted'')])
     (ret True))))))"

definition assertCapacity :: "mission_row \<Rightarrow> unit tx" where
  "assertCapacity mission =
     bnd (reads (\<lambda>s. length (filter (\<lambda>a. as_mission a = ms_id mission) (assignments s)))) (\<lambda>total.
     bnd (reads (assignments_in (ms_id mission) LIVE_ASSIGNMENT_STATES)) (\<lambda>active.
     thn (throw_if (case ep_maxTotalAgents (ms_policy mission) of None \<Rightarrow> False
                    | Some n \<Rightarrow> n \<le> int total) ''ORCHESTRATION_TOTAL_LIMIT'')
     (throw_if (case ep_maxConcurrentAgents (ms_policy mission) of None \<Rightarrow> False
                | Some n \<Rightarrow> n \<le> int active) ''ORCHESTRATION_CONCURRENCY_LIMIT'')))"

end
