(* ===== verification/Fabric_Queries.thy ===== *)
theory Fabric_Queries
  imports Fabric_Core Canonical_Json
begin

text \<open>
  The reading operations of \<open>MissionRepository\<close> and the Mission snapshot the product shows.
  \<open>ORDER BY x, rowid\<close> is the stable \<open>sort_key\<close>, \<open>DESC\<close> its reverse.
\<close>

definition sql_limit :: "int \<Rightarrow> 'a list \<Rightarrow> 'a list" where
  "sql_limit n rows = (if n < 0 then rows else take (nat n) rows)"

definition min_opt :: "int list \<Rightarrow> int option" where
  "min_opt xs = (if xs = [] then None else Some (Min (set xs)))"

section \<open>Lists of one Mission\<close>

definition listConversations :: "string \<Rightarrow> fab \<Rightarrow> conversation_row list" where
  "listConversations m s = sort_key cv_created_at (filter (\<lambda>c. cv_mission c = m) (conversations s))"

definition listConversationParticipants :: "string \<Rightarrow> fab \<Rightarrow> participant_row list" where
  "listConversationParticipants m s =
     sort_key cp_joined_at (filter (\<lambda>p. \<exists>c\<in>set (conversations s). cv_id c = cp_conversation p \<and>
       cv_mission c = m) (participants s))"

definition listActionRequests :: "string \<Rightarrow> fab \<Rightarrow> request_row list" where
  "listActionRequests m s = sort_key rq_created_at (filter (\<lambda>r. rq_mission r = m) (requests s))"

definition listActionResolutions :: "string \<Rightarrow> fab \<Rightarrow> resolution_row list" where
  "listActionResolutions m s =
     sort_key rz_created_at (filter (\<lambda>r. \<exists>q\<in>set (requests s). rq_id q = rz_request r \<and>
       rq_mission q = m) (resolutions s))"

definition listIncidents :: "string \<Rightarrow> fab \<Rightarrow> incident_row list" where
  "listIncidents m s = sort_key ic_created_at (filter (\<lambda>i. ic_mission i = m) (incidents s))"

definition listContinuations :: "string \<Rightarrow> fab \<Rightarrow> continuation_row list" where
  "listContinuations m s = sort_key cn_created_at (filter (\<lambda>c. cn_mission c = m) (continuations s))"

text \<open>The targets by the creation time of their continuation.\<close>

definition listContinuationTargets :: "string \<Rightarrow> fab \<Rightarrow> target_row list" where
  "listContinuationTargets m s =
     map snd (sort_key (\<lambda>(c, t). cn_created_at c)
       (concat (map (\<lambda>t. map (\<lambda>c. (c, t)) (filter (\<lambda>c. cn_id c = ct_continuation t \<and> cn_mission c = m)
          (continuations s))) (targets s))))"

definition listResumeIntents :: "string \<Rightarrow> fab \<Rightarrow> intent_row list" where
  "listResumeIntents m s = sort_key ri_created_at (filter (\<lambda>r. ri_mission r = m) (intents s))"

definition listPendingResumeIntents :: "int \<Rightarrow> intent_row list tx" where
  "listPendingResumeIntents limit =
     bnd now (\<lambda>t.
     reads (\<lambda>s. sql_limit limit (sort_key ri_created_at
       (filter (\<lambda>r. ri_state r = Intent_PENDING \<and> ri_available_at r \<le> t) (intents s)))))"

definition nextResumeIntentAvailableAt :: "fab \<Rightarrow> int option" where
  "nextResumeIntentAvailableAt s =
     min_opt (map ri_available_at (filter (\<lambda>r. ri_state r = Intent_PENDING) (intents s)))"

definition nextContinuationDeadline :: "fab \<Rightarrow> int option" where
  "nextContinuationDeadline s =
     min_opt (List.map_filter (\<lambda>c. if cn_state c = Cont_ARMED then cn_deadline c else None)
       (continuations s))"

definition listArtifacts :: "string \<Rightarrow> fab \<Rightarrow> artifact_row list" where
  "listArtifacts m s = sort_key af_created_at (filter (\<lambda>a. af_mission a = m) (artifacts s))"

definition attempt_in_mission :: "fab \<Rightarrow> string \<Rightarrow> string \<Rightarrow> bool" where
  "attempt_in_mission s m i \<longleftrightarrow>
     (\<exists>e\<in>set (attempts s). at_id e = i \<and>
       (\<exists>a\<in>set (assignments s). as_id a = at_assignment e \<and> as_mission a = m))"

definition listRuntimeSessions :: "string \<Rightarrow> fab \<Rightarrow> runtime_session_row list" where
  "listRuntimeSessions m s =
     sort_key rs_created_at (filter (\<lambda>r. attempt_in_mission s m (rs_attempt r)) (runtime_sessions s))"

text \<open>The newest \<open>limit\<close> events, oldest first.\<close>

definition listRuntimeEvents :: "string \<Rightarrow> int \<Rightarrow> fab \<Rightarrow> runtime_event_row list" where
  "listRuntimeEvents m limit s =
     rev (sql_limit limit (rev (sort_key re_created_at
       (filter (\<lambda>e. attempt_in_mission s m (re_attempt e)) (runtime_events s)))))"

definition utf8_length :: "string \<Rightarrow> nat" where
  "utf8_length t = sum_list (map (\<lambda>c. if (of_char c :: nat) < 128 then 1 else 2) t)"

definition SNAPSHOT_RUNTIME_EVENT_PAYLOAD_MAX_BYTES :: nat where
  "SNAPSHOT_RUNTIME_EVENT_PAYLOAD_MAX_BYTES = 16 * 1024"

definition summarize_payload :: "json \<Rightarrow> json" where
  "summarize_payload payload =
     (let n = utf8_length (stringify payload) in
      if n \<le> SNAPSHOT_RUNTIME_EVENT_PAYLOAD_MAX_BYTES then payload
      else JObj [(''truncated'', JBool True), (''originalBytes'', JNum (int n))])"

definition listRuntimeEventSummaries :: "string \<Rightarrow> int \<Rightarrow> fab \<Rightarrow> runtime_event_row list" where
  "listRuntimeEventSummaries m limit s =
     (let boundedLimit = max 0 (min 500 limit) in
      if boundedLimit = 0 then []
      else map (\<lambda>e. e\<lparr>re_payload := summarize_payload (re_payload e)\<rparr>)
             (listRuntimeEvents m boundedLimit s))"

text \<open>The deliveries by the sequence of their message.\<close>

definition listMessageDeliveries :: "string \<Rightarrow> fab \<Rightarrow> delivery_row list" where
  "listMessageDeliveries m s =
     concat (map (\<lambda>g. filter (\<lambda>d. dl_message d = mg_id g) (deliveries s))
       (filter (\<lambda>g. mg_mission g = m) (messages s)))"

definition listUndeliveredMessages :: "string option \<Rightarrow> fab \<Rightarrow> message_row list" where
  "listUndeliveredMessages assignmentId s =
     concat (map (\<lambda>g. map (\<lambda>d. g) (filter (\<lambda>d. dl_message d = mg_id g \<and>
          dl_state d \<in> set [Delivery_pending, Delivery_failed] \<and>
          (\<exists>a\<in>set (assignments s). as_id a = dl_assignment d \<and>
             as_state a \<in> set [Assignment_PENDING, Assignment_ACTIVE, Assignment_WAITING,
                               Assignment_PAUSED]) \<and>
          (if truthy assignmentId then Some (dl_assignment d) = assignmentId else True))
        (deliveries s)))
       (filter (\<lambda>g. mg_suppressed_at g = None) (messages s)))"

section \<open>Inbox\<close>

record inbox_query =
  iq_unreadOnly :: "bool option"
  iq_types :: "message_type list option"
  iq_threadId :: "string option"
  iq_afterSequence :: "nat option"
  iq_limit :: "int option"

definition in_inbox :: "assignment_row \<Rightarrow> inbox_query \<Rightarrow> message_row \<Rightarrow> bool" where
  "in_inbox a q m \<longleftrightarrow>
     mg_mission m = as_mission a \<and> mg_to m = Some (as_id a) \<and> mg_suppressed_at m = None \<and>
     (if or_else True (iq_unreadOnly q) then mg_read_at m = None else True) \<and>
     (if truthy (iq_threadId q) then mg_thread m = iq_threadId q else True) \<and>
     (case iq_afterSequence q of None \<Rightarrow> True | Some n \<Rightarrow> n < mg_sequence m) \<and>
     (case iq_types q of None \<Rightarrow> True | Some ts \<Rightarrow> if ts = [] then True else mg_type m \<in> set ts)"

definition listInbox :: "string \<Rightarrow> inbox_query \<Rightarrow> message_row list tx" where
  "listInbox assignmentId q =
     bnd (requireAssignment assignmentId) (\<lambda>a.
     reads (\<lambda>s. sql_limit (or_else 100 (iq_limit q)) (filter (in_inbox a q) (messages s))))"

section \<open>Lookups through another table\<close>

definition getMissionForOriginTask :: "string \<Rightarrow> fab \<Rightarrow> mission_row option" where
  "getMissionForOriginTask taskId s =
     (case rev (sort_key ms_created_at
        (filter (\<lambda>m. ms_origin_task m = Some taskId \<and> ms_deleted_at m = None) (missions s))) of
        [] \<Rightarrow> None | m # _ \<Rightarrow> Some m)"

definition getAssignmentForRuntime :: "string \<Rightarrow> fab \<Rightarrow> assignment_row option" where
  "getAssignmentForRuntime runtimeSessionId s =
     (case find (\<lambda>e. at_session e = Some runtimeSessionId \<and> is_assignment s (at_assignment e))
             (rev (attempts s)) of
        None \<Rightarrow> None | Some e \<Rightarrow> getAssignment (at_assignment e) s)"

definition getAssignmentForTerminal :: "string \<Rightarrow> fab \<Rightarrow> assignment_row option" where
  "getAssignmentForTerminal terminalId s =
     (case find (\<lambda>e. at_terminal e = Some terminalId \<and> is_assignment s (at_assignment e))
             (rev (attempts s)) of
        None \<Rightarrow> None | Some e \<Rightarrow> getAssignment (at_assignment e) s)"

definition live_mission_of_attempt :: "fab \<Rightarrow> attempt_row \<Rightarrow> mission_row option" where
  "live_mission_of_attempt s e =
     (case getAssignment (at_assignment e) s of None \<Rightarrow> None
      | Some a \<Rightarrow> find (\<lambda>m. ms_id m = as_mission a \<and> ms_deleted_at m = None) (missions s))"

definition getMissionForRuntime :: "string \<Rightarrow> fab \<Rightarrow> mission_row option" where
  "getMissionForRuntime runtimeSessionId s =
     (case find (\<lambda>e. at_session e = Some runtimeSessionId \<and> live_mission_of_attempt s e \<noteq> None)
             (rev (attempts s)) of
        None \<Rightarrow> None | Some e \<Rightarrow> live_mission_of_attempt s e)"

definition getRuntimeSessionForAttempt :: "string \<Rightarrow> fab \<Rightarrow> runtime_session_row option" where
  "getRuntimeSessionForAttempt attemptId s =
     find (\<lambda>r. rs_attempt r = attemptId) (runtime_sessions s)"

definition listExpiredAttempts :: "int \<Rightarrow> fab \<Rightarrow> attempt_row list" where
  "listExpiredAttempts t s =
     sort_key (\<lambda>e. the (at_lease e))
       (filter (\<lambda>e. at_state e \<in> set [Attempt_STARTING, Attempt_RUNNING, Attempt_WAITING] \<and>
          (case at_lease e of None \<Rightarrow> False | Some l \<Rightarrow> l < t)) (attempts s))"

definition listRecoverableMissions :: "fab \<Rightarrow> mission_row list" where
  "listRecoverableMissions s =
     sort_key ms_updated_at (filter (\<lambda>m. ms_deleted_at m = None \<and>
       ms_state m \<in> set [Mission_PLANNING, Mission_RUNNING, Mission_BLOCKED, Mission_VERIFYING])
       (missions s))"

section \<open>Snapshot\<close>

record mission_snapshot =
  sn_mission :: mission_row
  sn_principals :: "principal_row list"
  sn_conversations :: "conversation_row list"
  sn_participants :: "participant_row list"
  sn_requests :: "request_row list"
  sn_resolutions :: "resolution_row list"
  sn_incidents :: "incident_row list"
  sn_tasks :: "task_row list"
  sn_dependencies :: "dependency_row list"
  sn_assignments :: "assignment_row list"
  sn_attempts :: "attempt_row list"
  sn_messages :: "message_row list"
  sn_artifacts :: "artifact_row list"
  sn_runtime_sessions :: "runtime_session_row list"
  sn_runtime_events :: "runtime_event_row list"
  sn_deliveries :: "delivery_row list"
  sn_continuations :: "continuation_row list"
  sn_targets :: "target_row list"
  sn_intents :: "intent_row list"

definition snapshot_principal_ids :: "string \<Rightarrow> fab \<Rightarrow> assignment_row list \<Rightarrow> string list" where
  "snapshot_principal_ids m s as =
     js_unique
       (map as_assignee as @
        map cp_principal (listConversationParticipants m s) @
        List.map_filter cv_created_by (listConversations m s) @
        concat (map (\<lambda>r. [rq_creator r, rq_assignee r]) (listActionRequests m s)) @
        map rz_resolver (listActionResolutions m s) @ [''user''])"

definition SNAPSHOT_RUNTIME_EVENT_LIMIT :: int where
  "SNAPSHOT_RUNTIME_EVENT_LIMIT = 100"

definition snapshot_with :: "string \<Rightarrow> int \<Rightarrow> int \<Rightarrow> mission_snapshot tx" where
  "snapshot_with m messageLimit runtimeEventLimit =
     bnd (requireMission m) (\<lambda>mission.
     bnd (reads (\<lambda>s. sort_key as_created_at (filter (\<lambda>a. as_mission a = m) (assignments s)))) (\<lambda>as.
     bnd (reads (\<lambda>s. snapshot_principal_ids m s as)) (\<lambda>ids.
     bnd (collect_tx requirePrincipal ids) (\<lambda>ps.
     reads (\<lambda>s.
       \<lparr> sn_mission = mission, sn_principals = ps,
         sn_conversations = listConversations m s,
         sn_participants = listConversationParticipants m s,
         sn_requests = listActionRequests m s, sn_resolutions = listActionResolutions m s,
         sn_incidents = listIncidents m s, sn_tasks = listTasks m s,
         sn_dependencies = listDependencies m s, sn_assignments = as,
         sn_attempts = filter (\<lambda>e. \<exists>a\<in>set (assignments s). as_id a = at_assignment e \<and>
            as_mission a = m) (attempts s),
         sn_messages = rev (sql_limit messageLimit (rev (filter (\<lambda>g. mg_mission g = m) (messages s)))),
         sn_artifacts = listArtifacts m s, sn_runtime_sessions = listRuntimeSessions m s,
         sn_runtime_events = listRuntimeEventSummaries m runtimeEventLimit s,
         sn_deliveries = listMessageDeliveries m s, sn_continuations = listContinuations m s,
         sn_targets = listContinuationTargets m s, sn_intents = listResumeIntents m s \<rparr>)))))"

definition snapshot :: "string \<Rightarrow> mission_snapshot tx" where
  "snapshot m = snapshot_with m 200 SNAPSHOT_RUNTIME_EVENT_LIMIT"

end
