(* ===== verification/Fabric_Delegation.thy ===== *)
theory Fabric_Delegation
  imports Fabric_Queries
begin

text \<open>
  Creating Missions and work: \<open>createMission\<close>, and \<open>delegate\<close> with its guards, its idempotency key
  and the warning about overlapping write scopes. The batch form \<open>delegateMany\<close> is in \<open>Fabric_Batch\<close>.
\<close>

section \<open>Rows written by several operations\<close>

definition planned_attempt ::
    "string \<Rightarrow> string \<Rightarrow> nat \<Rightarrow> string \<Rightarrow> string option \<Rightarrow> attempt_row" where
  "planned_attempt i assignmentId ordinal runtime model =
     \<lparr> at_id = i, at_assignment = assignmentId, at_ordinal = ordinal, at_runtime = runtime,
       at_model = model, at_session = None, at_terminal = None, at_state = Attempt_PLANNED,
       at_lease = None, at_heartbeat = None, at_started_at = None, at_ended_at = None,
       at_failure_code = None, at_failure = None, at_result = None \<rparr>"

definition pending_outbox ::
    "string \<Rightarrow> string \<Rightarrow> outbox_operation \<Rightarrow> string \<Rightarrow> string \<Rightarrow> (string \<times> json) list \<Rightarrow> int \<Rightarrow>
     outbox_row" where
  "pending_outbox i missionId operation aggregateId key payload t =
     \<lparr> ob_id = i, ob_mission = missionId, ob_operation = operation, ob_aggregate = aggregateId,
       ob_key = key, ob_payload = JObj payload, ob_state = Outbox_PENDING, ob_attempts = 0,
       ob_available_at = t, ob_last_error = None, ob_created_at = t, ob_completed_at = None \<rparr>"

definition last_ordinal :: "string \<Rightarrow> fab \<Rightarrow> nat" where
  "last_ordinal assignmentId s =
     Max (insert 0 (at_ordinal ` set (filter (\<lambda>e. at_assignment e = assignmentId) (attempts s))))"

definition outbox_aggregate :: "string \<Rightarrow> outbox_operation \<Rightarrow> string \<Rightarrow> fab \<Rightarrow> string option" where
  "outbox_aggregate missionId operation key s =
     map_option ob_aggregate (find (\<lambda>b. ob_mission b = missionId \<and> ob_operation b = operation \<and>
       ob_key b = key) (outbox s))"

text \<open>\<open>INSERT INTO mission_tasks\<close> with the columns of \<open>delegateOne\<close>; \<open>createMission\<close> leaves the
  parent, creator, artifacts and scope to the defaults of the schema.\<close>

definition new_task ::
    "string \<Rightarrow> string \<Rightarrow> string \<Rightarrow> string \<Rightarrow> string list \<Rightarrow> assignment_work_mode \<Rightarrow>
     mission_task_state \<Rightarrow> int \<Rightarrow> task_row" where
  "new_task i missionId title goal acceptance mode state t =
     \<lparr> tk_id = i, tk_mission = missionId, tk_parent = None, tk_created_by = None,
       tk_title = title, tk_goal = goal, tk_acceptance = acceptance, tk_expected_artifacts = [],
       tk_work_mode = mode, tk_write_scope = None, tk_state = state, tk_result = None,
       tk_version = 1, tk_created_at = t, tk_updated_at = t, tk_completed_at = None \<rparr>"

definition new_assignment ::
    "string \<Rightarrow> string \<Rightarrow> string \<Rightarrow> string option \<Rightarrow> string \<Rightarrow> string \<Rightarrow> assignment_state \<Rightarrow> int \<Rightarrow>
     assignment_row" where
  "new_assignment i missionId taskId supervisor assignee attemptId state t =
     \<lparr> as_id = i, as_mission = missionId, as_task = taskId, as_supervisor = supervisor,
       as_assignee = assignee, as_active_attempt = Some attemptId, as_state = state,
       as_created_at = t, as_updated_at = t, as_completed_at = None \<rparr>"

section \<open>createMission\<close>

record lead_input =
  li_principalId :: string
  li_kind :: principal_kind
  li_provider :: "string option"
  li_externalIdentity :: "string option"
  li_displayName :: string
  li_runtimeSessionId :: string
  li_terminalId :: "string option"
  li_requestedRuntime :: string
  li_requestedModel :: "string option"

record create_mission_input =
  cm_workspaceId :: string
  cm_workspaceRoot :: string
  cm_originTask :: "string option"
  cm_title :: string
  cm_goal :: string
  cm_acceptance :: "string list option"
  cm_policy :: "execution_policy option"
  cm_lead :: lead_input

definition createMission :: "create_mission_input \<Rightarrow> mission_snapshot tx" where
  "createMission input =
     (let lead = cm_lead input; acceptance = or_else [] (cm_acceptance input) in
      bnd now (\<lambda>t.
      bnd (fresh ''mission'') (\<lambda>missionId.
      bnd (fresh ''mtask'') (\<lambda>taskId.
      bnd (fresh ''assign'') (\<lambda>assignmentId.
      bnd (fresh ''attempt'') (\<lambda>attemptId.
      let policy = or_else (defaultMissionExecutionPolicy (cm_workspaceRoot input)) (cm_policy input) in
      thn (upsertPrincipal
             \<lparr> pr_id = li_principalId lead, pr_kind = li_kind lead, pr_provider = li_provider lead,
               pr_external = li_externalIdentity lead, pr_name = li_displayName lead,
               pr_state = Principal_active, pr_created_at = t, pr_last_seen_at = Some t \<rparr>)
      (thn (upsertPrincipal
             \<lparr> pr_id = ''user'', pr_kind = User_kind, pr_provider = None, pr_external = None,
               pr_name = ''You'', pr_state = Principal_active, pr_created_at = t,
               pr_last_seen_at = Some t \<rparr>)
      (thn (insert_mission
             \<lparr> ms_id = missionId, ms_workspace_id = cm_workspaceId input,
               ms_origin_task = cm_originTask input, ms_title = cm_title input,
               ms_goal = cm_goal input, ms_acceptance = acceptance, ms_policy = policy,
               ms_state = Mission_RUNNING, ms_lead = Some assignmentId, ms_version = 1,
               ms_created_at = t, ms_updated_at = t, ms_completed_at = None,
               ms_deleted_at = None \<rparr>)
      (thn (insert_task (new_task taskId missionId (cm_title input) (cm_goal input) acceptance
              Shared_write Task_RUNNING t))
      (thn (insert_assignment (new_assignment assignmentId missionId taskId None
              (li_principalId lead) attemptId Assignment_ACTIVE t))
      (thn (insert_attempt ((planned_attempt attemptId assignmentId 1 (li_requestedRuntime lead)
              (li_requestedModel lead))
              \<lparr> at_session := Some (li_runtimeSessionId lead), at_terminal := li_terminalId lead,
                at_state := Attempt_RUNNING, at_started_at := Some t, at_heartbeat := Some t \<rparr>))
      (thn (appendEvent missionId ''mission.created'' (Some (li_principalId lead))
              (Some assignmentId) (Some attemptId)
              [(''originConversationTaskId'', json_opt_str (cm_originTask input))])
      (snapshot missionId)))))))))))))"

section \<open>Write scopes\<close>

fun strip_trailing_slashes :: "string \<Rightarrow> string" where
  "strip_trailing_slashes p = rev (dropWhile (\<lambda>c. c = CHR ''/'') (rev p))"

definition normalizedScopePath :: "string \<Rightarrow> string" where
  "normalizedScopePath v =
     (let slashed = map (\<lambda>c. if c = CHR 0x5C then CHR ''/'' else c) v;
          bare = (if take 2 slashed = ''./'' then drop 2 slashed else slashed)
      in strip_trailing_slashes bare)"

definition starts_with :: "string \<Rightarrow> string \<Rightarrow> bool" where
  "starts_with t p \<longleftrightarrow> take (length p) t = p"

definition scope_paths :: "string list \<Rightarrow> string list" where
  "scope_paths ps = filter (\<lambda>p. p \<noteq> []) (map normalizedScopePath ps)"

definition writeScopesOverlap :: "string list option \<Rightarrow> string list option \<Rightarrow> bool" where
  "writeScopesOverlap left right =
     (case left of None \<Rightarrow> True | Some l \<Rightarrow> case right of None \<Rightarrow> True | Some r \<Rightarrow>
        list_ex (\<lambda>f. list_ex (\<lambda>g. f = g \<or> starts_with f (g @ ''/'') \<or> starts_with g (f @ ''/''))
          (scope_paths r)) (scope_paths l))"

section \<open>delegate\<close>

record delegate_input =
  di_mission :: string
  di_supervisor :: string
  di_actor :: string
  di_goal :: string
  di_title :: "string option"
  di_acceptance :: "string list"
  di_dependencies :: "string list option"
  di_expectedArtifacts :: "string list option"
  di_runtime :: string
  di_model :: "string option"
  di_workMode :: assignment_work_mode
  di_writeScope :: "string list option"
  di_reason :: string
  di_key :: string
  di_batchKey :: "string option"
  di_dependsOnKeys :: "string list option"

record delegate_result =
  dr_mission :: string
  dr_task :: task_row
  dr_assignment :: assignment_row
  dr_attempt :: attempt_row
  dr_reused :: bool
  dr_batchKey :: "string option"

definition delegateResult :: "string \<Rightarrow> bool \<Rightarrow> delegate_result tx" where
  "delegateResult assignmentId reused =
     bnd (requireAssignment assignmentId) (\<lambda>a.
     bnd (requireTask (as_task a)) (\<lambda>t.
     bnd (case as_active_attempt a of None \<Rightarrow> failure ''ORCHESTRATION_ATTEMPT_NOT_FOUND''
          | Some i \<Rightarrow> requireAttempt i) (\<lambda>e.
     ret \<lparr> dr_mission = as_mission a, dr_task = t, dr_assignment = a, dr_attempt = e,
           dr_reused = reused, dr_batchKey = None \<rparr>)))"

definition dependency_guard :: "dependency_error + unit \<Rightarrow> unit tx" where
  "dependency_guard g =
     (case g of Inl (Dependency_not_found _ _) \<Rightarrow> failure ''ORCHESTRATION_DEPENDENCY_NOT_FOUND''
      | Inl (Dependency_cycle _ _) \<Rightarrow> failure ''ORCHESTRATION_DEPENDENCY_CYCLE''
      | Inr _ \<Rightarrow> ret ())"

definition task_complete :: "task_row list \<Rightarrow> string \<Rightarrow> bool" where
  "task_complete ts i \<longleftrightarrow>
     (case find (\<lambda>t. tk_id t = i) ts of None \<Rightarrow> False | Some t \<Rightarrow> tk_state t = Task_COMPLETED)"

definition runtime_principal_kind :: "string \<Rightarrow> principal_kind" where
  "runtime_principal_kind runtime =
     (if runtime = ''managed'' then Managed_agent
      else if runtime = ''shell'' then Shell_agent else External_agent)"

definition json_opt_strs :: "string list option \<Rightarrow> json" where
  "json_opt_strs v = (case v of None \<Rightarrow> JNull | Some xs \<Rightarrow> JArr (map JStr xs))"

text \<open>The other active shared-write Assignments whose scope overlaps, with their task.\<close>

definition scope_overlaps :: "string \<Rightarrow> string \<Rightarrow> string list option \<Rightarrow> fab \<Rightarrow> (string \<times> string) list" where
  "scope_overlaps missionId assignmentId scope s =
     List.map_filter (\<lambda>a.
       if as_mission a = missionId \<and> as_id a \<noteq> assignmentId \<and>
          as_state a \<in> set [Assignment_PENDING, Assignment_ACTIVE, Assignment_WAITING, Assignment_PAUSED]
       then (case find (\<lambda>t. tk_id t = as_task a) (tasks s) of None \<Rightarrow> None
             | Some t \<Rightarrow> if tk_work_mode t = Shared_write \<and> writeScopesOverlap scope (tk_write_scope t)
                        then Some (as_id a, tk_id t) else None)
       else None) (assignments s)"

definition warn_overlap ::
    "delegate_input \<Rightarrow> mission_row \<Rightarrow> assignment_row \<Rightarrow> string \<Rightarrow> string \<Rightarrow> unit tx" where
  "warn_overlap input mission supervisor assignmentId attemptId =
     (if di_workMode input \<noteq> Shared_write then ret () else
      bnd (reads (scope_overlaps (ms_id mission) assignmentId (di_writeScope input))) (\<lambda>overlaps.
      if overlaps = [] then ret () else
      let target = or_else (as_id supervisor) (ms_lead mission) in
      bnd (insertMessage
             ((plain_message (ms_id mission) (Some assignmentId) (Some target) (Some attemptId)
                 Msg_escalation ''Shared-write overlap requires coordination'')
              \<lparr> mi_priority := Some Prio_high,
                mi_body := Some ''This Assignment shares a target tree with another active writer. File attribution may be ambiguous.'',
                mi_payload := Some [(''assignmentId'', JStr assignmentId),
                  (''writeScope'', json_opt_strs (di_writeScope input)),
                  (''overlaps'', JArr (map (\<lambda>(a, t).
                     JObj [(''assignmentId'', JStr a), (''taskId'', JStr t)]) overlaps))] \<rparr>) None) (\<lambda>_.
      appendEvent (ms_id mission) ''assignment.sharedWriteOverlap'' (Some (di_actor input))
        (Some assignmentId) (Some attemptId)
        [(''overlappingAssignmentIds'', JArr (map (JStr \<circ> fst) overlaps))])))"

text \<open>The guards of \<open>delegateOne\<close>, up to the capacity check.\<close>

definition delegation_guard :: "delegate_input \<Rightarrow> (mission_row \<times> assignment_row) tx" where
  "delegation_guard input =
     bnd (requireMission (di_mission input)) (\<lambda>mission.
     thn (throw_if (ms_state mission \<notin> set [Mission_RUNNING, Mission_BLOCKED])
            ''ORCHESTRATION_MISSION_NOT_ACTIVE'')
     (bnd (requireAssignment (di_supervisor input)) (\<lambda>supervisor.
     thn (throw_if (as_mission supervisor \<noteq> ms_id mission \<or> as_assignee supervisor \<noteq> di_actor input)
            ''ORCHESTRATION_CALLER_MISMATCH'')
     (thn (throw_if (as_state supervisor \<notin> set [Assignment_ACTIVE, Assignment_WAITING, Assignment_PAUSED])
            ''ORCHESTRATION_ASSIGNMENT_NOT_ACTIVE'')
     (thn (assertCapacity mission)
     (ret (mission, supervisor)))))))"

definition insert_delegation ::
    "delegate_input \<Rightarrow> mission_row \<Rightarrow> assignment_row \<Rightarrow> string list \<Rightarrow> bool \<Rightarrow> int \<Rightarrow> string \<Rightarrow> string \<Rightarrow>
     string \<Rightarrow> string \<Rightarrow> unit tx" where
  "insert_delegation input mission supervisor deps ready t taskId assignmentId attemptId
     principalId =
     thn (upsertPrincipal
            \<lparr> pr_id = principalId, pr_kind = runtime_principal_kind (di_runtime input),
              pr_provider = Some (di_runtime input), pr_external = None,
              pr_name = or_else (take 80 (di_goal input)) (di_title input),
              pr_state = Principal_disconnected, pr_created_at = t, pr_last_seen_at = None \<rparr>)
     (thn (insert_task ((new_task taskId (ms_id mission)
              (or_else (take 120 (di_goal input)) (di_title input)) (di_goal input)
              (di_acceptance input) (di_workMode input)
              (if ready then Task_READY else Task_BLOCKED) t)
              \<lparr> tk_parent := Some (as_task supervisor), tk_created_by := Some (as_id supervisor),
                tk_expected_artifacts := or_else [] (di_expectedArtifacts input),
                tk_write_scope := di_writeScope input \<rparr>))
     (thn (each_tx (\<lambda>d. insert_dependency \<lparr> dp_task = taskId, dp_on = d, dp_created_at = t \<rparr>) deps)
     (thn (insert_assignment (new_assignment assignmentId (ms_id mission) taskId
              (Some (as_id supervisor)) principalId attemptId Assignment_PENDING t))
     (thn (insert_attempt (planned_attempt attemptId assignmentId 1 (di_runtime input) (di_model input)))
     (bnd (fresh ''outbox'') (\<lambda>outboxId.
     thn (insert_outbox (pending_outbox outboxId (ms_id mission) Start_runtime assignmentId
            (di_key input)
            [(''assignmentId'', JStr assignmentId), (''attemptId'', JStr attemptId),
             (''reason'', JStr (di_reason input))] t))
     (appendEvent (ms_id mission) ''assignment.delegated'' (Some (di_actor input))
        (Some assignmentId) (Some attemptId)
        [(''supervisorAssignmentId'', JStr (as_id supervisor)), (''taskId'', JStr taskId),
         (''reason'', JStr (di_reason input)), (''idempotencyKey'', JStr (di_key input))])))))))"

definition delegateOne :: "delegate_input \<Rightarrow> delegate_result tx" where
  "delegateOne input =
     bnd (reads (outbox_aggregate (di_mission input) Start_runtime (di_key input))) (\<lambda>existing.
     case existing of Some a \<Rightarrow> delegateResult a True
     | None \<Rightarrow>
         bnd (delegation_guard input) (\<lambda>(mission, supervisor).
         bnd now (\<lambda>t.
         bnd (fresh ''mtask'') (\<lambda>taskId.
         bnd (fresh ''assign'') (\<lambda>assignmentId.
         bnd (fresh ''attempt'') (\<lambda>attemptId.
         bnd (fresh ''principal'') (\<lambda>principalId.
         let deps = js_unique (or_else [] (di_dependencies input)) in
         bnd (reads (listTasks (ms_id mission))) (\<lambda>ts.
         bnd (reads (listDependencies (ms_id mission))) (\<lambda>edges.
         thn (dependency_guard (assertDependencyInsertion (map tk_id ts)
                (map (\<lambda>d. (dp_task d, dp_on d)) edges) taskId deps))
         (thn (each_tx (\<lambda>d. case find (\<lambda>k. tk_id k = d) ts of
                   None \<Rightarrow> failure ''ORCHESTRATION_DEPENDENCY_NOT_FOUND''
                 | Some k \<Rightarrow> throw_if (tk_mission k \<noteq> ms_id mission)
                     ''ORCHESTRATION_DEPENDENCY_NOT_FOUND'') deps)
         (thn (insert_delegation input mission supervisor deps
                (list_all (task_complete ts) deps) t taskId assignmentId attemptId principalId)
         (thn (warn_overlap input mission supervisor assignmentId attemptId)
         (delegateResult assignmentId False)))))))))))))"

definition delegate :: "delegate_input \<Rightarrow> delegate_result tx" where
  "delegate input = delegateOne input"

end
