(* ===== verification/Fabric_Batch.thy ===== *)
theory Fabric_Batch
  imports Fabric_Delegation
begin

text \<open>
  \<open>delegateMany\<close>: the checks on the request-local keys, the depth-first order of the entries and
  the delegation of each entry with the tasks of its siblings as dependencies, all in one
  transaction. The visit ends because every nested call enters one more key.
\<close>

section \<open>Keys\<close>

definition batch_key :: "delegate_input \<Rightarrow> string option" where
  "batch_key input = (if truthy (di_batchKey input) then di_batchKey input else None)"

fun duplicate_key :: "string list \<Rightarrow> delegate_input list \<Rightarrow> bool" where
  "duplicate_key seen [] \<longleftrightarrow> False"
| "duplicate_key seen (i # is) \<longleftrightarrow>
     (case batch_key i of None \<Rightarrow> duplicate_key seen is
      | Some k \<Rightarrow> if k \<in> set seen then True else duplicate_key (k # seen) is)"

text \<open>\<open>keyed.get(key)\<close>, as the position of the entry.\<close>

fun key_position :: "delegate_input list \<Rightarrow> nat \<Rightarrow> string \<Rightarrow> nat option" where
  "key_position [] n k = None"
| "key_position (i # is) n k = (if batch_key i = Some k then Some n else key_position is (Suc n) k)"

definition depends_on :: "delegate_input \<Rightarrow> string list" where
  "depends_on input = or_else [] (di_dependsOnKeys input)"

definition missing_key :: "delegate_input list \<Rightarrow> bool" where
  "missing_key inputs \<longleftrightarrow>
     list_ex (\<lambda>i. list_ex (\<lambda>d. key_position inputs 0 d = None) (depends_on i)) inputs"

definition sibling_positions :: "delegate_input list \<Rightarrow> nat \<Rightarrow> nat list" where
  "sibling_positions inputs n =
     (if n < length inputs then List.map_filter (key_position inputs 0) (depends_on (inputs ! n)) else [])"

definition key_at :: "delegate_input list \<Rightarrow> nat \<Rightarrow> string option" where
  "key_at inputs n = (if n < length inputs then batch_key (inputs ! n) else None)"

definition batch_keys :: "delegate_input list \<Rightarrow> string set" where
  "batch_keys inputs = (\<Union>i\<in>set inputs. set_option (batch_key i))"

lemma finite_batch_keys [simp]: "finite (batch_keys inputs)"
  by (auto simp: batch_keys_def)

lemma key_position_Some:
  "key_position is n k = Some p \<Longrightarrow> n \<le> p \<and> p - n < length is \<and> batch_key (is ! (p - n)) = Some k"
proof (induction "is" n k arbitrary: p rule: key_position.induct)
  case (2 i "is" n k)
  show ?case
  proof (cases "batch_key i = Some k")
    case False
    with 2 have "Suc n \<le> p \<and> p - Suc n < length is \<and> batch_key (is ! (p - Suc n)) = Some k" by simp
    moreover from this have "p - n = Suc (p - Suc n)" by linarith
    ultimately show ?thesis by auto
  qed (use 2 in auto)
qed simp

lemma key_position_None: "key_position is n k = None \<longleftrightarrow> (\<forall>i\<in>set is. batch_key i \<noteq> Some k)"
  by (induction "is" n k rule: key_position.induct) auto

lemma sibling_positionsD:
  assumes "p \<in> set (sibling_positions inputs n)"
  obtains d where "n < length inputs" and "d \<in> set (depends_on (inputs ! n))"
    and "key_position inputs 0 d = Some p" and "p < length inputs" and "key_at inputs p = Some d"
proof -
  from assms obtain d where "n < length inputs" "d \<in> set (depends_on (inputs ! n))"
    and pos: "key_position inputs 0 d = Some p"
    by (auto simp: sibling_positions_def List.map_filter_def split: if_splits)
  moreover have "p < length inputs" and "key_at inputs p = Some d"
    using key_position_Some[OF pos] by (simp_all add: key_at_def)
  ultimately show thesis using that by blast
qed

lemma sibling_keyed: "p \<in> set (sibling_positions inputs n) \<Longrightarrow> key_at inputs p \<noteq> None"
  by (auto elim: sibling_positionsD)

lemma key_at_in: "key_at inputs n = Some k \<Longrightarrow> k \<in> batch_keys inputs"
  by (force simp: key_at_def batch_keys_def split: if_splits)

section \<open>Order\<close>

text \<open>The visit of a list of positions: \<open>path\<close> are the keys being visited, \<open>ordered\<close> the entries
  already ordered (the code's \<open>visited\<close> and \<open>ordered\<close> hold the same entries).\<close>

function visit ::
    "delegate_input list \<Rightarrow> string list \<Rightarrow> nat list \<Rightarrow> nat list \<Rightarrow> string + nat list" where
  "visit inputs path [] ordered = Inr ordered"
| "visit inputs path (n # ns) ordered =
     (if n \<in> set ordered then visit inputs path ns ordered
      else case key_at inputs n of
        None \<Rightarrow> and_then (visit inputs path (sibling_positions inputs n) ordered)
                 (\<lambda>ord. visit inputs path ns (ord @ [n]))
      | Some k \<Rightarrow>
          if k \<in> set path then Inl k
          else and_then (visit inputs (k # path) (sibling_positions inputs n) ordered)
                 (\<lambda>ord. visit inputs path ns (ord @ [n])))"
  by pat_completeness auto

definition unkeyed_in :: "delegate_input list \<Rightarrow> nat list \<Rightarrow> nat" where
  "unkeyed_in inputs ns = (if list_ex (\<lambda>n. key_at inputs n = None) ns then 1 else 0)"

lemma unkeyed_in_siblings [simp]: "unkeyed_in inputs (sibling_positions inputs n) = 0"
  by (auto simp: unkeyed_in_def list_ex_iff dest: sibling_keyed)

lemma unkeyed_in_tail: "unkeyed_in inputs ns \<le> unkeyed_in inputs (n # ns)"
  by (simp add: unkeyed_in_def)

lemma path_grows:
  assumes "key_at inputs n = Some k" and "k \<notin> set path"
  shows "card (batch_keys inputs - set (k # path)) < card (batch_keys inputs - set path)"
proof (rule psubset_card_mono)
  show "finite (batch_keys inputs - set path)" by simp
  show "batch_keys inputs - set (k # path) \<subset> batch_keys inputs - set path"
    using key_at_in[OF assms(1)] assms(2) by auto
qed

termination visit
proof (relation "measures
    [\<lambda>(inputs, path, ns, ordered). 2 * card (batch_keys inputs - set path) + unkeyed_in inputs ns,
     \<lambda>(inputs, path, ns, ordered). length ns]", goal_cases)
  case 1
  show ?case by simp
next
  case (2 inputs path n ns ordered)
  then show ?case using unkeyed_in_tail[of inputs ns n] by (auto simp: le_less)
next
  case (3 inputs path n ns ordered)
  then show ?case by (simp add: unkeyed_in_def[of inputs "n # ns"])
next
  case (4 inputs path n ns ordered ord)
  then show ?case using unkeyed_in_tail[of inputs ns n] by (auto simp: le_less)
next
  case (5 inputs path n ns ordered k)
  then show ?case using path_grows[of inputs n k path] by (simp add: unkeyed_in_def[of inputs "n # ns"])
next
  case (6 inputs path n ns ordered k ord)
  then show ?case using unkeyed_in_tail[of inputs ns n] by (auto simp: le_less)
qed

definition batch_order :: "delegate_input list \<Rightarrow> string + nat list" where
  "batch_order inputs = visit inputs [] [0..<length inputs] []"

section \<open>delegateMany\<close>

fun delegate_ordered ::
    "delegate_input list \<Rightarrow> nat list \<Rightarrow> (nat \<times> delegate_result) list \<Rightarrow>
     (nat \<times> delegate_result) list tx" where
  "delegate_ordered inputs [] results = ret results"
| "delegate_ordered inputs (n # ns) results =
     (let input = inputs ! n in
      bnd (collect_tx (\<lambda>d. require_row ''TypeError''
             (\<lambda>_. case key_position inputs 0 d of None \<Rightarrow> None | Some p \<Rightarrow> map_of results p))
           (depends_on input)) (\<lambda>siblings.
      bnd (delegateOne (input\<lparr> di_dependencies := Some (js_unique
             (or_else [] (di_dependencies input) @ map (\<lambda>r. tk_id (dr_task r)) siblings)) \<rparr>)) (\<lambda>result.
      let tagged = (if truthy (di_batchKey input)
                    then result\<lparr>dr_batchKey := di_batchKey input\<rparr> else result) in
      delegate_ordered inputs ns (results @ [(n, tagged)]))))"

definition delegateMany :: "delegate_input list \<Rightarrow> delegate_result list tx" where
  "delegateMany inputs =
     (if inputs = [] then ret [] else
      thn (throw_if (duplicate_key [] inputs) ''ORCHESTRATION_BATCH_KEY_DUPLICATE'')
      (thn (throw_if (missing_key inputs) ''ORCHESTRATION_BATCH_DEPENDENCY_NOT_FOUND'')
      (case batch_order inputs of
         Inl k \<Rightarrow> failure ''ORCHESTRATION_BATCH_DEPENDENCY_CYCLE''
       | Inr order \<Rightarrow>
           bnd (delegate_ordered inputs order []) (\<lambda>results.
           ret (map (\<lambda>n. the (map_of results n)) [0..<length inputs])))))"

end
