(* ===== verification/Fabric_Messages.thy ===== *)
theory Fabric_Messages
  imports Fabric_Delegation
begin

text \<open>
  Collaboration and evidence: messages and their deliveries, Action Requests and their
  resolutions, incidents, artifacts, runtime sessions and runtime events.
\<close>

section \<open>Messages\<close>

definition createMessage :: "message_input \<Rightarrow> message_row tx" where
  "createMessage input =
     bnd (requireMission (mi_mission input)) (\<lambda>_.
     thn (when_tx (truthy (mi_from input)) (assertAssignmentMission (the (mi_from input)) (mi_mission input)))
     (thn (when_tx (truthy (mi_to input)) (assertAssignmentMission (the (mi_to input)) (mi_mission input)))
     (thn (when_tx (truthy (mi_request input))
            (bnd (requireActionRequest (the (mi_request input))) (\<lambda>r.
             throw_if (rq_mission r \<noteq> mi_mission input) ''ORCHESTRATION_TARGET_OUTSIDE_MISSION'')))
     (insertMessage input None))))"

definition markMessagesRead :: "string \<Rightarrow> string list \<Rightarrow> unit tx" where
  "markMessagesRead assignmentId ids =
     (if ids = [] then ret () else
      bnd (requireAssignment assignmentId) (\<lambda>a.
      bnd now (\<lambda>t.
      thn (upd messages_update
             (\<lambda>m. mg_mission m = as_mission a \<and> mg_to m = Some assignmentId \<and> mg_id m \<in> set ids)
             (\<lambda>m. m\<lparr> mg_read_at := coalesce (mg_read_at m) (Some t) \<rparr>))
      (upd deliveries_update (\<lambda>d. dl_assignment d = assignmentId \<and> dl_message d \<in> set ids)
             (\<lambda>d. d\<lparr> dl_state := Delivery_observed,
                     dl_observed_at := coalesce (dl_observed_at d) (Some t),
                     dl_delivered_at := coalesce (dl_delivered_at d) (Some t),
                     dl_updated_at := t \<rparr>)))))"

definition markMessagesDelivered :: "string \<Rightarrow> string list \<Rightarrow> unit tx" where
  "markMessagesDelivered assignmentId ids =
     (if ids = [] then ret () else
      bnd (requireAssignment assignmentId) (\<lambda>a.
      bnd now (\<lambda>t.
      thn (upd messages_update
             (\<lambda>m. mg_mission m = as_mission a \<and> mg_to m = Some assignmentId \<and> mg_id m \<in> set ids)
             (\<lambda>m. m\<lparr> mg_delivered_at := coalesce (mg_delivered_at m) (Some t) \<rparr>))
      (upd deliveries_update (\<lambda>d. dl_assignment d = assignmentId \<and> dl_message d \<in> set ids)
             (\<lambda>d. d\<lparr> dl_state := (if dl_state d = Delivery_observed then dl_state d
                                  else Delivery_delivered),
                     dl_attempts := dl_attempts d + 1, dl_last_error := None,
                     dl_delivered_at := coalesce (dl_delivered_at d) (Some t),
                     dl_updated_at := t \<rparr>)))))"

definition markMessageDeliveryFailed :: "string \<Rightarrow> string list \<Rightarrow> string \<Rightarrow> unit tx" where
  "markMessageDeliveryFailed assignmentId ids error =
     (if ids = [] then ret () else
      bnd now (\<lambda>t.
      upd deliveries_update (\<lambda>d. dl_assignment d = assignmentId \<and> dl_message d \<in> set ids)
        (\<lambda>d. d\<lparr> dl_state := Delivery_failed, dl_attempts := dl_attempts d + 1,
                dl_last_error := Some error, dl_updated_at := t \<rparr>)))"

section \<open>Texts in payloads\<close>

fun request_kind_text :: "action_request_kind \<Rightarrow> string" where
  "request_kind_text Req_information = ''information''"
| "request_kind_text Req_review = ''review''"
| "request_kind_text Req_approval = ''approval''"
| "request_kind_text Req_choice = ''choice''"
| "request_kind_text Req_input = ''input''"
| "request_kind_text Req_recovery = ''recovery''"
| "request_kind_text Req_escalation = ''escalation''"

fun response_type_text :: "action_response_type \<Rightarrow> string" where
  "response_type_text Resp_text = ''text''"
| "response_type_text Resp_approval = ''approval''"
| "response_type_text Resp_choice = ''choice''"
| "response_type_text Resp_review = ''review''"
| "response_type_text Resp_recovery = ''recovery''"

fun blocking_scope_text :: "blocking_scope \<Rightarrow> string" where
  "blocking_scope_text Scope_none = ''none''"
| "blocking_scope_text Scope_assignment = ''assignment''"
| "blocking_scope_text Scope_task = ''task''"
| "blocking_scope_text Scope_mission = ''mission''"

fun incident_state_text :: "incident_state \<Rightarrow> string" where
  "incident_state_text Incident_OPEN = ''OPEN''"
| "incident_state_text Incident_RECOVERING = ''RECOVERING''"
| "incident_state_text Incident_RECOVERED = ''RECOVERED''"
| "incident_state_text Incident_NEEDS_ACTION = ''NEEDS_ACTION''"
| "incident_state_text Incident_CLOSED = ''CLOSED''"

fun incident_severity_text :: "incident_severity \<Rightarrow> string" where
  "incident_severity_text Sev_warning = ''warning''"
| "incident_severity_text Sev_error = ''error''"
| "incident_severity_text Sev_critical = ''critical''"

definition opt_member :: "string \<Rightarrow> ('a \<Rightarrow> json) \<Rightarrow> 'a option \<Rightarrow> (string \<times> json) list" where
  "opt_member k f v = (case v of None \<Rightarrow> [] | Some x \<Rightarrow> [(k, f x)])"

definition option_json :: "action_option \<Rightarrow> json" where
  "option_json o' = JObj ([(''id'', JStr (ao_id o')), (''label'', JStr (ao_label o'))] @
     opt_member ''description'' JStr (ao_description o') @
     opt_member ''recommended'' JBool (ao_recommended o') @
     opt_member ''danger'' JBool (ao_danger o'))"

section \<open>Action Requests\<close>

record create_request_input =
  cr_mission :: string
  cr_conversation :: "string option"
  cr_task :: "string option"
  cr_creator :: string
  cr_creator_assignment :: "string option"
  cr_assignee :: string
  cr_assignee_assignment :: "string option"
  cr_kind :: action_request_kind
  cr_title :: string
  cr_context :: "string option"
  cr_response_type :: action_response_type
  cr_options :: "action_option list option"
  cr_recommendation :: "string option"
  cr_impact :: "string option"
  cr_priority :: "message_priority option"
  cr_blocking_scope :: "blocking_scope option"
  cr_due_at :: "int option"
  cr_key :: string

record request_result =
  rr_request :: request_row
  rr_conversation :: conversation_row
  rr_message :: message_row
  rr_reused :: bool

text \<open>An Assignment named in a request belongs to the Mission and to the named principal.\<close>

definition request_party :: "string \<Rightarrow> string option \<Rightarrow> string \<Rightarrow> string \<Rightarrow> unit tx" where
  "request_party missionId assignmentId principalId code =
     when_tx (truthy assignmentId)
       (bnd (requireAssignment (the assignmentId)) (\<lambda>a.
        throw_if (as_mission a \<noteq> missionId \<or> as_assignee a \<noteq> principalId) code))"

definition request_guard :: "create_request_input \<Rightarrow> unit tx" where
  "request_guard input =
     bnd (requireMission (cr_mission input)) (\<lambda>_.
     bnd (requirePrincipal (cr_creator input)) (\<lambda>_.
     bnd (requirePrincipal (cr_assignee input)) (\<lambda>_.
     thn (request_party (cr_mission input) (cr_creator_assignment input) (cr_creator input)
            ''ORCHESTRATION_CALLER_MISMATCH'')
     (thn (request_party (cr_mission input) (cr_assignee_assignment input) (cr_assignee input)
            ''ORCHESTRATION_TARGET_MISMATCH'')
     (when_tx (truthy (cr_task input))
        (bnd (requireTask (the (cr_task input))) (\<lambda>t.
         throw_if (tk_mission t \<noteq> cr_mission input) ''ORCHESTRATION_TARGET_OUTSIDE_MISSION'')))))))"

definition reuse_request :: "request_row \<Rightarrow> request_result tx" where
  "reuse_request r =
     bnd (requireConversation (rq_conversation r)) (\<lambda>c.
     bnd (require_row ''ORCHESTRATION_MESSAGE_NOT_FOUND''
            (\<lambda>s. if truthy (rq_opening_message r) then getMessage (the (rq_opening_message r)) s
                 else None)) (\<lambda>m.
     ret \<lparr> rr_request = r, rr_conversation = c, rr_message = m, rr_reused = True \<rparr>))"

definition request_message :: "create_request_input \<Rightarrow> string \<Rightarrow> string \<Rightarrow> message_input" where
  "request_message input conversationId i =
     (plain_message (cr_mission input) (cr_creator_assignment input) (cr_assignee_assignment input)
        None (if cr_kind input \<in> set [Req_escalation, Req_recovery] then Msg_escalation
              else Msg_question) (cr_title input))
     \<lparr> mi_conversation := Some conversationId, mi_request := Some i,
       mi_priority := Some (or_else Prio_normal (cr_priority input)),
       mi_body := Some (or_else [] (cr_context input)),
       mi_payload := Some
         [(''actionRequestId'', JStr i), (''kind'', JStr (request_kind_text (cr_kind input))),
          (''responseType'', JStr (response_type_text (cr_response_type input))),
          (''options'', JArr (map option_json (or_else [] (cr_options input)))),
          (''recommendation'', json_opt_str (cr_recommendation input)),
          (''impact'', json_opt_str (cr_impact input)),
          (''blockingScope'', JStr (blocking_scope_text
             (or_else Scope_none (cr_blocking_scope input))))] \<rparr>"

definition createActionRequest :: "create_request_input \<Rightarrow> request_result tx" where
  "createActionRequest input =
     thn (request_guard input)
     (bnd (reads (\<lambda>s. find (\<lambda>r. rq_mission r = cr_mission input \<and> rq_creator r = cr_creator input \<and>
                              rq_key r = cr_key input) (requests s))) (\<lambda>existing.
     case existing of Some r \<Rightarrow> reuse_request r
     | None \<Rightarrow>
         bnd now (\<lambda>t.
         bnd (ensureConversation (cr_mission input) (cr_conversation input) (cr_title input)
                (Some (cr_creator input)) None) (\<lambda>conversation.
         thn (addConversationParticipant (cv_id conversation) (cr_creator input)
                (cr_creator_assignment input) t)
         (thn (addConversationParticipant (cv_id conversation) (cr_assignee input)
                (cr_assignee_assignment input) t)
         (bnd (fresh ''request'') (\<lambda>i.
         thn (insert_request
                \<lparr> rq_id = i, rq_mission = cr_mission input, rq_conversation = cv_id conversation,
                  rq_task = cr_task input, rq_creator = cr_creator input,
                  rq_creator_assignment = cr_creator_assignment input,
                  rq_assignee = cr_assignee input,
                  rq_assignee_assignment = cr_assignee_assignment input, rq_kind = cr_kind input,
                  rq_title = cr_title input, rq_context = or_else [] (cr_context input),
                  rq_response_type = cr_response_type input,
                  rq_options = or_else [] (cr_options input),
                  rq_recommendation = cr_recommendation input, rq_impact = cr_impact input,
                  rq_priority = or_else Prio_normal (cr_priority input),
                  rq_blocking_scope = or_else Scope_none (cr_blocking_scope input),
                  rq_status = Req_OPEN, rq_opening_message = None, rq_key = cr_key input,
                  rq_due_at = cr_due_at input, rq_resolved_at = None, rq_created_at = t,
                  rq_updated_at = t \<rparr>)
         (bnd (insertMessage (request_message input (cv_id conversation) i) None) (\<lambda>message.
         thn (upd requests_update (\<lambda>r. rq_id r = i) (\<lambda>r. r\<lparr> rq_opening_message := Some (mg_id message) \<rparr>))
         (thn (appendEvent (cr_mission input) ''actionRequest.created'' (Some (cr_creator input))
                (cr_creator_assignment input) None
                [(''requestId'', JStr i), (''assignedToPrincipalId'', JStr (cr_assignee input)),
                 (''assignedToAssignmentId'', json_opt_str (cr_assignee_assignment input)),
                 (''kind'', JStr (request_kind_text (cr_kind input))),
                 (''blockingScope'', JStr (blocking_scope_text
                    (or_else Scope_none (cr_blocking_scope input))))])
         (bnd (requireActionRequest i) (\<lambda>r.
         ret \<lparr> rr_request = r, rr_conversation = conversation, rr_message = message,
               rr_reused = False \<rparr>))))))))))))"

record resolve_input =
  vi_request :: string
  vi_principal :: string
  vi_assignment :: "string option"
  vi_outcome :: string
  vi_body :: "string option"
  vi_payload :: "(string \<times> json) list option"
  vi_rationale :: "string option"
  vi_key :: string

record resolve_result =
  vr_request :: request_row
  vr_resolution :: resolution_row
  vr_message :: "message_row option"
  vr_reused :: bool

definition js_space :: "char \<Rightarrow> bool" where
  "js_space c \<longleftrightarrow> (of_char c :: nat) \<in> set [9, 10, 11, 12, 13, 32, 160]"

definition js_trim :: "string \<Rightarrow> string" where
  "js_trim t = rev (dropWhile js_space (rev (dropWhile js_space t)))"

text \<open>\<open>a?.trim() || b?.label || c\<close>.\<close>

definition resolution_text :: "string option \<Rightarrow> action_option option \<Rightarrow> string \<Rightarrow> string" where
  "resolution_text body selected outcome =
     (if js_trim (or_else [] body) \<noteq> [] then js_trim (or_else [] body)
      else case selected of None \<Rightarrow> outcome | Some p \<Rightarrow> if ao_label p \<noteq> [] then ao_label p else outcome)"

definition record_resolution :: "resolve_input \<Rightarrow> request_row \<Rightarrow> resolve_result tx" where
  "record_resolution input r =
     bnd now (\<lambda>t.
     bnd (fresh ''resolution'') (\<lambda>i.
     thn (insert_resolution
            \<lparr> rz_id = i, rz_request = rq_id r, rz_resolver = vi_principal input,
              rz_resolver_assignment = vi_assignment input, rz_outcome = vi_outcome input,
              rz_body = or_else [] (vi_body input), rz_payload = map_option JObj (vi_payload input),
              rz_rationale = vi_rationale input, rz_key = vi_key input, rz_created_at = t \<rparr>)
     (thn (upd requests_update (\<lambda>q. rq_id q = rq_id r)
             (\<lambda>q. q\<lparr> rq_status := Req_RESOLVED, rq_resolved_at := Some t, rq_updated_at := t \<rparr>))
     (bnd (insertMessage
             ((plain_message (rq_mission r) (vi_assignment input) (rq_creator_assignment r) None
                 Msg_answer (''Resolved: '' @ rq_title r))
              \<lparr> mi_conversation := Some (rq_conversation r), mi_request := Some (rq_id r),
                mi_thread := rq_opening_message r, mi_priority := Some (rq_priority r),
                mi_body := Some (resolution_text (vi_body input)
                   (find (\<lambda>p. ao_id p = vi_outcome input) (rq_options r)) (vi_outcome input)),
                mi_payload := Some (json_spread
                   [(''actionRequestId'', JStr (rq_id r)), (''outcome'', JStr (vi_outcome input)),
                    (''rationale'', json_opt_str (vi_rationale input))]
                   (or_else [] (vi_payload input))) \<rparr>) None) (\<lambda>message.
     thn (upd incidents_update
            (\<lambda>n. ic_request n = Some (rq_id r) \<and> ic_state n \<notin> set [Incident_RECOVERED, Incident_CLOSED])
            (\<lambda>n. n\<lparr> ic_state := Incident_CLOSED, ic_resolved_at := Some t, ic_updated_at := t \<rparr>))
     (thn (appendEvent (rq_mission r) ''actionRequest.resolved'' (Some (vi_principal input))
            (vi_assignment input) None
            [(''requestId'', JStr (rq_id r)), (''resolutionId'', JStr i),
             (''outcome'', JStr (vi_outcome input))])
     (bnd (requireActionRequest (rq_id r)) (\<lambda>q.
     bnd (requireActionResolution i) (\<lambda>z.
     ret \<lparr> vr_request = q, vr_resolution = z, vr_message = Some message, vr_reused = False \<rparr>)))))))))"

definition resolveActionRequest :: "resolve_input \<Rightarrow> resolve_result tx" where
  "resolveActionRequest input =
     bnd (requireActionRequest (vi_request input)) (\<lambda>r.
     thn (throw_if (rq_assignee r \<noteq> vi_principal input \<or> rq_assignee_assignment r \<noteq> vi_assignment input)
            ''ORCHESTRATION_ACTION_ASSIGNEE_REQUIRED'')
     (bnd (reads (\<lambda>s. find (\<lambda>z. rz_request z = rq_id r) (resolutions s))) (\<lambda>existing.
     case existing of
       Some z \<Rightarrow>
         bnd (reads (\<lambda>s. find (\<lambda>m. mg_request m = Some (rq_id r) \<and> mg_type m = Msg_answer)
                            (rev (messages s)))) (\<lambda>message.
         ret \<lparr> vr_request = r, vr_resolution = z, vr_message = message, vr_reused = True \<rparr>)
     | None \<Rightarrow>
         thn (throw_if (rq_status r \<noteq> Req_OPEN) ''ORCHESTRATION_ACTION_NOT_OPEN'')
         (thn (throw_if (rq_options r \<noteq> [] \<and>
                 \<not> list_ex (\<lambda>p. ao_id p = vi_outcome input) (rq_options r))
                ''ORCHESTRATION_ACTION_INVALID_OUTCOME'')
         (record_resolution input r)))))"

section \<open>Incidents and artifacts\<close>

record incident_input =
  ii_mission :: string
  ii_assignment :: "string option"
  ii_attempt :: "string option"
  ii_kind :: string
  ii_severity :: incident_severity
  ii_state :: "incident_state option"
  ii_summary :: string
  ii_detail :: "json option"
  ii_automaticAttempts :: "nat option"
  ii_request :: "string option"

definition incident_guard :: "incident_input \<Rightarrow> unit tx" where
  "incident_guard input =
     bnd (requireMission (ii_mission input)) (\<lambda>_.
     thn (when_tx (truthy (ii_assignment input))
            (assertAssignmentMission (the (ii_assignment input)) (ii_mission input)))
     (when_tx (truthy (ii_attempt input))
        (bnd (requireAttempt (the (ii_attempt input))) (\<lambda>e.
         throw_if (truthy (ii_assignment input) \<and> Some (at_assignment e) \<noteq> ii_assignment input)
           ''ORCHESTRATION_ATTEMPT_MISMATCH''))))"

definition resolved_incident_time :: "incident_state \<Rightarrow> int \<Rightarrow> int option" where
  "resolved_incident_time st t =
     (if st \<in> set [Incident_RECOVERED, Incident_CLOSED] then Some t else None)"

definition update_incident :: "incident_input \<Rightarrow> incident_row \<Rightarrow> int \<Rightarrow> incident_row \<Rightarrow> incident_row" where
  "update_incident input existing t n =
     (let st = or_else (ic_state existing) (ii_state input) in
      n\<lparr> ic_severity := ii_severity input, ic_state := st, ic_summary := ii_summary input,
         ic_detail := ii_detail input,
         ic_automatic_attempts := or_else (ic_automatic_attempts existing) (ii_automaticAttempts input),
         ic_request := coalesce (ii_request input) (ic_request existing), ic_updated_at := t,
         ic_resolved_at := resolved_incident_time st t \<rparr>)"

definition recordIncident :: "incident_input \<Rightarrow> incident_row tx" where
  "recordIncident input =
     thn (incident_guard input)
     (bnd (reads (\<lambda>s. find (\<lambda>n. ic_mission n = ii_mission input \<and> ic_assignment n = ii_assignment input \<and>
               ic_attempt n = ii_attempt input \<and> ic_kind n = ii_kind input) (rev (incidents s)))) (\<lambda>existing.
     bnd now (\<lambda>t.
     case existing of
       Some e \<Rightarrow>
         bnd (reads (\<lambda>s. opt_key_of rq_id (requests s) (coalesce (ii_request input) (ic_request e)))) (\<lambda>refs.
         if \<not> refs then throw (Sql_foreign_key ''orchestration_incidents'')
         else thn (upd incidents_update (\<lambda>n. ic_id n = ic_id e) (update_incident input e t))
              (requireIncident (ic_id e)))
     | None \<Rightarrow>
         bnd (fresh ''incident'') (\<lambda>i.
         let st = or_else Incident_OPEN (ii_state input) in
         thn (insert_incident
                \<lparr> ic_id = i, ic_mission = ii_mission input, ic_assignment = ii_assignment input,
                  ic_attempt = ii_attempt input, ic_kind = ii_kind input,
                  ic_severity = ii_severity input, ic_state = st, ic_summary = ii_summary input,
                  ic_detail = ii_detail input,
                  ic_automatic_attempts = or_else 0 (ii_automaticAttempts input),
                  ic_request = ii_request input, ic_created_at = t, ic_updated_at = t,
                  ic_resolved_at = resolved_incident_time st t \<rparr>)
         (thn (appendEvent (ii_mission input) ''incident.recorded'' None (ii_assignment input)
                (ii_attempt input)
                [(''incidentId'', JStr i), (''kind'', JStr (ii_kind input)),
                 (''severity'', JStr (incident_severity_text (ii_severity input))),
                 (''state'', JStr (incident_state_text st))])
         (requireIncident i))))))"

type_synonym artifact_input = "string \<times> string \<times> json"

definition insert_artifact_for ::
    "string \<Rightarrow> string \<Rightarrow> string option \<Rightarrow> int \<Rightarrow> artifact_input \<Rightarrow> artifact_row tx" where
  "insert_artifact_for missionId assignmentId attemptId t artifact =
     (case artifact of (kind, label, reference) \<Rightarrow>
        bnd (fresh ''artifact'') (\<lambda>i.
        let r = \<lparr> af_id = i, af_mission = missionId, af_assignment = assignmentId,
                  af_attempt = attemptId, af_kind = kind, af_label = label,
                  af_reference = reference, af_created_at = t \<rparr> in
        thn (insert_artifact r) (ret r)))"

definition recordArtifacts ::
    "string \<Rightarrow> string \<Rightarrow> string option \<Rightarrow> artifact_input list \<Rightarrow> artifact_row list tx" where
  "recordArtifacts missionId assignmentId attemptId arts =
     bnd (requireAssignment assignmentId) (\<lambda>a.
     thn (throw_if (as_mission a \<noteq> missionId) ''ORCHESTRATION_TARGET_OUTSIDE_MISSION'')
     (thn (when_tx (truthy attemptId)
             (bnd (requireAttempt (the attemptId)) (\<lambda>e.
              throw_if (at_assignment e \<noteq> as_id a) ''ORCHESTRATION_ATTEMPT_MISMATCH'')))
     (bnd now (\<lambda>t.
     collect_tx (insert_artifact_for missionId (as_id a) attemptId t) arts))))"

section \<open>Runtime sessions and events\<close>

text \<open>\<open>ON CONFLICT(attempt_id) DO UPDATE\<close>: the identifier, the creation time and the time of the
  last event of an existing row stay.\<close>

definition upsertRuntimeSession ::
    "string \<Rightarrow> string \<Rightarrow> string \<Rightarrow> runtime_transport \<Rightarrow> string option \<Rightarrow> string option \<Rightarrow>
     runtime_session_state \<Rightarrow> string \<Rightarrow> json option \<Rightarrow> runtime_session_row option tx" where
  "upsertRuntimeSession i attemptId provider transport external processKey state cwd capabilities =
     bnd now (\<lambda>t.
     let r = \<lparr> rs_id = i, rs_attempt = attemptId, rs_provider = provider, rs_transport = transport,
               rs_external = external, rs_process_key = processKey, rs_state = state, rs_cwd = cwd,
               rs_capabilities = or_else (JObj []) capabilities, rs_last_event_at = Some t,
               rs_created_at = t, rs_updated_at = t \<rparr> in
     bnd (reads (getRuntimeSessionForAttempt attemptId)) (\<lambda>existing.
     thn (if existing = None then
            insert_row ''orchestration_runtime_sessions'' runtime_sessions runtime_sessions_update
              (new_key rs_id) runtime_session_refs r
          else upd runtime_sessions_update (\<lambda>q. rs_attempt q = attemptId)
                 (\<lambda>q. r\<lparr> rs_id := rs_id q, rs_created_at := rs_created_at q,
                         rs_last_event_at := rs_last_event_at q \<rparr>))
     (reads (getRuntimeSessionForAttempt attemptId))))"

definition updateRuntimeSessionState ::
    "string \<Rightarrow> runtime_session_state \<Rightarrow> runtime_session_row option tx" where
  "updateRuntimeSessionState attemptId state =
     bnd now (\<lambda>t.
     thn (upd runtime_sessions_update (\<lambda>q. rs_attempt q = attemptId)
            (\<lambda>q. q\<lparr> rs_state := state, rs_updated_at := t \<rparr>))
     (reads (getRuntimeSessionForAttempt attemptId)))"

definition next_runtime_sequence :: "string \<Rightarrow> fab \<Rightarrow> nat" where
  "next_runtime_sequence sessionId s =
     Max (insert 0 (re_sequence ` set (filter (\<lambda>e. re_session e = sessionId) (runtime_events s)))) + 1"

definition appendRuntimeEvent ::
    "string \<Rightarrow> string \<Rightarrow> string \<Rightarrow> json option \<Rightarrow> runtime_event_row tx" where
  "appendRuntimeEvent sessionId attemptId kind payload =
     bnd now (\<lambda>t.
     bnd (reads (next_runtime_sequence sessionId)) (\<lambda>n.
     bnd (fresh ''runtime_event'') (\<lambda>i.
     let r = \<lparr> re_id = i, re_session = sessionId, re_attempt = attemptId, re_sequence = n,
               re_kind = kind, re_payload = or_else (JObj []) payload, re_created_at = t \<rparr> in
     thn (insert_runtime_event r)
     (thn (upd runtime_sessions_update (\<lambda>q. rs_id q = sessionId)
             (\<lambda>q. q\<lparr> rs_last_event_at := Some t, rs_updated_at := t \<rparr>))
     (ret r)))))"

end
