(* ===== verification/Fabric_Attempts.thy ===== *)
theory Fabric_Attempts
  imports Fabric_Messages
begin

text \<open>
  The life of an execution Attempt: its binding to a runtime, retries, revisions, progress and
  heartbeats, completion, and the failures the runtime reports.
\<close>

section \<open>Runtime binding\<close>

record binding_input =
  bi_runtimeSessionId :: string
  bi_terminalId :: "string option"
  bi_leaseExpiresAt :: "int option"
  bi_artifacts :: "artifact_input list option"

definition binding_payload :: "binding_input \<Rightarrow> (string \<times> json) list" where
  "binding_payload input =
     [(''runtimeSessionId'', JStr (bi_runtimeSessionId input)),
      (''terminalId'', json_opt_str (bi_terminalId input))]"

definition bindRuntime :: "string \<Rightarrow> string \<Rightarrow> binding_input \<Rightarrow> attempt_row tx" where
  "bindRuntime assignmentId attemptId input =
     bnd (requireAssignment assignmentId) (\<lambda>a.
     thn (throw_if (as_active_attempt a \<noteq> Some attemptId) ''ORCHESTRATION_ATTEMPT_STALE'')
     (bnd now (\<lambda>t.
     thn (upd attempts_update
            (\<lambda>e. at_id e = attemptId \<and> at_assignment e = assignmentId \<and>
                 at_state e \<in> set [Attempt_PLANNED, Attempt_STARTING])
            (\<lambda>e. e\<lparr> at_session := Some (bi_runtimeSessionId input),
                    at_terminal := bi_terminalId input, at_state := Attempt_RUNNING,
                    at_lease := bi_leaseExpiresAt input, at_heartbeat := Some t,
                    at_started_at := coalesce (at_started_at e) (Some t) \<rparr>))
     (thn (upd assignments_update (\<lambda>r. as_id r = assignmentId)
             (\<lambda>r. r\<lparr> as_state := Assignment_ACTIVE, as_updated_at := t \<rparr>))
     (thn (when_tx (or_else [] (bi_artifacts input) \<noteq> [])
             (bnd (recordArtifacts (as_mission a) (as_id a) (Some attemptId)
                     (or_else [] (bi_artifacts input))) (\<lambda>_. ret ())))
     (thn (upd tasks_update (\<lambda>k. tk_id k = as_task a \<and> tk_state k = Task_READY)
             (\<lambda>k. k\<lparr> tk_state := Task_RUNNING, tk_updated_at := t, tk_version := tk_version k + 1 \<rparr>))
     (thn (appendEvent (as_mission a) ''attempt.started'' (Some (as_assignee a)) (Some (as_id a))
             (Some attemptId) (binding_payload input))
     (requireAttempt attemptId))))))))"

definition rebindActiveRuntime :: "string \<Rightarrow> binding_input \<Rightarrow> attempt_row tx" where
  "rebindActiveRuntime assignmentId input =
     bnd (requireAssignment assignmentId) (\<lambda>a.
     thn (throw_if (\<not> truthy (as_active_attempt a)) ''ORCHESTRATION_ATTEMPT_REQUIRED'')
     (bnd (requireAttempt (the (as_active_attempt a))) (\<lambda>e.
     thn (throw_if (isTerminalAttemptState (at_state e)) ''ORCHESTRATION_ATTEMPT_TERMINAL'')
     (bnd now (\<lambda>t.
     thn (upd attempts_update (\<lambda>r. at_id r = at_id e)
            (\<lambda>r. r\<lparr> at_session := Some (bi_runtimeSessionId input),
                    at_terminal := bi_terminalId input, at_heartbeat := Some t,
                    at_lease := coalesce (bi_leaseExpiresAt input) (at_lease e),
                    at_state := (if at_state r \<in> set [Attempt_PLANNED, Attempt_STARTING]
                                 then Attempt_RUNNING else at_state r) \<rparr>))
     (bnd (reads (hasActiveContinuationForOwner (as_id a))) (\<lambda>preserveDurableWait.
     thn (upd assignments_update
            (\<lambda>r. as_id r = as_id a \<and> as_state r \<in> set [Assignment_PENDING, Assignment_WAITING,
                                                     Assignment_ORPHANED, Assignment_FAILED])
            (\<lambda>r. r\<lparr> as_state := (if preserveDurableWait then Assignment_WAITING else Assignment_ACTIVE),
                    as_completed_at := None, as_updated_at := t \<rparr>))
     (thn (upd tasks_update (\<lambda>k. tk_id k = as_task a \<and> tk_state k \<in> set [Task_READY, Task_FAILED])
             (\<lambda>k. k\<lparr> tk_state := Task_RUNNING, tk_completed_at := None, tk_updated_at := t,
                     tk_version := tk_version k + 1 \<rparr>))
     (bnd (requireMission (as_mission a)) (\<lambda>mission.
     thn (when_tx (ms_lead mission = Some (as_id a))
            (upd missions_update (\<lambda>m. ms_id m = as_mission a \<and> ms_state m = Mission_BLOCKED)
               (\<lambda>m. m\<lparr> ms_state := Mission_RUNNING, ms_completed_at := None, ms_updated_at := t,
                       ms_version := ms_version m + 1 \<rparr>)))
     (thn (appendEvent (as_mission a) ''attempt.runtimeRebound'' (Some (as_assignee a))
             (Some (as_id a)) (Some (at_id e)) (binding_payload input))
     (requireAttempt (at_id e)))))))))))))"

definition markAttemptStarting :: "string \<Rightarrow> attempt_row tx" where
  "markAttemptStarting attemptId =
     bnd (requireAttempt attemptId) (\<lambda>e.
     bnd (requireAssignment (at_assignment e)) (\<lambda>a.
     thn (throw_if (as_active_attempt a \<noteq> Some (at_id e)) ''ORCHESTRATION_ATTEMPT_STALE'')
     (thn (when_tx (at_state e = Attempt_PLANNED)
             (upd attempts_update (\<lambda>r. at_id r = at_id e \<and> at_state r = Attempt_PLANNED)
                (\<lambda>r. r\<lparr> at_state := Attempt_STARTING \<rparr>)))
     (requireAttempt (at_id e)))))"

definition renewAttemptLease :: "string \<Rightarrow> int \<Rightarrow> attempt_row tx" where
  "renewAttemptLease attemptId lease =
     bnd (requireAttempt attemptId) (\<lambda>e.
     bnd now (\<lambda>t.
     thn (upd attempts_update
            (\<lambda>r. at_id r = at_id e \<and> at_state r \<in> set [Attempt_STARTING, Attempt_RUNNING, Attempt_WAITING])
            (\<lambda>r. r\<lparr> at_heartbeat := Some t, at_lease := Some lease \<rparr>))
     (requireAttempt (at_id e))))"

section \<open>Retry and revision\<close>

definition recover_incidents :: "string \<Rightarrow> int \<Rightarrow> unit tx" where
  "recover_incidents assignmentId t =
     upd incidents_update
       (\<lambda>n. ic_assignment n = Some assignmentId \<and> ic_state n \<in> set [Incident_OPEN, Incident_NEEDS_ACTION])
       (\<lambda>n. n\<lparr> ic_state := Incident_RECOVERING,
               ic_automatic_attempts := ic_automatic_attempts n + 1, ic_updated_at := t \<rparr>)"

definition createRetry :: "string \<Rightarrow> string option \<Rightarrow> attempt_row tx" where
  "createRetry assignmentId requestedRuntime =
     bnd (requireAssignment assignmentId) (\<lambda>a.
     bnd (attempt_if (as_active_attempt a)) (\<lambda>active.
     thn (throw_if (case active of None \<Rightarrow> False | Some e \<Rightarrow>
             at_state e \<notin> set [Attempt_FAILED, Attempt_TIMED_OUT, Attempt_CANCELLED, Attempt_STALE])
            ''ORCHESTRATION_ATTEMPT_ACTIVE'')
     (bnd (cancelOwnedContinuations (as_id a) (map_option at_id active) ''attempt_retry_planned'') (\<lambda>_.
     bnd (reads (last_ordinal assignmentId)) (\<lambda>ordinal.
     bnd (fresh ''attempt'') (\<lambda>attemptId.
     bnd now (\<lambda>t.
     let runtime = or_else ''managed'' (coalesce requestedRuntime (map_option at_runtime active)) in
     thn (insert_attempt (planned_attempt attemptId assignmentId (ordinal + 1) runtime
            (case active of None \<Rightarrow> None | Some e \<Rightarrow> at_model e)))
     (thn (upd assignments_update (\<lambda>r. as_id r = assignmentId)
             (\<lambda>r. r\<lparr> as_active_attempt := Some attemptId, as_state := Assignment_PENDING,
                     as_updated_at := t \<rparr>))
     (thn (upd tasks_update (\<lambda>k. tk_id k = as_task a)
             (\<lambda>k. k\<lparr> tk_state := Task_READY, tk_updated_at := t, tk_version := tk_version k + 1 \<rparr>))
     (thn (recover_incidents (as_id a) t)
     (bnd (fresh ''outbox'') (\<lambda>outboxId.
     thn (insert_outbox (pending_outbox outboxId (as_mission a) Start_runtime (as_id a)
            (as_id a @ '':retry:'' @ show_nat (ordinal + 1))
            [(''assignmentId'', JStr assignmentId), (''attemptId'', JStr attemptId),
             (''retry'', JBool True)] t))
     (thn (appendEvent (as_mission a) ''attempt.retryPlanned'' (Some (as_assignee a))
             (Some (as_id a)) (Some attemptId) [(''ordinal'', JNum (int (ordinal + 1)))])
     (requireAttempt attemptId))))))))))))))"

record revision_input =
  vn_mission :: string
  vn_actor :: "string option"
  vn_feedback :: string
  vn_key :: string

record revision_result =
  vo_assignment :: assignment_row
  vo_attempt :: attempt_row
  vo_reused :: bool

definition reuse_revision :: "string \<Rightarrow> revision_result tx" where
  "reuse_revision aggregateId =
     bnd (requireAssignment aggregateId) (\<lambda>a.
     thn (throw_if (\<not> truthy (as_active_attempt a)) ''ORCHESTRATION_ATTEMPT_REQUIRED'')
     (bnd (requireAttempt (the (as_active_attempt a))) (\<lambda>e.
     ret \<lparr> vo_assignment = a, vo_attempt = e, vo_reused = True \<rparr>)))"

definition start_revision :: "revision_input \<Rightarrow> mission_row \<Rightarrow> assignment_row \<Rightarrow> revision_result tx" where
  "start_revision input mission a =
     bnd (attempt_if (as_active_attempt a)) (\<lambda>previous.
     bnd (cancelOwnedContinuations (as_id a) (map_option at_id previous) ''mission_revision_requested'') (\<lambda>_.
     bnd (reads (last_ordinal (as_id a))) (\<lambda>ordinal.
     bnd (fresh ''attempt'') (\<lambda>attemptId.
     bnd now (\<lambda>t.
     thn (insert_attempt (planned_attempt attemptId (as_id a) (ordinal + 1)
            (or_else ''managed'' (map_option at_runtime previous))
            (case previous of None \<Rightarrow> None | Some e \<Rightarrow> at_model e)))
     (thn (upd assignments_update (\<lambda>r. as_id r = as_id a)
             (\<lambda>r. r\<lparr> as_active_attempt := Some attemptId, as_state := Assignment_PENDING,
                     as_completed_at := None, as_updated_at := t \<rparr>))
     (thn (upd tasks_update (\<lambda>k. tk_id k = as_task a)
             (\<lambda>k. k\<lparr> tk_state := Task_READY, tk_result := None, tk_completed_at := None,
                     tk_goal := tk_goal k @ [CHR 0x0A, CHR 0x0A] @ ''User requested revision:'' @
                                [CHR 0x0A] @ vn_feedback input,
                     tk_updated_at := t, tk_version := tk_version k + 1 \<rparr>))
     (thn (upd missions_update (\<lambda>m. ms_id m = ms_id mission)
             (\<lambda>m. m\<lparr> ms_state := Mission_RUNNING, ms_completed_at := None, ms_updated_at := t,
                     ms_version := ms_version m + 1 \<rparr>))
     (bnd (fresh ''outbox'') (\<lambda>outboxId.
     thn (insert_outbox (pending_outbox outboxId (ms_id mission) Start_runtime (as_id a) (vn_key input)
            [(''assignmentId'', JStr (as_id a)), (''attemptId'', JStr attemptId),
             (''reason'', JStr ''User requested changes during Mission review.'')] t))
     (bnd (insertMessage
            ((plain_message (ms_id mission) None (Some (as_id a)) (Some attemptId) Msg_assignment
                ''User requested changes'')
             \<lparr> mi_priority := Some Prio_high, mi_body := Some (vn_feedback input) \<rparr>) None) (\<lambda>_.
     thn (appendEvent (ms_id mission) ''mission.revisionRequested'' (vn_actor input) (Some (as_id a))
            (Some attemptId) [(''feedback'', JStr (vn_feedback input)),
                              (''idempotencyKey'', JStr (vn_key input))])
     (bnd (requireAssignment (as_id a)) (\<lambda>r.
     bnd (requireAttempt attemptId) (\<lambda>e.
     ret \<lparr> vo_assignment = r, vo_attempt = e, vo_reused = False \<rparr>)))))))))))))))"

definition requestRevision :: "revision_input \<Rightarrow> revision_result tx" where
  "requestRevision input =
     bnd (reads (outbox_aggregate (vn_mission input) Start_runtime (vn_key input))) (\<lambda>existing.
     case existing of Some aggregateId \<Rightarrow> reuse_revision aggregateId
     | None \<Rightarrow>
         bnd (requireMission (vn_mission input)) (\<lambda>mission.
         thn (throw_if (ms_state mission \<noteq> Mission_VERIFYING) ''ORCHESTRATION_MISSION_NOT_VERIFYING'')
         (thn (throw_if (\<not> truthy (ms_lead mission)) ''ORCHESTRATION_LEAD_REQUIRED'')
         (bnd (requireAssignment (the (ms_lead mission))) (\<lambda>a.
         start_revision input mission a)))))"

section \<open>Reports of the Agent\<close>

datatype lifecycle_result =
    Accepted message_row assignment_row task_row
  | Suppressed message_row string

record progress_input =
  pi_attempt :: string
  pi_principal :: string
  pi_phase :: string
  pi_summary :: string
  pi_completed :: "string list option"
  pi_remaining :: "string list option"
  pi_blockers :: "string list option"
  pi_leaseExpiresAt :: "int option"

text \<open>The message of a report goes to the supervisor; without authority it is suppressed and
  nothing else changes.\<close>

definition lifecycle_report ::
    "string \<Rightarrow> string \<Rightarrow> (assignment_row \<Rightarrow> message_input) \<Rightarrow>
     (attempt_row \<Rightarrow> assignment_row \<Rightarrow> message_row \<Rightarrow> lifecycle_result tx) \<Rightarrow> lifecycle_result tx" where
  "lifecycle_report attemptId principalId message_for accept =
     bnd (requireAttempt attemptId) (\<lambda>e.
     bnd (requireAssignment (at_assignment e)) (\<lambda>a.
     let authority = lifecycleAuthority a e principalId in
     bnd (insertMessage (message_for a) authority) (\<lambda>message.
     case authority of Some reason \<Rightarrow> ret (Suppressed message reason)
     | None \<Rightarrow> accept e a message)))"

definition accept_alive ::
    "string \<Rightarrow> int option \<Rightarrow> attempt_row \<Rightarrow> assignment_row \<Rightarrow> message_row \<Rightarrow> lifecycle_result tx" where
  "accept_alive principalId lease e a message =
     bnd now (\<lambda>t.
     thn (upd attempts_update
            (\<lambda>r. at_id r = at_id e \<and> at_state r \<in> set [Attempt_RUNNING, Attempt_WAITING])
            (\<lambda>r. r\<lparr> at_heartbeat := Some t, at_lease := coalesce lease (at_lease e) \<rparr>))
     (thn (upd principals_update (\<lambda>p. pr_id p = principalId)
             (\<lambda>p. p\<lparr> pr_state := Principal_active, pr_last_seen_at := Some t \<rparr>))
     (bnd (requireAssignment (as_id a)) (\<lambda>a'.
     bnd (requireTask (as_task a)) (\<lambda>k.
     ret (Accepted message a' k))))))"

definition recordProgress :: "progress_input \<Rightarrow> lifecycle_result tx" where
  "recordProgress input =
     lifecycle_report (pi_attempt input) (pi_principal input)
       (\<lambda>a. (plain_message (as_mission a) (Some (as_id a)) (as_supervisor a) (Some (pi_attempt input))
               Msg_progress (pi_phase input))
            \<lparr> mi_body := Some (pi_summary input),
              mi_payload := Some
                [(''completed'', JArr (map JStr (or_else [] (pi_completed input)))),
                 (''remaining'', JArr (map JStr (or_else [] (pi_remaining input)))),
                 (''blockers'', JArr (map JStr (or_else [] (pi_blockers input))))] \<rparr>)
       (accept_alive (pi_principal input) (pi_leaseExpiresAt input))"

definition recordHeartbeat :: "string \<Rightarrow> string \<Rightarrow> int option \<Rightarrow> lifecycle_result tx" where
  "recordHeartbeat attemptId principalId lease =
     lifecycle_report attemptId principalId
       (\<lambda>a. (plain_message (as_mission a) (Some (as_id a)) (as_supervisor a) (Some attemptId)
               Msg_heartbeat ''heartbeat'')
            \<lparr> mi_payload := Some [(''attemptId'', JStr attemptId)] \<rparr>)
       (accept_alive principalId lease)"

record complete_input =
  ci_attempt :: string
  ci_principal :: string
  ci_success :: bool
  ci_summary :: string
  ci_result :: "(string \<times> json) list option"
  ci_artifacts :: "artifact_input list option"
  ci_verification :: "(string \<times> (string \<times> json) list) list option"
  ci_filesModified :: "string list option"

definition outcome_text :: "bool \<Rightarrow> string" where
  "outcome_text success = (if success then ''success'' else ''failure'')"

definition complete_result :: "complete_input \<Rightarrow> json" where
  "complete_result input =
     JObj (or_else [(''summary'', JStr (ci_summary input))] (ci_result input))"

text \<open>A verification entry is its label and all its members.\<close>

definition completion_artifacts :: "complete_input \<Rightarrow> artifact_input list" where
  "completion_artifacts input =
     or_else [] (ci_artifacts input) @
     map (\<lambda>p. (''file-change'', p, JObj [(''path'', JStr p)]))
       (js_unique (or_else [] (ci_filesModified input))) @
     map (\<lambda>(label, members). (''verification'', label, JObj members))
       (or_else [] (ci_verification input))"

definition write_completion :: "complete_input \<Rightarrow> attempt_row \<Rightarrow> assignment_row \<Rightarrow> int \<Rightarrow> unit tx" where
  "write_completion input e a t =
     (let success = ci_success input; outcome = Some (complete_result input) in
      thn (upd attempts_update (\<lambda>r. at_id r = at_id e)
             (\<lambda>r. r\<lparr> at_state := (if success then Attempt_SUCCEEDED else Attempt_FAILED),
                     at_result := (if success then outcome else None),
                     at_failure_code := (if success then None else Some ''agent_reported_failure''),
                     at_failure := (if success then None else outcome),
                     at_ended_at := Some t \<rparr>))
      (thn (upd assignments_update (\<lambda>r. as_id r = as_id a)
              (\<lambda>r. r\<lparr> as_state := (if success then Assignment_COMPLETED else Assignment_FAILED),
                      as_updated_at := t, as_completed_at := Some t \<rparr>))
      (thn (upd tasks_update (\<lambda>k. tk_id k = as_task a)
              (\<lambda>k. k\<lparr> tk_state := (if success then Task_COMPLETED else Task_FAILED),
                      tk_result := outcome, tk_version := tk_version k + 1,
                      tk_updated_at := t, tk_completed_at := Some t \<rparr>))
      (bnd (collect_tx (insert_artifact_for (as_mission a) (as_id a) (Some (at_id e)) t)
              (completion_artifacts input)) (\<lambda>_. ret ())))))"

definition plain_incident ::
    "string \<Rightarrow> string \<Rightarrow> string \<Rightarrow> string \<Rightarrow> incident_severity \<Rightarrow> string \<Rightarrow> json \<Rightarrow> incident_input" where
  "plain_incident missionId assignmentId attemptId kind severity summary detail =
     \<lparr> ii_mission = missionId, ii_assignment = Some assignmentId, ii_attempt = Some attemptId,
       ii_kind = kind, ii_severity = severity, ii_state = None, ii_summary = summary,
       ii_detail = Some detail, ii_automaticAttempts = None, ii_request = None \<rparr>"

definition settle_completion :: "complete_input \<Rightarrow> attempt_row \<Rightarrow> assignment_row \<Rightarrow> int \<Rightarrow> unit tx" where
  "settle_completion input e a t =
     (if ci_success input then
        thn (promoteReadyTasks (as_mission a) (as_task a) t)
        (thn (reconcileMissionState (as_mission a) t)
        (upd incidents_update
           (\<lambda>n. ic_assignment n = Some (as_id a) \<and> ic_state n \<in> set [Incident_OPEN, Incident_RECOVERING])
           (\<lambda>n. n\<lparr> ic_state := Incident_RECOVERED, ic_resolved_at := Some t, ic_updated_at := t \<rparr>)))
      else
        bnd (recordIncident (plain_incident (as_mission a) (as_id a) (at_id e)
               ''agent-reported-failure'' Sev_error (ci_summary input) (complete_result input))) (\<lambda>_.
        ret ()))"

definition accept_completion ::
    "complete_input \<Rightarrow> attempt_row \<Rightarrow> assignment_row \<Rightarrow> message_row \<Rightarrow> lifecycle_result tx" where
  "accept_completion input e a message =
     bnd now (\<lambda>t.
     thn (write_completion input e a t)
     (thn (settle_completion input e a t)
     (thn (appendEvent (as_mission a)
             (if ci_success input then ''attempt.completed'' else ''attempt.failed'')
             (Some (ci_principal input)) (Some (as_id a)) (Some (at_id e))
             [(''summary'', JStr (ci_summary input))])
     (bnd (requireAssignment (as_id a)) (\<lambda>completed.
     bnd (cancelOwnedContinuations (as_id a) (Some (at_id e)) ''owner_attempt_completed'') (\<lambda>_.
     thn (satisfyContinuationsFromAssignment completed)
     (bnd (requireTask (as_task a)) (\<lambda>k.
     ret (Accepted message completed k)))))))))"

definition completeAttempt :: "complete_input \<Rightarrow> lifecycle_result tx" where
  "completeAttempt input =
     lifecycle_report (ci_attempt input) (ci_principal input)
       (\<lambda>a. (plain_message (as_mission a) (Some (as_id a)) (as_supervisor a) (Some (ci_attempt input))
               Msg_completion (outcome_text (ci_success input)))
            \<lparr> mi_body := Some (ci_summary input),
              mi_payload := Some (json_spread
                [(''outcome'', JStr (outcome_text (ci_success input)))] (or_else [] (ci_result input))) \<rparr>)
       (accept_completion input)"

section \<open>Failures the runtime reports\<close>

definition runtime_failure_payload :: "string \<Rightarrow> json \<Rightarrow> (string \<times> json) list" where
  "runtime_failure_payload code failure' = [(''code'', JStr code), (''failure'', failure')]"

definition write_runtime_failure ::
    "string \<Rightarrow> json \<Rightarrow> attempt_row \<Rightarrow> assignment_row \<Rightarrow> int \<Rightarrow> unit tx" where
  "write_runtime_failure code failure' e a t =
     thn (upd attempts_update (\<lambda>r. at_id r = at_id e)
            (\<lambda>r. r\<lparr> at_state := Attempt_FAILED, at_failure_code := Some code,
                    at_failure := Some failure', at_ended_at := Some t \<rparr>))
     (thn (upd assignments_update (\<lambda>r. as_id r = as_id a)
             (\<lambda>r. r\<lparr> as_state := Assignment_FAILED, as_updated_at := t, as_completed_at := Some t \<rparr>))
     (upd tasks_update (\<lambda>k. tk_id k = as_task a)
             (\<lambda>k. k\<lparr> tk_state := Task_FAILED, tk_updated_at := t, tk_completed_at := Some t,
                     tk_version := tk_version k + 1 \<rparr>)))"

definition failAttemptFromRuntime :: "string \<Rightarrow> string \<Rightarrow> json \<Rightarrow> assignment_row tx" where
  "failAttemptFromRuntime attemptId code failure' =
     bnd (requireAttempt attemptId) (\<lambda>e.
     bnd (requireAssignment (at_assignment e)) (\<lambda>a.
     if as_active_attempt a \<noteq> Some (at_id e) \<or>
        at_state e \<notin> set [Attempt_STARTING, Attempt_RUNNING, Attempt_WAITING] then ret a else
     bnd now (\<lambda>t.
     thn (write_runtime_failure code failure' e a t)
     (thn (appendEvent (as_mission a) ''attempt.runtimeFailed'' None (Some (as_id a)) (Some (at_id e))
             (runtime_failure_payload code failure'))
     (bnd (recordIncident (plain_incident (as_mission a) (as_id a) (at_id e) code Sev_error
             ''Agent runtime failed'' failure')) (\<lambda>_.
     bnd (requireAssignment (as_id a)) (\<lambda>failed.
     bnd (cancelOwnedContinuations (as_id a) (Some (at_id e)) ''owner_runtime_failed'') (\<lambda>_.
     thn (satisfyContinuationsFromAssignment failed)
     (ret failed)))))))))"

text \<open>\<open>payload: failure\<close> is the object the caller passes.\<close>

definition orphanAttemptFromRuntime ::
    "string \<Rightarrow> string \<Rightarrow> (string \<times> json) list \<Rightarrow> assignment_row tx" where
  "orphanAttemptFromRuntime attemptId code failure' =
     bnd (requireAttempt attemptId) (\<lambda>e.
     bnd (requireAssignment (at_assignment e)) (\<lambda>a.
     if as_active_attempt a \<noteq> Some (at_id e) then ret a else
     bnd now (\<lambda>t.
     thn (upd attempts_update
            (\<lambda>r. at_id r = at_id e \<and> at_state r \<in> set [Attempt_STARTING, Attempt_RUNNING, Attempt_WAITING])
            (\<lambda>r. r\<lparr> at_state := Attempt_STALE, at_ended_at := Some t, at_failure_code := Some code,
                    at_failure := Some (JObj failure') \<rparr>))
     (thn (upd assignments_update (\<lambda>r. as_id r = as_id a)
             (\<lambda>r. r\<lparr> as_state := Assignment_ORPHANED, as_updated_at := t \<rparr>))
     (bnd (requireMission (as_mission a)) (\<lambda>mission.
     thn (when_tx (ms_lead mission = Some (as_id a) \<and> ms_state mission = Mission_RUNNING)
            (upd missions_update (\<lambda>m. ms_id m = ms_id mission)
               (\<lambda>m. m\<lparr> ms_state := Mission_BLOCKED, ms_updated_at := t,
                       ms_version := ms_version m + 1 \<rparr>)))
     (bnd (insertMessage
            ((plain_message (as_mission a) (Some (as_id a)) (as_supervisor a) (Some (at_id e))
                Msg_escalation ''Runtime lost'')
             \<lparr> mi_priority := Some Prio_urgent,
               mi_body := Some (''Runtime reconciliation failed: '' @ code),
               mi_payload := Some failure' \<rparr>) None) (\<lambda>_.
     thn (appendEvent (as_mission a) ''attempt.orphaned'' None (Some (as_id a)) (Some (at_id e))
            (runtime_failure_payload code (JObj failure')))
     (bnd (recordIncident (plain_incident (as_mission a) (as_id a) (at_id e) code
             (if ms_lead mission = Some (as_id a) then Sev_critical else Sev_error)
             ''Agent runtime disconnected'' (JObj failure'))) (\<lambda>_.
     bnd (requireAssignment (as_id a)) (\<lambda>orphaned.
     bnd (cancelOwnedContinuations (as_id a) (Some (at_id e)) ''owner_runtime_orphaned'') (\<lambda>_.
     thn (satisfyContinuationsFromAssignment orphaned)
     (ret orphaned)))))))))))))"

end
