(* ===== verification/Fabric_Assignments.thy ===== *)
theory Fabric_Assignments
  imports Fabric_Attempts
begin

text \<open>
  The control of Assignments and Missions: pause and resume, cancellation, the promotion of a
  Lead, reassignment, the explicit Mission states and the startup sweep over Missions whose
  Assignments are exhausted.
\<close>

definition assignment_guard :: "assignment_state \<Rightarrow> assignment_state \<Rightarrow> unit tx" where
  "assignment_guard from to = illegal_transition_guard (assertAssignmentTransition from to)"

definition pauseAssignment :: "string \<Rightarrow> bool \<Rightarrow> string option \<Rightarrow> assignment_row tx" where
  "pauseAssignment assignmentId paused actor =
     bnd (requireAssignment assignmentId) (\<lambda>a.
     bnd (reads (hasActiveContinuationForOwner (as_id a))) (\<lambda>waiting.
     let next = (if paused then Assignment_PAUSED
                 else if waiting then Assignment_WAITING
                 else if truthy (as_active_attempt a) then Assignment_ACTIVE
                 else Assignment_PENDING) in
     thn (assignment_guard (as_state a) next)
     (bnd now (\<lambda>t.
     thn (upd assignments_update (\<lambda>r. as_id r = as_id a)
            (\<lambda>r. r\<lparr> as_state := next, as_updated_at := t \<rparr>))
     (thn (appendEvent (as_mission a) (if paused then ''assignment.paused'' else ''assignment.resumed'')
             actor (Some (as_id a)) (as_active_attempt a) [])
     (requireAssignment (as_id a)))))))"

section \<open>Cancellation\<close>

definition cancel_runtime_payload :: "string \<Rightarrow> string \<Rightarrow> string \<Rightarrow> (string \<times> json) list" where
  "cancel_runtime_payload assignmentId attemptId reason =
     [(''assignmentId'', JStr assignmentId), (''attemptId'', JStr attemptId), (''reason'', JStr reason)]"

definition cancel_active_attempt :: "assignment_row \<Rightarrow> string \<Rightarrow> int \<Rightarrow> unit tx" where
  "cancel_active_attempt a reason t =
     (if \<not> truthy (as_active_attempt a) then ret () else
      let attemptId = the (as_active_attempt a) in
      thn (upd attempts_update
             (\<lambda>e. at_id e = attemptId \<and> \<not> isTerminalAttemptState (at_state e))
             (\<lambda>e. e\<lparr> at_state := Attempt_CANCELLED, at_ended_at := Some t,
                     at_failure_code := Some ''cancelled'',
                     at_failure := Some (JObj [(''reason'', JStr reason)]) \<rparr>))
      (bnd (requireAttempt attemptId) (\<lambda>e.
      when_tx (truthy (at_session e))
        (bnd (fresh ''outbox'') (\<lambda>outboxId.
         insert_outbox_or_ignore (pending_outbox outboxId (as_mission a) Cancel_runtime (as_id a)
           (as_id a @ '':cancel:'' @ attemptId)
           (cancel_runtime_payload (as_id a) attemptId reason) t))))))"

definition cancelAssignment :: "string \<Rightarrow> string option \<Rightarrow> string \<Rightarrow> assignment_row tx" where
  "cancelAssignment assignmentId actor reason =
     bnd (requireAssignment assignmentId) (\<lambda>a.
     thn (assignment_guard (as_state a) Assignment_CANCELLED)
     (bnd now (\<lambda>t.
     thn (cancel_active_attempt a reason t)
     (thn (upd assignments_update (\<lambda>r. as_id r = as_id a)
             (\<lambda>r. r\<lparr> as_state := Assignment_CANCELLED, as_updated_at := t, as_completed_at := Some t \<rparr>))
     (thn (upd tasks_update (\<lambda>k. tk_id k = as_task a)
             (\<lambda>k. k\<lparr> tk_state := Task_CANCELLED, tk_updated_at := t, tk_completed_at := Some t,
                     tk_version := tk_version k + 1 \<rparr>))
     (thn (appendEvent (as_mission a) ''assignment.cancelled'' actor (Some (as_id a))
             (as_active_attempt a) [(''reason'', JStr reason)])
     (bnd (requireAssignment (as_id a)) (\<lambda>cancelled.
     bnd (cancelOwnedContinuations (as_id a) (as_active_attempt a) ''owner_assignment_cancelled'') (\<lambda>_.
     thn (satisfyContinuationsFromAssignment cancelled)
     (bnd (cancelMissionWhenAssignmentsExhausted (as_mission a) actor reason t) (\<lambda>_.
     ret cancelled)))))))))))"

section \<open>Lead and assignee\<close>

definition promoteLead :: "string \<Rightarrow> string \<Rightarrow> string option \<Rightarrow> string \<Rightarrow> mission_snapshot tx" where
  "promoteLead missionId assignmentId actor reason =
     bnd (requireMission missionId) (\<lambda>mission.
     bnd (requireAssignment assignmentId) (\<lambda>nextLead.
     thn (throw_if (as_mission nextLead \<noteq> ms_id mission) ''ORCHESTRATION_TARGET_OUTSIDE_MISSION'')
     (thn (throw_if (as_state nextLead \<notin> set LIVE_ASSIGNMENT_STATES) ''ORCHESTRATION_LEAD_NOT_AVAILABLE'')
     (if ms_lead mission = Some (as_id nextLead) then snapshot (ms_id mission) else
      bnd (assignment_if (ms_lead mission)) (\<lambda>previousLead.
      bnd now (\<lambda>t.
      thn (upd assignments_update (\<lambda>r. as_id r = as_id nextLead)
             (\<lambda>r. r\<lparr> as_supervisor := None, as_updated_at := t \<rparr>))
      (thn (case previousLead of None \<Rightarrow> ret () | Some p \<Rightarrow>
              when_tx (as_id p \<noteq> as_id nextLead)
                (upd assignments_update (\<lambda>r. as_id r = as_id p)
                   (\<lambda>r. r\<lparr> as_supervisor := Some (as_id nextLead), as_updated_at := t \<rparr>)))
      (thn (upd missions_update (\<lambda>m. ms_id m = ms_id mission)
              (\<lambda>m. m\<lparr> ms_lead := Some (as_id nextLead),
                      ms_state := (if ms_state m = Mission_BLOCKED then Mission_RUNNING else ms_state m),
                      ms_version := ms_version m + 1, ms_updated_at := t \<rparr>))
      (thn (appendEvent (ms_id mission) ''mission.leadPromoted'' actor (Some (as_id nextLead))
              (as_active_attempt nextLead)
              [(''previousLeadAssignmentId'', json_opt_str (map_option as_id previousLead)),
               (''reason'', JStr reason)])
      (snapshot (ms_id mission)))))))))))"

record assignee_input =
  ai_principalId :: "string option"
  ai_kind :: principal_kind
  ai_provider :: "string option"
  ai_externalIdentity :: "string option"
  ai_displayName :: string

record reassign_input =
  ri'_assignment :: string
  ri'_actor :: "string option"
  ri'_assignee :: assignee_input
  ri'_runtime :: "string option"
  ri'_model :: "string option"
  ri'_reason :: string

definition retire_attempt :: "assignment_row \<Rightarrow> attempt_row option \<Rightarrow> string \<Rightarrow> int \<Rightarrow> unit tx" where
  "retire_attempt a active reason t =
     (case active of None \<Rightarrow> ret () | Some e \<Rightarrow>
        when_tx (\<not> isTerminalAttemptState (at_state e))
          (thn (upd attempts_update (\<lambda>r. at_id r = at_id e)
                  (\<lambda>r. r\<lparr> at_state := Attempt_STALE, at_ended_at := Some t,
                          at_failure_code := Some ''reassigned'',
                          at_failure := Some (JObj [(''reason'', JStr reason)]) \<rparr>))
           (when_tx (truthy (at_session e))
              (bnd (fresh ''outbox'') (\<lambda>outboxId.
               insert_outbox_or_ignore (pending_outbox outboxId (as_mission a) Cancel_runtime (as_id a)
                 (as_id a @ '':reassign-cancel:'' @ at_id e)
                 (cancel_runtime_payload (as_id a) (at_id e) reason) t))))))"

text \<open>The task waits again while a dependency is incomplete.\<close>

definition reopen_task :: "string \<Rightarrow> int \<Rightarrow> unit tx" where
  "reopen_task taskId t =
     bnd (reads (incomplete_dependencies taskId)) (\<lambda>incomplete.
     upd tasks_update (\<lambda>k. tk_id k = taskId)
       (\<lambda>k. k\<lparr> tk_state := (if incomplete > 0 then Task_BLOCKED else Task_READY),
               tk_completed_at := None, tk_updated_at := t, tk_version := tk_version k + 1 \<rparr>))"

definition reassign :: "reassign_input \<Rightarrow> (assignment_row \<times> attempt_row) tx" where
  "reassign input =
     bnd (requireAssignment (ri'_assignment input)) (\<lambda>a.
     thn (throw_if (as_state a \<in> set [Assignment_COMPLETED, Assignment_CANCELLED])
            ''ORCHESTRATION_ASSIGNMENT_TERMINAL'')
     (bnd (attempt_if (as_active_attempt a)) (\<lambda>active.
     bnd (cancelOwnedContinuations (as_id a) (map_option at_id active) ''assignment_reassigned'') (\<lambda>_.
     bnd now (\<lambda>t.
     bnd (case ai_principalId (ri'_assignee input) of Some p \<Rightarrow> ret p | None \<Rightarrow> fresh ''principal'') (\<lambda>principalId.
     thn (upsertPrincipal
            \<lparr> pr_id = principalId, pr_kind = ai_kind (ri'_assignee input),
              pr_provider = ai_provider (ri'_assignee input),
              pr_external = ai_externalIdentity (ri'_assignee input),
              pr_name = ai_displayName (ri'_assignee input), pr_state = Principal_disconnected,
              pr_created_at = t, pr_last_seen_at = None \<rparr>)
     (thn (retire_attempt a active (ri'_reason input) t)
     (bnd (reads (last_ordinal (as_id a))) (\<lambda>ordinal.
     bnd (fresh ''attempt'') (\<lambda>attemptId.
     thn (insert_attempt (planned_attempt attemptId (as_id a) (ordinal + 1)
            (or_else ''managed'' (coalesce (ri'_runtime input) (map_option at_runtime active)))
            (coalesce (ri'_model input) (case active of None \<Rightarrow> None | Some e \<Rightarrow> at_model e))))
     (thn (upd assignments_update (\<lambda>r. as_id r = as_id a)
             (\<lambda>r. r\<lparr> as_assignee := principalId, as_active_attempt := Some attemptId,
                     as_state := Assignment_PENDING, as_completed_at := None, as_updated_at := t \<rparr>))
     (thn (reopen_task (as_task a) t)
     (thn (recover_incidents (as_id a) t)
     (bnd (fresh ''outbox'') (\<lambda>outboxId.
     thn (insert_outbox (pending_outbox outboxId (as_mission a) Start_runtime (as_id a)
            (as_id a @ '':reassign:'' @ attemptId)
            (cancel_runtime_payload (as_id a) attemptId (ri'_reason input)) t))
     (thn (appendEvent (as_mission a) ''assignment.reassigned'' (ri'_actor input) (Some (as_id a))
             (Some attemptId) [(''principalId'', JStr principalId), (''reason'', JStr (ri'_reason input))])
     (bnd (requireAssignment (as_id a)) (\<lambda>a'.
     bnd (requireAttempt attemptId) (\<lambda>e.
     ret (a', e))))))))))))))))))))"

section \<open>Mission states\<close>

fun mission_state_text :: "mission_state \<Rightarrow> string" where
  "mission_state_text Mission_PLANNING = ''planning''"
| "mission_state_text Mission_RUNNING = ''running''"
| "mission_state_text Mission_BLOCKED = ''blocked''"
| "mission_state_text Mission_VERIFYING = ''verifying''"
| "mission_state_text Mission_COMPLETED = ''completed''"
| "mission_state_text Mission_FAILED = ''failed''"
| "mission_state_text Mission_CANCELLED = ''cancelled''"

definition setMissionState ::
    "string \<Rightarrow> mission_state \<Rightarrow> string option \<Rightarrow> string \<Rightarrow> mission_row tx" where
  "setMissionState missionId state actor reason =
     bnd (requireMission missionId) (\<lambda>mission.
     if ms_state mission = state then ret mission else
     thn (illegal_transition_guard (assertMissionTransition (ms_state mission) state))
     (bnd now (\<lambda>t.
     thn (upd missions_update (\<lambda>m. ms_id m = missionId)
            (\<lambda>m. m\<lparr> ms_state := state, ms_version := ms_version m + 1, ms_updated_at := t,
                    ms_completed_at := (if state \<in> set TERMINAL_MISSION_STATES then Some t else None) \<rparr>))
     (thn (appendEvent missionId (''mission.'' @ mission_state_text state) actor None None
             [(''reason'', JStr reason)])
     (requireMission missionId)))))"

definition exhausted_candidates :: "fab \<Rightarrow> string list" where
  "exhausted_candidates s =
     map ms_id (filter (\<lambda>m. assignments_in (ms_id m) [Assignment_CANCELLED] s > 0 \<and>
         assignments_in (ms_id m) LIVE_ASSIGNMENT_STATES s = 0)
       (listRecoverableMissions s))"

definition reconcileMissionsWithoutActiveAssignments :: "string list tx" where
  "reconcileMissionsWithoutActiveAssignments =
     bnd (reads exhausted_candidates) (\<lambda>candidates.
     bnd now (\<lambda>t.
     bnd (collect_tx (\<lambda>i. bnd (cancelMissionWhenAssignmentsExhausted i None
            ''All active Mission Sessions were stopped.'' t) (\<lambda>cancelled.
          ret (if cancelled then [i] else []))) candidates) (\<lambda>ids.
     ret (concat ids))))"

end
