(* ===== verification/Fabric_Continuations.thy ===== *)
theory Fabric_Continuations
  imports Fabric_Messages
begin

text \<open>
  Durable waits: an Attempt parks on conditions (\<open>armContinuation\<close>), a satisfied or overdue
  continuation becomes ready with one resume intent, the dispatcher claims and delivers the
  intent, and the resumed Attempt consumes the continuation. Startup recovers interrupted and
  legacy deliveries (\<open>recoverAndReconcileContinuations\<close>).
\<close>

section \<open>Arming\<close>

datatype continuation_condition =
    Terminal_condition string "assignment_state list option"
  | Message_condition "string option" "message_type list option" "string option"

record arm_input =
  ar_mission :: string
  ar_owner :: string
  ar_attempt :: string
  ar_mode :: continuation_mode
  ar_conditions :: "continuation_condition list"
  ar_reason :: string
  ar_cursor :: "int option"
  ar_deadline :: "int option"
  ar_key :: string

record arm_result =
  av_bundle :: continuation_bundle
  av_reused :: bool

definition condition_guard :: "string \<Rightarrow> continuation_condition \<Rightarrow> unit tx" where
  "condition_guard missionId condition =
     (case condition of
        Terminal_condition a _ \<Rightarrow> assertAssignmentMission a missionId
      | Message_condition from _ _ \<Rightarrow>
          when_tx (truthy from) (assertAssignmentMission (the from) missionId))"

definition DEFAULT_TERMINAL_STATES :: "assignment_state list" where
  "DEFAULT_TERMINAL_STATES =
     [Assignment_COMPLETED, Assignment_FAILED, Assignment_CANCELLED, Assignment_ORPHANED]"

definition condition_target :: "string \<Rightarrow> string \<Rightarrow> int \<Rightarrow> continuation_condition \<Rightarrow> target_row" where
  "condition_target i continuationId t condition =
     (case condition of
        Terminal_condition a states \<Rightarrow>
          \<lparr> ct_id = i, ct_continuation = continuationId, ct_kind = Target_assignment_terminal,
            ct_target = Some a, ct_from = None, ct_types = None, ct_thread = None,
            ct_terminal_states = Some (if or_else [] states \<noteq> [] then js_unique (or_else [] states)
                                       else DEFAULT_TERMINAL_STATES),
            ct_satisfied_by = None, ct_satisfied_payload = None, ct_satisfied_at = None,
            ct_created_at = t \<rparr>
      | Message_condition from types thread \<Rightarrow>
          \<lparr> ct_id = i, ct_continuation = continuationId, ct_kind = Target_message,
            ct_target = None, ct_from = from,
            ct_types = (if or_else [] types \<noteq> [] then Some (js_unique (or_else [] types)) else None),
            ct_thread = thread, ct_terminal_states = None,
            ct_satisfied_by = None, ct_satisfied_payload = None, ct_satisfied_at = None,
            ct_created_at = t \<rparr>)"

definition arm_guard :: "arm_input \<Rightarrow> (mission_row \<times> assignment_row \<times> attempt_row) tx" where
  "arm_guard input =
     bnd (requireMission (ar_mission input)) (\<lambda>mission.
     bnd (requireAssignment (ar_owner input)) (\<lambda>owner.
     bnd (requireAttempt (ar_attempt input)) (\<lambda>attempt.
     thn (throw_if (as_mission owner \<noteq> ms_id mission \<or> at_assignment attempt \<noteq> as_id owner \<or>
                    as_active_attempt owner \<noteq> Some (at_id attempt))
            ''ORCHESTRATION_CONTINUATION_OWNER_MISMATCH'')
     (thn (throw_if (as_state owner \<notin> set [Assignment_ACTIVE, Assignment_WAITING] \<or>
                     at_state attempt \<notin> set [Attempt_RUNNING, Attempt_WAITING])
             ''ORCHESTRATION_CONTINUATION_OWNER_INACTIVE'')
     (thn (throw_if (ar_conditions input = []) ''ORCHESTRATION_CONTINUATION_CONDITION_REQUIRED'')
     (bnd (reads (\<lambda>s. \<exists>c\<in>set (continuations s). cn_attempt c = at_id attempt \<and>
              active_continuation (cn_state c))) (\<lambda>active.
     thn (throw_if active ''ORCHESTRATION_CONTINUATION_ALREADY_ACTIVE'')
     (thn (each_tx (condition_guard (ms_id mission)) (ar_conditions input))
     (ret (mission, owner, attempt))))))))))"

definition park_owner :: "string \<Rightarrow> string \<Rightarrow> int \<Rightarrow> unit tx" where
  "park_owner assignmentId attemptId t =
     thn (upd assignments_update (\<lambda>r. as_id r = assignmentId \<and> as_state r = Assignment_ACTIVE)
            (\<lambda>r. r\<lparr> as_state := Assignment_WAITING, as_updated_at := t \<rparr>))
     (thn (upd attempts_update (\<lambda>e. at_id e = attemptId \<and> at_state e = Attempt_RUNNING)
             (\<lambda>e. e\<lparr> at_state := Attempt_WAITING \<rparr>))
     (upd runtime_sessions_update
        (\<lambda>q. rs_attempt q = attemptId \<and> rs_state q \<in> set [Session_READY, Session_RUNNING])
        (\<lambda>q. q\<lparr> rs_state := Session_WAITING, rs_updated_at := t \<rparr>)))"

fun continuation_mode_text :: "continuation_mode \<Rightarrow> string" where
  "continuation_mode_text Mode_all = ''all''"
| "continuation_mode_text Mode_any = ''any''"

definition arm_new :: "arm_input \<Rightarrow> continuation_bundle tx" where
  "arm_new input =
     bnd (arm_guard input) (\<lambda>(mission, owner, attempt).
     bnd now (\<lambda>t.
     bnd (fresh ''continuation'') (\<lambda>i.
     let cursor = nat (max 0 (or_else 0 (ar_cursor input))) in
     thn (insert_continuation
            \<lparr> cn_id = i, cn_mission = ms_id mission, cn_owner = as_id owner,
              cn_attempt = at_id attempt, cn_mode = ar_mode input, cn_state = Cont_ARMED,
              cn_reason = ar_reason input, cn_cursor = cursor, cn_deadline = ar_deadline input,
              cn_key = ar_key input, cn_ready_at = None, cn_delivered_at = None,
              cn_consumed_at = None, cn_cancelled_at = None, cn_created_at = t, cn_updated_at = t \<rparr>)
     (thn (each_tx (\<lambda>c. bnd (fresh ''continuation_target'') (\<lambda>targetId.
              insert_target (condition_target targetId i t c))) (ar_conditions input))
     (thn (park_owner (as_id owner) (at_id attempt) t)
     (thn (appendEvent (ms_id mission) ''continuation.armed'' (Some (as_assignee owner))
             (Some (as_id owner)) (Some (at_id attempt))
             [(''continuationId'', JStr i), (''mode'', JStr (continuation_mode_text (ar_mode input))),
              (''conditionCount'', JNum (int (length (ar_conditions input)))),
              (''cursorSequence'', JNum (int cursor)),
              (''deadlineAt'', case ar_deadline input of None \<Rightarrow> JNull | Some d \<Rightarrow> JNum d)])
     (bnd (reconcileContinuation i) (\<lambda>_.
     continuationBundle i))))))))"

definition armContinuation :: "arm_input \<Rightarrow> arm_result tx" where
  "armContinuation input =
     bnd (reads (\<lambda>s. find (\<lambda>c. cn_mission c = ar_mission input \<and> cn_owner c = ar_owner input \<and>
                             cn_key c = ar_key input) (continuations s))) (\<lambda>existing.
     case existing of
       Some c \<Rightarrow>
         thn (throw_if (cn_attempt c \<noteq> ar_attempt input) ''ORCHESTRATION_CONTINUATION_STALE_KEY'')
         (bnd (continuationBundle (cn_id c)) (\<lambda>b. ret \<lparr> av_bundle = b, av_reused = True \<rparr>))
     | None \<Rightarrow> bnd (arm_new input) (\<lambda>b. ret \<lparr> av_bundle = b, av_reused = False \<rparr>))"

section \<open>Consuming\<close>

record consume_result =
  co_bundle :: continuation_bundle
  co_reused :: bool
  co_messages :: "message_row list"
  co_assignments :: "assignment_row list"

definition resume_owner :: "string \<Rightarrow> string \<Rightarrow> int \<Rightarrow> unit tx" where
  "resume_owner assignmentId attemptId t =
     thn (upd assignments_update (\<lambda>r. as_id r = assignmentId \<and> as_state r = Assignment_WAITING)
            (\<lambda>r. r\<lparr> as_state := Assignment_ACTIVE, as_updated_at := t \<rparr>))
     (thn (upd attempts_update (\<lambda>e. at_id e = attemptId \<and> at_state e = Attempt_WAITING)
             (\<lambda>e. e\<lparr> at_state := Attempt_RUNNING \<rparr>))
     (upd runtime_sessions_update (\<lambda>q. rs_attempt q = attemptId \<and> rs_state q = Session_WAITING)
        (\<lambda>q. q\<lparr> rs_state := Session_RUNNING, rs_updated_at := t \<rparr>)))"

definition consume_first :: "continuation_row \<Rightarrow> assignment_row \<Rightarrow> string \<Rightarrow> unit tx" where
  "consume_first c owner attemptId =
     bnd now (\<lambda>t.
     thn (upd continuations_update
            (\<lambda>r. cn_id r = cn_id c \<and> cn_state r \<in> set [Cont_READY, Cont_DELIVERING, Cont_DELIVERED])
            (\<lambda>r. r\<lparr> cn_state := Cont_CONSUMED, cn_consumed_at := coalesce (cn_consumed_at r) (Some t),
                    cn_updated_at := t \<rparr>))
     (thn (upd intents_update (\<lambda>r. ri_continuation r = cn_id c \<and> ri_state r \<noteq> Intent_CANCELLED)
             (\<lambda>r. r\<lparr> ri_state := Intent_ACKNOWLEDGED,
                     ri_acknowledged_at := coalesce (ri_acknowledged_at r) (Some t),
                     ri_updated_at := t, ri_last_error := None \<rparr>))
     (thn (resume_owner (as_id owner) attemptId t)
     (appendEvent (cn_mission c) ''continuation.consumed'' (Some (as_assignee owner))
        (Some (as_id owner)) (Some attemptId) [(''continuationId'', JStr (cn_id c))]))))"

definition consumed_messages :: "nat \<Rightarrow> inbox_query" where
  "consumed_messages cursor =
     \<lparr> iq_unreadOnly = Some False, iq_types = None, iq_threadId = None,
       iq_afterSequence = Some cursor, iq_limit = Some 200 \<rparr>"

text \<open>The cancellation of a stale owner's continuation is undone by the throw that follows it in
  the same transaction.\<close>

definition consumeContinuation :: "string \<Rightarrow> string \<Rightarrow> string \<Rightarrow> consume_result tx" where
  "consumeContinuation i ownerAssignmentId ownerAttemptId =
     bnd (requireContinuation i) (\<lambda>c.
     thn (throw_if (cn_owner c \<noteq> ownerAssignmentId \<or> cn_attempt c \<noteq> ownerAttemptId)
            ''ORCHESTRATION_CONTINUATION_CALLER_MISMATCH'')
     (bnd (requireAssignment ownerAssignmentId) (\<lambda>owner.
     thn (when_tx (as_active_attempt owner \<noteq> Some ownerAttemptId)
            (bnd (cancelContinuation (cn_id c) ''owner_attempt_replaced'') (\<lambda>_.
             failure ''ORCHESTRATION_CONTINUATION_STALE'')))
     (thn (throw_if (cn_state c = Cont_ARMED) ''ORCHESTRATION_CONTINUATION_NOT_READY'')
     (thn (throw_if (cn_state c = Cont_CANCELLED) ''ORCHESTRATION_CONTINUATION_CANCELLED'')
     (let reused = (cn_state c = Cont_CONSUMED) in
      thn (when_tx (\<not> reused) (consume_first c owner ownerAttemptId))
      (bnd (continuationBundle (cn_id c)) (\<lambda>b.
       let query = consumed_messages (cn_cursor (bd_continuation b));
           ids = js_unique (List.map_filter (\<lambda>t. if truthy (ct_target t) then ct_target t else None)
                   (bd_targets b)) in
       bnd (listInbox (as_id owner) query) (\<lambda>ms.
       thn (markMessagesRead (as_id owner) (map mg_id ms))
       (bnd (listInbox (as_id owner) query) (\<lambda>read_messages.
       bnd (collect_tx requireAssignment ids) (\<lambda>as.
       ret \<lparr> co_bundle = b, co_reused = reused, co_messages = read_messages,
             co_assignments = as \<rparr>))))))))))))"

section \<open>Resume intents\<close>

text \<open>The continuation of an intent: \<open>id = (SELECT continuation_id ... WHERE id = ?)\<close>.\<close>

definition continuation_of_intent :: "string \<Rightarrow> fab \<Rightarrow> string option" where
  "continuation_of_intent i s = map_option ri_continuation (getResumeIntent i s)"

definition move_continuation_of ::
    "string \<Rightarrow> continuation_state \<Rightarrow> (continuation_row \<Rightarrow> continuation_row) \<Rightarrow> unit tx" where
  "move_continuation_of i from f =
     bnd (reads (continuation_of_intent i)) (\<lambda>c.
     upd continuations_update (\<lambda>r. Some (cn_id r) = c \<and> cn_state r = from) f)"

definition markResumeIntentProcessing :: "string \<Rightarrow> string option \<Rightarrow> bool tx" where
  "markResumeIntentProcessing i runtimeSessionId =
     bnd now (\<lambda>t.
     bnd (upd_count intents intents_update (\<lambda>r. ri_id r = i \<and> ri_state r = Intent_PENDING)
            (\<lambda>r. r\<lparr> ri_state := Intent_PROCESSING, ri_session := runtimeSessionId,
                    ri_attempts := ri_attempts r + 1, ri_updated_at := t, ri_last_error := None \<rparr>)) (\<lambda>n.
     if n \<noteq> 1 then ret False else
     thn (move_continuation_of i Cont_READY
            (\<lambda>r. r\<lparr> cn_state := Cont_DELIVERING, cn_updated_at := t \<rparr>))
     (ret True)))"

definition markResumeIntentDelivered :: "string \<Rightarrow> intent_row option tx" where
  "markResumeIntentDelivered i =
     bnd now (\<lambda>t.
     thn (upd intents_update (\<lambda>r. ri_id r = i \<and> ri_state r = Intent_PROCESSING)
            (\<lambda>r. r\<lparr> ri_state := Intent_DELIVERED,
                    ri_delivered_at := coalesce (ri_delivered_at r) (Some t),
                    ri_updated_at := t, ri_last_error := None \<rparr>))
     (thn (move_continuation_of i Cont_DELIVERING
             (\<lambda>r. r\<lparr> cn_state := Cont_DELIVERED,
                     cn_delivered_at := coalesce (cn_delivered_at r) (Some t), cn_updated_at := t \<rparr>))
     (reads (getResumeIntent i))))"

definition retryResumeIntent :: "string \<Rightarrow> string \<Rightarrow> int \<Rightarrow> unit tx" where
  "retryResumeIntent i error availableAt =
     bnd now (\<lambda>t.
     thn (upd intents_update (\<lambda>r. ri_id r = i \<and> ri_state r = Intent_PROCESSING)
            (\<lambda>r. r\<lparr> ri_state := Intent_PENDING, ri_available_at := availableAt,
                    ri_last_error := Some error, ri_updated_at := t \<rparr>))
     (move_continuation_of i Cont_DELIVERING
        (\<lambda>r. r\<lparr> cn_state := Cont_READY, cn_updated_at := t \<rparr>)))"

section \<open>Recovery at startup\<close>

definition LEGACY_RESUME_REPLAY_AFTER_MS :: int where
  "LEGACY_RESUME_REPLAY_AFTER_MS = 30000"

definition confirmed_delivery :: "intent_row \<Rightarrow> bool" where
  "confirmed_delivery r \<longleftrightarrow>
     map_of (ri_payload r) ''deliveryContract'' = Some (JStr CONFIRMED_RESUME_DELIVERY_CONTRACT)"

text \<open>One legacy delivery: whether it was put back.\<close>

definition replay_legacy :: "int \<Rightarrow> intent_row \<Rightarrow> bool tx" where
  "replay_legacy t row =
     (if confirmed_delivery row then ret False else
      bnd (upd_count intents intents_update
             (\<lambda>r. ri_id r = ri_id row \<and> ri_state r = Intent_DELIVERED \<and> ri_acknowledged_at r = None)
             (\<lambda>r. r\<lparr> ri_state := Intent_PENDING, ri_available_at := t, ri_delivered_at := None,
                     ri_payload := AList.update ''deliveryContract''
                        (JStr CONFIRMED_RESUME_DELIVERY_CONTRACT) (ri_payload row),
                     ri_last_error := Some ''Replaying a legacy delivery without a confirmed Agent turn.'',
                     ri_updated_at := t \<rparr>)) (\<lambda>n.
      if n \<noteq> 1 then ret False else
      thn (upd continuations_update (\<lambda>c. cn_id c = ri_continuation row \<and> cn_state c = Cont_DELIVERED)
             (\<lambda>c. c\<lparr> cn_state := Cont_READY, cn_delivered_at := None, cn_updated_at := t \<rparr>))
      (ret True)))"

definition owner_inactive :: "continuation_row \<Rightarrow> fab \<Rightarrow> bool" where
  "owner_inactive c s \<longleftrightarrow>
     (case (getAssignment (cn_owner c) s, getAttempt (cn_attempt c) s) of
        (Some a, Some e) \<Rightarrow> as_active_attempt a \<noteq> Some (at_id e) \<or>
          as_state a \<in> set DEFAULT_TERMINAL_STATES \<or> isTerminalAttemptState (at_state e)
      | _ \<Rightarrow> True)"

text \<open>Cancels the continuation of an inactive owner, reconciles any other: (ready, cancelled).\<close>

definition recover_continuation :: "continuation_row \<Rightarrow> (bool \<times> bool) tx" where
  "recover_continuation c =
     bnd (reads (owner_inactive c)) (\<lambda>inactive.
     if inactive then
       bnd (cancelContinuation (cn_id c) ''owner_attempt_inactive'') (\<lambda>cancelled. ret (False, cancelled))
     else
       bnd (reconcileContinuation (cn_id c)) (\<lambda>b.
       ret (cn_state c = Cont_ARMED \<and> cn_state (bd_continuation b) = Cont_READY, False)))"

record recovery_counts =
  rc_recovered :: nat
  rc_ready :: nat
  rc_cancelled :: nat

definition recoverAndReconcileContinuations :: "recovery_counts tx" where
  "recoverAndReconcileContinuations =
     bnd now (\<lambda>t.
     bnd (upd_count intents intents_update (\<lambda>r. ri_state r = Intent_PROCESSING)
            (\<lambda>r. r\<lparr> ri_state := Intent_PENDING, ri_available_at := t, ri_updated_at := t \<rparr>)) (\<lambda>processing.
     thn (upd continuations_update (\<lambda>c. cn_state c = Cont_DELIVERING)
            (\<lambda>c. c\<lparr> cn_state := Cont_READY, cn_updated_at := t \<rparr>))
     (bnd now (\<lambda>clock.
     bnd (reads (\<lambda>s. sort_key ri_created_at (filter (\<lambda>r. ri_state r = Intent_DELIVERED \<and>
            ri_acknowledged_at r = None \<and> ri_updated_at r \<le> clock - LEGACY_RESUME_REPLAY_AFTER_MS)
            (intents s)))) (\<lambda>legacy.
     bnd (collect_tx (replay_legacy t) legacy) (\<lambda>replayed.
     bnd (reads (\<lambda>s. sort_key cn_created_at (filter (\<lambda>c. active_continuation (cn_state c))
            (continuations s)))) (\<lambda>rows.
     bnd (collect_tx recover_continuation rows) (\<lambda>outcomes.
     ret \<lparr> rc_recovered = processing + length (filter id replayed),
           rc_ready = length (filter fst outcomes),
           rc_cancelled = length (filter snd outcomes) \<rparr>))))))))"

end
