(* ===== verification/Fabric_Outbox.thy ===== *)
theory Fabric_Outbox
  imports Fabric_Continuations
begin

text \<open>
  The runtime outbox of the store: the list of due work, the claim, its completion, retry and
  failure, and the recovery of claims a restart interrupted.
\<close>

definition listPendingOutbox :: "int \<Rightarrow> outbox_row list tx" where
  "listPendingOutbox limit =
     bnd now (\<lambda>t.
     reads (\<lambda>s. sql_limit limit (sort_key ob_created_at
       (filter (\<lambda>b. ob_state b = Outbox_PENDING \<and> ob_available_at b \<le> t) (outbox s)))))"

definition markOutboxProcessing :: "string \<Rightarrow> bool tx" where
  "markOutboxProcessing i =
     bnd (upd_count outbox outbox_update (\<lambda>b. ob_id b = i \<and> ob_state b = Outbox_PENDING)
            (\<lambda>b. b\<lparr> ob_state := Outbox_PROCESSING, ob_attempts := ob_attempts b + 1 \<rparr>)) (\<lambda>n.
     ret (n = 1))"

definition completeOutbox :: "string \<Rightarrow> unit tx" where
  "completeOutbox i =
     bnd now (\<lambda>t.
     upd outbox_update (\<lambda>b. ob_id b = i)
       (\<lambda>b. b\<lparr> ob_state := Outbox_COMPLETED, ob_completed_at := Some t, ob_last_error := None \<rparr>))"

definition retryOutbox :: "string \<Rightarrow> string \<Rightarrow> int \<Rightarrow> unit tx" where
  "retryOutbox i error availableAt =
     upd outbox_update (\<lambda>b. ob_id b = i)
       (\<lambda>b. b\<lparr> ob_state := Outbox_PENDING, ob_available_at := availableAt,
               ob_last_error := Some error \<rparr>)"

definition failOutbox :: "string \<Rightarrow> string \<Rightarrow> unit tx" where
  "failOutbox i error =
     bnd now (\<lambda>t.
     upd outbox_update (\<lambda>b. ob_id b = i)
       (\<lambda>b. b\<lparr> ob_state := Outbox_FAILED, ob_completed_at := Some t, ob_last_error := Some error \<rparr>))"

definition recoverInterruptedOutbox :: "nat tx" where
  "recoverInterruptedOutbox =
     upd_count outbox outbox_update (\<lambda>b. ob_state b = Outbox_PROCESSING)
       (\<lambda>b. b\<lparr> ob_state := Outbox_PENDING \<rparr>)"

end
