(* ===== verification/Fabric_Retention.thy ===== *)
theory Fabric_Retention
  imports Fabric_Assignments Fabric_Continuations
begin

text \<open>
  The retention of Missions: lists of live and trashed Missions, moving to the trash, restoring,
  deleting for good and the purge of expired trash. \<open>delete_missions\<close> is
  \<open>DELETE FROM missions WHERE ...\<close> with the \<open>ON DELETE\<close> actions of the schema: a row goes with
  the row it belongs to, any other reference to a deleted row becomes null.
\<close>

section \<open>ON DELETE\<close>

definition keep_ref :: "string list \<Rightarrow> string option \<Rightarrow> string option" where
  "keep_ref gone r = (case r of None \<Rightarrow> None | Some i \<Rightarrow> if i \<in> set gone then None else Some i)"

record deletion =
  del_missions :: "string list"
  del_tasks :: "string list"
  del_assignments :: "string list"
  del_attempts :: "string list"
  del_messages :: "string list"
  del_sessions :: "string list"
  del_conversations :: "string list"
  del_continuations :: "string list"
  del_requests :: "string list"

text \<open>The keys the cascade reaches, table after table.\<close>

definition gone :: "('r \<Rightarrow> string) \<Rightarrow> ('r \<Rightarrow> bool) \<Rightarrow> 'r list \<Rightarrow> string list" where
  "gone k P rows = map k (filter P rows)"

definition deletion_of :: "(mission_row \<Rightarrow> bool) \<Rightarrow> fab \<Rightarrow> deletion" where
  "deletion_of P s =
     (let ms = gone ms_id P (missions s);
          ts = gone tk_id (\<lambda>t. tk_mission t \<in> set ms) (tasks s);
          as = gone as_id (\<lambda>a. as_mission a \<in> set ms \<or> as_task a \<in> set ts) (assignments s);
          es = gone at_id (\<lambda>e. at_assignment e \<in> set as) (attempts s);
          cs = gone cv_id (\<lambda>c. cv_mission c \<in> set ms) (conversations s)
      in \<lparr> del_missions = ms, del_tasks = ts, del_assignments = as, del_attempts = es,
           del_messages = gone mg_id (\<lambda>m. mg_mission m \<in> set ms) (messages s),
           del_sessions = gone rs_id (\<lambda>r. rs_attempt r \<in> set es) (runtime_sessions s),
           del_conversations = cs,
           del_continuations = gone cn_id (\<lambda>c. cn_mission c \<in> set ms \<or> cn_owner c \<in> set as \<or>
              cn_attempt c \<in> set es) (continuations s),
           del_requests = gone rq_id (\<lambda>r. rq_mission r \<in> set ms \<or> rq_conversation r \<in> set cs)
              (requests s) \<rparr>)"

definition cascade_core :: "deletion \<Rightarrow> fab \<Rightarrow> fab" where
  "cascade_core d s =
     s\<lparr> missions := filter (\<lambda>m. ms_id m \<notin> set (del_missions d)) (missions s),
        tasks := map (\<lambda>t. t\<lparr>tk_parent := keep_ref (del_tasks d) (tk_parent t)\<rparr>)
          (filter (\<lambda>t. tk_mission t \<notin> set (del_missions d)) (tasks s)),
        dependencies := filter (\<lambda>r. dp_task r \<notin> set (del_tasks d) \<and> dp_on r \<notin> set (del_tasks d))
          (dependencies s),
        assignments := map (\<lambda>a. a\<lparr>as_supervisor := keep_ref (del_assignments d) (as_supervisor a)\<rparr>)
          (filter (\<lambda>a. as_mission a \<notin> set (del_missions d) \<and> as_task a \<notin> set (del_tasks d))
             (assignments s)),
        attempts := filter (\<lambda>e. at_assignment e \<notin> set (del_assignments d)) (attempts s) \<rparr>"

definition cascade_log :: "deletion \<Rightarrow> fab \<Rightarrow> fab" where
  "cascade_log d s =
     s\<lparr> messages := map (\<lambda>m. m\<lparr> mg_from := keep_ref (del_assignments d) (mg_from m),
                                mg_to := keep_ref (del_assignments d) (mg_to m),
                                mg_attempt := keep_ref (del_attempts d) (mg_attempt m) \<rparr>)
          (filter (\<lambda>m. mg_mission m \<notin> set (del_missions d)) (messages s)),
        events := map (\<lambda>e. e\<lparr> ev_assignment := keep_ref (del_assignments d) (ev_assignment e),
                              ev_attempt := keep_ref (del_attempts d) (ev_attempt e) \<rparr>)
          (filter (\<lambda>e. ev_mission e \<notin> set (del_missions d)) (events s)),
        outbox := filter (\<lambda>b. ob_mission b \<notin> set (del_missions d)) (outbox s),
        artifacts := map (\<lambda>a. a\<lparr>af_attempt := keep_ref (del_attempts d) (af_attempt a)\<rparr>)
          (filter (\<lambda>a. af_mission a \<notin> set (del_missions d) \<and> af_assignment a \<notin> set (del_assignments d))
             (artifacts s)),
        runtime_sessions := filter (\<lambda>r. rs_attempt r \<notin> set (del_attempts d)) (runtime_sessions s),
        runtime_events := filter (\<lambda>e. re_session e \<notin> set (del_sessions d) \<and>
             re_attempt e \<notin> set (del_attempts d)) (runtime_events s),
        deliveries := filter (\<lambda>r. dl_message r \<notin> set (del_messages d) \<and>
             dl_assignment r \<notin> set (del_assignments d)) (deliveries s) \<rparr>"

definition cascade_collaboration :: "deletion \<Rightarrow> fab \<Rightarrow> fab" where
  "cascade_collaboration d s =
     s\<lparr> continuations := filter (\<lambda>c. cn_mission c \<notin> set (del_missions d) \<and>
             cn_owner c \<notin> set (del_assignments d) \<and> cn_attempt c \<notin> set (del_attempts d))
             (continuations s),
        targets := filter (\<lambda>t. ct_continuation t \<notin> set (del_continuations d) \<and>
             keep_ref (del_assignments d) (ct_target t) = ct_target t \<and>
             keep_ref (del_assignments d) (ct_from t) = ct_from t) (targets s),
        intents := filter (\<lambda>r. ri_continuation r \<notin> set (del_continuations d) \<and>
             ri_mission r \<notin> set (del_missions d) \<and> ri_owner r \<notin> set (del_assignments d) \<and>
             ri_attempt r \<notin> set (del_attempts d)) (intents s),
        conversations := filter (\<lambda>c. cv_mission c \<notin> set (del_missions d)) (conversations s),
        participants := map (\<lambda>p. p\<lparr>cp_assignment := keep_ref (del_assignments d) (cp_assignment p)\<rparr>)
          (filter (\<lambda>p. cp_conversation p \<notin> set (del_conversations d)) (participants s)),
        requests := map (\<lambda>r. r\<lparr> rq_task := keep_ref (del_tasks d) (rq_task r),
               rq_creator_assignment := keep_ref (del_assignments d) (rq_creator_assignment r),
               rq_assignee_assignment := keep_ref (del_assignments d) (rq_assignee_assignment r) \<rparr>)
          (filter (\<lambda>r. rq_mission r \<notin> set (del_missions d) \<and>
             rq_conversation r \<notin> set (del_conversations d)) (requests s)),
        resolutions := map (\<lambda>r. r\<lparr> rz_resolver_assignment :=
               keep_ref (del_assignments d) (rz_resolver_assignment r) \<rparr>)
          (filter (\<lambda>r. rz_request r \<notin> set (del_requests d)) (resolutions s)),
        incidents := map (\<lambda>n. n\<lparr> ic_assignment := keep_ref (del_assignments d) (ic_assignment n),
               ic_attempt := keep_ref (del_attempts d) (ic_attempt n),
               ic_request := keep_ref (del_requests d) (ic_request n) \<rparr>)
          (filter (\<lambda>n. ic_mission n \<notin> set (del_missions d)) (incidents s)) \<rparr>"

definition delete_missions :: "(mission_row \<Rightarrow> bool) \<Rightarrow> fab \<Rightarrow> fab" where
  "delete_missions P s =
     (let d = deletion_of P s in cascade_collaboration d (cascade_log d (cascade_core d s)))"

section \<open>Operations\<close>

definition MISSION_TRASH_RETENTION_DAYS :: int where
  "MISSION_TRASH_RETENTION_DAYS = 30"

definition expired_trash :: "int \<Rightarrow> mission_row \<Rightarrow> bool" where
  "expired_trash cutoff m \<longleftrightarrow> (case ms_deleted_at m of None \<Rightarrow> False | Some t \<Rightarrow> t \<le> cutoff)"

definition purgeExpiredTrashedMissions :: "int \<Rightarrow> nat tx" where
  "purgeExpiredTrashedMissions retentionDays =
     bnd now (\<lambda>t.
     let cutoff = t - retentionDays * 24 * 60 * 60 * 1000 in
     bnd (reads (\<lambda>s. changes (expired_trash cutoff) (missions s))) (\<lambda>n.
     thn (change (delete_missions (expired_trash cutoff))) (ret n)))"

definition bounded_limit :: "int \<Rightarrow> int" where
  "bounded_limit n = max 1 (min 200 n)"

definition listMissions :: "int \<Rightarrow> mission_row list tx" where
  "listMissions limit =
     bnd (purgeExpiredTrashedMissions MISSION_TRASH_RETENTION_DAYS) (\<lambda>_.
     reads (\<lambda>s. sql_limit (bounded_limit limit) (rev (sort_key ms_updated_at
       (filter (\<lambda>m. ms_deleted_at m = None) (missions s))))))"

definition listDeletedMissions :: "int \<Rightarrow> mission_row list tx" where
  "listDeletedMissions limit =
     bnd (purgeExpiredTrashedMissions MISSION_TRASH_RETENTION_DAYS) (\<lambda>_.
     reads (\<lambda>s. sql_limit (bounded_limit limit) (rev (sort_key (\<lambda>m. the (ms_deleted_at m))
       (filter (\<lambda>m. ms_deleted_at m \<noteq> None) (missions s))))))"

definition trashMission :: "string \<Rightarrow> mission_row tx" where
  "trashMission missionId =
     bnd (requireMission missionId) (\<lambda>mission.
     thn (throw_if (ms_state mission \<notin> set TERMINAL_MISSION_STATES) ''ORCHESTRATION_MISSION_ACTIVE'')
     (if ms_deleted_at mission \<noteq> None then ret mission else
      bnd now (\<lambda>t.
      thn (upd missions_update (\<lambda>m. ms_id m = ms_id mission)
             (\<lambda>m. m\<lparr> ms_deleted_at := Some t, ms_updated_at := t, ms_version := ms_version m + 1 \<rparr>))
      (requireMission (ms_id mission)))))"

definition restoreMission :: "string \<Rightarrow> mission_row tx" where
  "restoreMission missionId =
     bnd (requireMission missionId) (\<lambda>mission.
     if ms_deleted_at mission = None then ret mission else
     bnd now (\<lambda>t.
     thn (upd missions_update (\<lambda>m. ms_id m = ms_id mission)
            (\<lambda>m. m\<lparr> ms_deleted_at := None, ms_updated_at := t, ms_version := ms_version m + 1 \<rparr>))
     (requireMission (ms_id mission))))"

definition deleteMissionPermanently :: "string \<Rightarrow> unit tx" where
  "deleteMissionPermanently missionId =
     bnd (requireMission missionId) (\<lambda>mission.
     thn (throw_if (ms_deleted_at mission = None) ''ORCHESTRATION_MISSION_NOT_TRASHED'')
     (change (delete_missions (\<lambda>m. ms_id m = ms_id mission))))"

end
