(* ===== verification/Fabric_Logic.thy ===== *)
theory Fabric_Logic
  imports Fabric_Retention
begin

text \<open>
  Reasoning about transactions. \<open>tx_relation\<close> is the interface of a relation between the
  databases before and after an operation: reflexive, transitive, closed under the platform's
  clock and identifiers, and keeping an invariant. Its \<open>safe_when P m\<close> says that a successful run
  of \<open>m\<close> from a database with \<open>P\<close> is related; one rule per combinator reduces an operation to its
  statements. \<open>keeps P m\<close> says that \<open>m\<close> preserves \<open>P\<close>.
\<close>

named_theorems tx_simps "evaluation of the combinators"

section \<open>Evaluation\<close>

lemma ret_run [tx_simps]: "ret x s = Inr y \<longleftrightarrow> y = (x, s)"
  by (auto simp: ret_def)

lemma throw_run [tx_simps]: "throw e s = Inr y \<longleftrightarrow> False"
  by (simp add: throw_def)

lemma failure_run [tx_simps]: "failure c s = Inr y \<longleftrightarrow> False"
  by (simp add: failure_def throw_def)

lemma throw_if_run [tx_simps]: "throw_if c e s = Inr y \<longleftrightarrow> \<not> c \<and> y = ((), s)"
  by (auto simp: throw_if_def failure_def throw_def ret_def)

lemma reads_run [tx_simps]: "reads f s = Inr y \<longleftrightarrow> y = (f s, s)"
  by (auto simp: reads_def)

lemma change_run [tx_simps]: "change f s = Inr y \<longleftrightarrow> y = ((), f s)"
  by (auto simp: change_def)

lemma require_row_run [tx_simps]:
  "require_row c f s = Inr y \<longleftrightarrow> (\<exists>r. f s = Some r \<and> y = (r, s))"
  by (auto simp: require_row_def split: option.splits)

lemma upd_run [tx_simps]: "upd tab P f s = Inr y \<longleftrightarrow> y = ((), tab (update_where P f) s)"
  by (auto simp: upd_def change_def)

lemma bnd_run: "bnd m f s = Inr y \<longleftrightarrow> (\<exists>a t. m s = Inr (a, t) \<and> f a t = Inr y)"
  by (cases "m s") (auto simp: bnd_def)

lemma bnd_runE:
  assumes "bnd m f s = Inr (b, u)"
  obtains a t where "m s = Inr (a, t)" and "f a t = Inr (b, u)"
  using assms by (auto simp: bnd_run)

lemma thn_run: "thn m n s = Inr y \<longleftrightarrow> (\<exists>t. m s = Inr ((), t) \<and> n t = Inr y)"
  by (auto simp: thn_def bnd_run)

lemma thn_runE:
  assumes "thn m n s = Inr (b, u)"
  obtains t where "m s = Inr ((), t)" and "n t = Inr (b, u)"
  using assms by (auto simp: thn_run)

lemma upd_count_run [tx_simps]:
  "upd_count sel tab P f s = Inr y \<longleftrightarrow> y = (changes P (sel s), tab (update_where P f) s)"
  by (auto simp: upd_count_def bnd_run thn_run tx_simps)

lemma bnd_reads [simp]: "bnd (reads f) g s = g (f s) s"
  by (simp add: bnd_def reads_def)

lemma bnd_ret [simp]: "bnd (ret x) g = g x"
  by (simp add: bnd_def ret_def fun_eq_iff)

lemma thn_ret [simp]: "thn (ret x) m = m"
  by (simp add: thn_def)

lemma insert_row_run:
  "insert_row name sel tab unique refs r s = Inr y \<longleftrightarrow>
     unique (sel s) r \<and> refs s r \<and> y = ((), tab (\<lambda>rows. rows @ [r]) s)"
  by (auto simp: insert_row_def)

lemma insert_or_ignore_run:
  "insert_or_ignore name sel tab unique refs r s = Inr y \<longleftrightarrow>
     (if unique (sel s) r then refs s r \<and> y = ((), tab (\<lambda>rows. rows @ [r]) s) else y = ((), s))"
  by (auto simp: insert_or_ignore_def)

section \<open>Identifiers and the clock\<close>

definition host_tick :: "host \<Rightarrow> host \<Rightarrow> bool" where
  "host_tick h h' \<longleftrightarrow> uuid_src h' = uuid_src h \<and> clock_src h' = clock_src h \<and> uuid_ctr h \<le> uuid_ctr h'"

lemma host_tick_refl [simp]: "host_tick h h"
  by (simp add: host_tick_def)

lemma host_tick_trans: "host_tick h h' \<Longrightarrow> host_tick h' h'' \<Longrightarrow> host_tick h h''"
  by (auto simp: host_tick_def)

lemma host_tick_issued: "host_tick h h' \<Longrightarrow> issued_id h i \<Longrightarrow> issued_id h' i"
  by (force simp: host_tick_def issued_id_def)

lemma host_tick_ok: "host_tick h h' \<Longrightarrow> host_ok h' = host_ok h"
  by (simp add: host_tick_def host_ok_def)

lemma fresh_run:
  "fresh p s = Inr (i, t) \<longleftrightarrow> i = fst (newId p (fab_host s)) \<and> t = s\<lparr>fab_host := snd (newId p (fab_host s))\<rparr>"
  by (auto simp: fresh_def split_beta Let_def)

lemma now_run:
  "now s = Inr (i, t) \<longleftrightarrow> i = fst (timestamp (fab_host s)) \<and> t = s\<lparr>fab_host := snd (timestamp (fab_host s))\<rparr>"
  by (auto simp: now_def split_beta Let_def)

lemma host_tick_newId [simp]: "host_tick h (snd (newId p h))"
  by (simp add: host_tick_def newId_def)

lemma host_tick_timestamp [simp]: "host_tick h (snd (timestamp h))"
  by (simp add: host_tick_def timestamp_def)

section \<open>Preserved predicates\<close>

definition keeps :: "(fab \<Rightarrow> bool) \<Rightarrow> 'a tx \<Rightarrow> bool" where
  "keeps P m \<longleftrightarrow> (\<forall>s a t. P s \<longrightarrow> m s = Inr (a, t) \<longrightarrow> P t)"

lemma keepsD: "keeps P m \<Longrightarrow> P s \<Longrightarrow> m s = Inr (a, t) \<Longrightarrow> P t"
  by (auto simp: keeps_def)

section \<open>Related databases\<close>

locale tx_relation =
  fixes R :: "fab \<Rightarrow> fab \<Rightarrow> bool"
    and I :: "fab \<Rightarrow> bool"
  assumes same: "R s s"
    and compose: "R s t \<Longrightarrow> R t u \<Longrightarrow> R s u"
    and invariant: "I s \<Longrightarrow> R s t \<Longrightarrow> I t"
    and ticks: "host_tick (fab_host s) h \<Longrightarrow> R s (s\<lparr>fab_host := h\<rparr>)"
begin

definition safe_when :: "(fab \<Rightarrow> bool) \<Rightarrow> 'a tx \<Rightarrow> bool" where
  "safe_when P m \<longleftrightarrow> (\<forall>s a t. I s \<longrightarrow> P s \<longrightarrow> m s = Inr (a, t) \<longrightarrow> R s t)"

abbreviation safe :: "'a tx \<Rightarrow> bool" where
  "safe \<equiv> safe_when (\<lambda>_. True)"

lemma safe_whenI: "(\<And>s a t. I s \<Longrightarrow> P s \<Longrightarrow> m s = Inr (a, t) \<Longrightarrow> R s t) \<Longrightarrow> safe_when P m"
  by (auto simp: safe_when_def)

lemma safe_whenD: "safe_when P m \<Longrightarrow> I s \<Longrightarrow> P s \<Longrightarrow> m s = Inr (a, t) \<Longrightarrow> R s t"
  by (auto simp: safe_when_def)

lemma weaken: "safe m \<Longrightarrow> safe_when P m"
  by (auto simp: safe_when_def)

lemma strengthen: "safe_when Q m \<Longrightarrow> (\<And>s. P s \<Longrightarrow> Q s) \<Longrightarrow> safe_when P m"
  by (auto simp: safe_when_def)

lemma safe_ret: "safe_when P (ret x)"
  by (auto simp: safe_when_def tx_simps same)

lemma safe_throw: "safe_when P (throw e)"
  by (auto simp: safe_when_def tx_simps)

lemma safe_failure: "safe_when P (failure e)"
  by (auto simp: safe_when_def tx_simps)

lemma safe_throw_if: "safe_when P (throw_if c e)"
  by (auto simp: safe_when_def tx_simps same)

lemma safe_reads: "safe_when P (reads f)"
  by (auto simp: safe_when_def tx_simps same)

lemma safe_require: "safe_when P (require_row c f)"
  by (auto simp: safe_when_def tx_simps same)

lemma safe_fresh: "safe_when P (fresh p)"
  by (auto simp: safe_when_def fresh_run ticks)

lemma safe_now: "safe_when P now"
  by (auto simp: safe_when_def now_run ticks)

lemma safe_when_tx: "(c \<Longrightarrow> safe_when P m) \<Longrightarrow> safe_when P (when_tx c m)"
  by (auto simp: when_tx_def safe_ret)

lemma safe_if: "(c \<Longrightarrow> safe_when P m) \<Longrightarrow> (\<not> c \<Longrightarrow> safe_when P n) \<Longrightarrow> safe_when P (if c then m else n)"
  by auto

lemma safe_bnd_post:
  assumes "safe_when P m" and "\<And>a. safe_when (Q a) (f a)"
    and "\<And>s a t. I s \<Longrightarrow> P s \<Longrightarrow> m s = Inr (a, t) \<Longrightarrow> Q a t"
  shows "safe_when P (bnd m f)"
proof (rule safe_whenI)
  fix s b u
  assume "I s" "P s" "bnd m f s = Inr (b, u)"
  then obtain a t where run: "m s = Inr (a, t)" "f a t = Inr (b, u)" by (auto elim: bnd_runE)
  then have "R s t" using assms(1) \<open>I s\<close> \<open>P s\<close> by (blast intro: safe_whenD)
  moreover have "R t u"
    using assms(2)[of a] assms(3)[OF \<open>I s\<close> \<open>P s\<close> run(1)] run(2) invariant[OF \<open>I s\<close> \<open>R s t\<close>]
    by (blast intro: safe_whenD)
  ultimately show "R s u" by (rule compose)
qed

lemma safe_bnd: "safe_when P m \<Longrightarrow> (\<And>a. safe (f a)) \<Longrightarrow> safe_when P (bnd m f)"
  by (rule safe_bnd_post[where Q = "\<lambda>_ _. True"]) auto

lemma safe_bnd_keep:
  "safe_when P m \<Longrightarrow> keeps P m \<Longrightarrow> (\<And>a. safe_when P (f a)) \<Longrightarrow> safe_when P (bnd m f)"
  by (rule safe_bnd_post[where Q = "\<lambda>_. P"]) (auto dest: keepsD)

lemma safe_bnd_require:
  "(\<And>r. safe_when (\<lambda>s. P s \<and> g s = Some r) (f r)) \<Longrightarrow> safe_when P (bnd (require_row c g) f)"
  by (rule safe_bnd_post[where Q = "\<lambda>r s. P s \<and> g s = Some r", OF safe_require])
    (auto simp: tx_simps)

lemma safe_bnd_reads:
  "(\<And>x. safe_when (\<lambda>s. P s \<and> g s = x) (f x)) \<Longrightarrow> safe_when P (bnd (reads g) f)"
  by (rule safe_bnd_post[where Q = "\<lambda>x s. P s \<and> g s = x", OF safe_reads]) (auto simp: tx_simps)

lemma safe_thn: "safe_when P m \<Longrightarrow> safe n \<Longrightarrow> safe_when P (thn m n)"
  unfolding thn_def by (rule safe_bnd)

lemma safe_thn_keep: "safe_when P m \<Longrightarrow> keeps P m \<Longrightarrow> safe_when P n \<Longrightarrow> safe_when P (thn m n)"
  unfolding thn_def by (rule safe_bnd_keep)

lemma safe_thn_guard: "(\<not> c \<Longrightarrow> safe_when P m) \<Longrightarrow> safe_when P (thn (throw_if c e) m)"
  by (auto simp: safe_when_def thn_run tx_simps)

lemma safe_each: "(\<And>x. x \<in> set xs \<Longrightarrow> safe (f x)) \<Longrightarrow> safe_when P (each_tx f xs)"
  by (rule weaken, induction xs) (auto intro: safe_ret safe_thn)

lemma safe_collect: "(\<And>x. x \<in> set xs \<Longrightarrow> safe (f x)) \<Longrightarrow> safe_when P (collect_tx f xs)"
  by (rule weaken, induction xs) (auto intro!: safe_ret safe_bnd)

lemma safe_upd:
  "(\<And>s. I s \<Longrightarrow> P s \<Longrightarrow> R s (tab (update_where Q f) s)) \<Longrightarrow> safe_when P (upd tab Q f)"
  by (auto simp: safe_when_def tx_simps)

lemma safe_upd_count:
  "(\<And>s. I s \<Longrightarrow> P s \<Longrightarrow> R s (tab (update_where Q f) s)) \<Longrightarrow> safe_when P (upd_count sel tab Q f)"
  by (auto simp: safe_when_def tx_simps)

lemma safe_case_option:
  "(x = None \<Longrightarrow> safe_when P m) \<Longrightarrow> (\<And>y. x = Some y \<Longrightarrow> safe_when P (f y)) \<Longrightarrow>
   safe_when P (case x of None \<Rightarrow> m | Some y \<Rightarrow> f y)"
  by (cases x) auto

lemma safe_case_prod:
  "(\<And>a b. x = (a, b) \<Longrightarrow> safe_when P (f a b)) \<Longrightarrow> safe_when P (case x of (a, b) \<Rightarrow> f a b)"
  by (cases x) auto

lemma safe_let: "safe_when P (f x) \<Longrightarrow> safe_when P (let y = x in f y)"
  by simp

lemmas safe_rules =
  safe_ret safe_throw safe_failure safe_throw_if safe_reads safe_require safe_fresh safe_now
  safe_when_tx safe_if safe_bnd safe_thn safe_each safe_collect safe_case_option safe_case_prod
  safe_let

end

end
