(* ===== verification/Fabric_Frames.thy ===== *)
theory Fabric_Frames
  imports Fabric_Logic
begin

text \<open>
  What the shared operations leave alone: events, messages, continuations, incidents and
  artifacts never change the work tables (Missions, tasks, dependencies, principals,
  Assignments, Attempts, outbox), and the continuation machinery never changes messages.
\<close>

definition same_work :: "fab \<Rightarrow> fab \<Rightarrow> bool" where
  "same_work s t \<longleftrightarrow> missions t = missions s \<and> tasks t = tasks s \<and> dependencies t = dependencies s \<and>
     principals t = principals s \<and> assignments t = assignments s \<and> attempts t = attempts s \<and>
     outbox t = outbox s"

interpretation work: tx_relation same_work "\<lambda>_. True"
  by unfold_locales (auto simp: same_work_def)

named_theorems work_frame "operations that keep the work tables"

lemma work_inserts [work_frame]:
  "work.safe (insert_event e)" "work.safe (insert_message_row m)" "work.safe (insert_delivery d)"
  "work.safe (insert_target t)" "work.safe (insert_intent_or_ignore i)"
  "work.safe (insert_continuation c)" "work.safe (insert_conversation v)"
  "work.safe (insert_artifact a)" "work.safe (insert_incident n)" "work.safe (insert_request q)"
  "work.safe (insert_resolution z)" "work.safe (insert_runtime_event y)"
  by (auto simp: work.safe_when_def insert_event_def insert_message_row_def insert_delivery_def
      insert_target_def insert_intent_or_ignore_def insert_continuation_def insert_conversation_def
      insert_artifact_def insert_incident_def insert_request_def insert_resolution_def
      insert_runtime_event_def insert_row_run insert_or_ignore_run thn_run bnd_run tx_simps same_work_def
      split: if_splits)

lemma work_updates [work_frame]:
  "work.safe (upd targets_update P1 f1)" "work.safe (upd intents_update P2 f2)"
  "work.safe (upd continuations_update P3 f3)" "work.safe (upd conversations_update P4 f4)"
  "work.safe (upd participants_update P5 f5)" "work.safe (upd messages_update P6 f6)"
  "work.safe (upd deliveries_update P7 f7)" "work.safe (upd incidents_update P8 f8)"
  "work.safe (upd requests_update P9 f9)" "work.safe (upd runtime_sessions_update P10 f10)"
  "work.safe (upd_count sel1 targets_update P1 f1)"
  "work.safe (upd_count sel2 intents_update P2 f2)"
  "work.safe (upd_count sel3 continuations_update P3 f3)"
  "work.safe (change (participants_update g))"
  by (auto simp: work.safe_when_def tx_simps same_work_def)

lemma work_appendEvent [work_frame]: "work.safe (appendEvent m ty a b c p)"
  unfolding appendEvent_def by (intro work.safe_rules work_frame)

lemma work_lookups [work_frame]:
  "work.safe (requireMission i)" "work.safe (requireTask i)" "work.safe (requirePrincipal i)"
  "work.safe (requireAssignment i)" "work.safe (requireAttempt i)"
  "work.safe (requireConversation i)" "work.safe (requireActionRequest i)"
  "work.safe (requireActionResolution i)" "work.safe (requireIncident i)"
  "work.safe (requireContinuation i)" "work.safe (attempt_if j)" "work.safe (assignment_if j)"
  "work.safe (assertAssignmentMission i m)"
  unfolding requireMission_def requireTask_def requirePrincipal_def requireAssignment_def
    requireAttempt_def requireConversation_def requireActionRequest_def requireActionResolution_def
    requireIncident_def requireContinuation_def attempt_if_def assignment_if_def
    assertAssignmentMission_def
  by (intro work.safe_rules)+

lemma work_ensureConversation [work_frame]: "work.safe (ensureConversation m r t c th)"
  unfolding ensureConversation_def by (intro work.safe_rules work_frame)

lemma work_participant [work_frame]: "work.safe (addConversationParticipant c p a t)"
  unfolding addConversationParticipant_def by (intro work.safe_rules work_frame)

lemma work_message_end [work_frame]: "work.safe (add_message_end c a t)"
  unfolding add_message_end_def by (intro work.safe_rules work_frame)

lemma work_bundle [work_frame]: "work.safe (continuationBundle i)"
  unfolding continuationBundle_def by (intro work.safe_rules work_frame)

lemma work_satisfy [work_frame]: "work.safe (satisfyContinuationTarget i b p)"
  unfolding satisfyContinuationTarget_def by (intro work.safe_rules work_frame)

lemma work_ready [work_frame]: "work.safe (readyContinuation i p)"
  unfolding readyContinuation_def by (intro work.safe_rules work_frame)

lemma work_reconcile_target [work_frame]: "work.safe (reconcile_target c t)"
  unfolding reconcile_target_def by (intro work.safe_rules work_frame)

lemma work_reconcile [work_frame]: "work.safe (reconcileContinuation i)"
  unfolding reconcileContinuation_def by (intro work.safe_rules work_frame)

lemma work_satisfy_each [work_frame]: "work.safe (satisfy_each q b p ts acc)"
proof (induction ts arbitrary: acc)
  case Nil
  show ?case unfolding satisfy_each.simps by (rule work.safe_ret)
next
  case (Cons t ts)
  show ?case unfolding satisfy_each.simps by (intro work.safe_rules work_frame Cons.IH)
qed

lemma work_from_message [work_frame]: "work.safe (satisfyContinuationsFromMessage m)"
  unfolding satisfyContinuationsFromMessage_def by (intro work.safe_rules work_frame)

lemma work_from_assignment [work_frame]: "work.safe (satisfyContinuationsFromAssignment a)"
  unfolding satisfyContinuationsFromAssignment_def by (intro work.safe_rules work_frame)

lemma work_cancel [work_frame]: "work.safe (cancelContinuation i r)"
  unfolding cancelContinuation_def by (intro work.safe_rules work_frame)

lemma work_cancelOwned [work_frame]: "work.safe (cancelOwnedContinuations o' a r)"
  unfolding cancelOwnedContinuations_def by (intro work.safe_rules work_frame)

lemma work_insertMessage [work_frame]: "work.safe (insertMessage i r)"
  unfolding insertMessage_def by (intro work.safe_rules work_frame)

lemma work_incident [work_frame]: "work.safe (recordIncident i)"
  unfolding recordIncident_def incident_guard_def by (intro work.safe_rules work_frame)

lemma work_artifact [work_frame]: "work.safe (insert_artifact_for m a e t x)"
  unfolding insert_artifact_for_def by (intro work.safe_rules work_frame)

lemma work_artifacts [work_frame]: "work.safe (recordArtifacts m a e xs)"
  unfolding recordArtifacts_def by (intro work.safe_rules work_frame)

text \<open>What a caller uses: the tables after such an operation are those before it.\<close>

lemma work_same:
  assumes "work.safe m" and "m s = Inr (a, t)"
  shows "missions t = missions s" "tasks t = tasks s" "dependencies t = dependencies s"
    "principals t = principals s" "assignments t = assignments s" "attempts t = attempts s"
    "outbox t = outbox s"
  using work.safe_whenD[OF assms(1) _ _ assms(2)] by (auto simp: same_work_def)

lemma keeps_work:
  assumes "work.safe m" and "\<And>s t. same_work s t \<Longrightarrow> P s \<Longrightarrow> P t"
  shows "keeps P m"
  unfolding keeps_def using assms(2) work.safe_whenD[OF assms(1)] by blast

end
