(* ===== verification/Fabric_Steps.thy ===== *)
theory Fabric_Steps
  imports Fabric_Frames
begin

text \<open>
  The abstract specification of the Mission store: \<open>store_step\<close>, the row-level steps its
  operations may take. An insertion meets the constraints of the schema; an update moves rows
  along a change relation that fixes what is immutable (identity, the text of a message, a
  terminal Attempt) and which states may follow which; a continuation and its resume intent move
  together; a deletion takes trashed Missions with everything they own.
\<close>

section \<open>Changes of a row\<close>

definition mission_change :: "mission_row \<Rightarrow> mission_row \<Rightarrow> bool" where
  "mission_change r r' \<longleftrightarrow> r' = r \<or>
     (ms_id r' = ms_id r \<and> ms_workspace_id r' = ms_workspace_id r \<and>
      ms_origin_task r' = ms_origin_task r \<and> ms_policy r' = ms_policy r \<and>
      ms_created_at r' = ms_created_at r \<and> ms_version r' = ms_version r + 1 \<and>
      (ms_state r' = ms_state r \<or> ms_state r' \<in> set (MISSION_TRANSITIONS (ms_state r))) \<and>
      (ms_deleted_at r' = None \<or> ms_deleted_at r' = ms_deleted_at r \<or>
       ms_state r \<in> set TERMINAL_MISSION_STATES))"

definition task_change :: "task_row \<Rightarrow> task_row \<Rightarrow> bool" where
  "task_change r r' \<longleftrightarrow> r' = r \<or>
     (tk_id r' = tk_id r \<and> tk_mission r' = tk_mission r \<and> tk_parent r' = tk_parent r \<and>
      tk_created_by r' = tk_created_by r \<and> tk_title r' = tk_title r \<and>
      tk_work_mode r' = tk_work_mode r \<and> tk_write_scope r' = tk_write_scope r \<and>
      tk_created_at r' = tk_created_at r \<and> tk_version r' = tk_version r + 1)"

definition principal_change :: "principal_row \<Rightarrow> principal_row \<Rightarrow> bool" where
  "principal_change r r' \<longleftrightarrow>
     pr_id r' = pr_id r \<and> pr_kind r' = pr_kind r \<and> pr_created_at r' = pr_created_at r"

definition assignment_change :: "fab \<Rightarrow> assignment_row \<Rightarrow> assignment_row \<Rightarrow> bool" where
  "assignment_change s r r' \<longleftrightarrow>
     as_id r' = as_id r \<and> as_mission r' = as_mission r \<and> as_task r' = as_task r \<and>
     as_created_at r' = as_created_at r \<and>
     (as_supervisor r' = as_supervisor r \<or> opt_assignment s (as_supervisor r')) \<and>
     (as_assignee r' = as_assignee r \<or> is_principal s (as_assignee r'))"

definition attempt_change :: "attempt_row \<Rightarrow> attempt_row \<Rightarrow> bool" where
  "attempt_change r r' \<longleftrightarrow> r' = r \<or>
     (\<not> isTerminalAttemptState (at_state r) \<and> at_id r' = at_id r \<and>
      at_assignment r' = at_assignment r \<and> at_ordinal r' = at_ordinal r \<and>
      at_runtime r' = at_runtime r \<and> at_model r' = at_model r \<and>
      (at_state r' = at_state r \<or> at_state r' \<noteq> Attempt_PLANNED))"

definition message_change :: "message_row \<Rightarrow> message_row \<Rightarrow> bool" where
  "message_change r r' \<longleftrightarrow>
     (\<exists>d e. r' = r\<lparr> mg_delivered_at := coalesce (mg_delivered_at r) d,
                    mg_read_at := coalesce (mg_read_at r) e \<rparr>)"

definition outbox_change :: "outbox_row \<Rightarrow> outbox_row \<Rightarrow> bool" where
  "outbox_change r r' \<longleftrightarrow>
     ob_id r' = ob_id r \<and> ob_mission r' = ob_mission r \<and> ob_operation r' = ob_operation r \<and>
     ob_aggregate r' = ob_aggregate r \<and> ob_key r' = ob_key r \<and> ob_payload r' = ob_payload r \<and>
     ob_created_at r' = ob_created_at r \<and> ob_attempts r \<le> ob_attempts r'"

definition session_change :: "runtime_session_row \<Rightarrow> runtime_session_row \<Rightarrow> bool" where
  "session_change r r' \<longleftrightarrow>
     rs_id r' = rs_id r \<and> rs_attempt r' = rs_attempt r \<and> rs_created_at r' = rs_created_at r"

definition delivery_change :: "delivery_row \<Rightarrow> delivery_row \<Rightarrow> bool" where
  "delivery_change r r' \<longleftrightarrow> dl_message r' = dl_message r \<and> dl_assignment r' = dl_assignment r \<and>
     dl_attempts r \<le> dl_attempts r'"

definition continuation_change :: "continuation_row \<Rightarrow> continuation_row \<Rightarrow> bool" where
  "continuation_change r r' \<longleftrightarrow>
     cn_id r' = cn_id r \<and> cn_mission r' = cn_mission r \<and> cn_owner r' = cn_owner r \<and>
     cn_attempt r' = cn_attempt r \<and> cn_mode r' = cn_mode r \<and> cn_reason r' = cn_reason r \<and>
     cn_cursor r' = cn_cursor r \<and> cn_deadline r' = cn_deadline r \<and> cn_key r' = cn_key r \<and>
     cn_created_at r' = cn_created_at r"

definition intent_change :: "intent_row \<Rightarrow> intent_row \<Rightarrow> bool" where
  "intent_change r r' \<longleftrightarrow>
     ri_id r' = ri_id r \<and> ri_continuation r' = ri_continuation r \<and> ri_mission r' = ri_mission r \<and>
     ri_owner r' = ri_owner r \<and> ri_attempt r' = ri_attempt r \<and> ri_key r' = ri_key r \<and>
     ri_created_at r' = ri_created_at r"

definition target_change :: "target_row \<Rightarrow> target_row \<Rightarrow> bool" where
  "target_change r r' \<longleftrightarrow> r' = r \<or>
     (ct_satisfied_at r = None \<and> (\<exists>b p t. r' = r\<lparr> ct_satisfied_by := b,
        ct_satisfied_payload := p, ct_satisfied_at := Some t \<rparr>))"

definition conversation_change :: "conversation_row \<Rightarrow> conversation_row \<Rightarrow> bool" where
  "conversation_change r r' \<longleftrightarrow> (\<exists>t. r' = r\<lparr> cv_updated_at := t \<rparr>)"

definition participant_change :: "fab \<Rightarrow> participant_row \<Rightarrow> participant_row \<Rightarrow> bool" where
  "participant_change s r r' \<longleftrightarrow>
     cp_conversation r' = cp_conversation r \<and> cp_principal r' = cp_principal r \<and>
     (cp_assignment r' = cp_assignment r \<or> opt_assignment s (cp_assignment r'))"

definition request_change :: "request_row \<Rightarrow> request_row \<Rightarrow> bool" where
  "request_change r r' \<longleftrightarrow>
     (\<exists>m. r' = r\<lparr> rq_opening_message := m \<rparr>) \<or>
     (rq_status r = Req_OPEN \<and>
      (\<exists>t. r' = r\<lparr> rq_status := Req_RESOLVED, rq_resolved_at := Some t, rq_updated_at := t \<rparr>))"

definition incident_change :: "fab \<Rightarrow> incident_row \<Rightarrow> incident_row \<Rightarrow> bool" where
  "incident_change s r r' \<longleftrightarrow>
     ic_id r' = ic_id r \<and> ic_mission r' = ic_mission r \<and> ic_assignment r' = ic_assignment r \<and>
     ic_attempt r' = ic_attempt r \<and> ic_kind r' = ic_kind r \<and> ic_created_at r' = ic_created_at r \<and>
     (ic_request r' = ic_request r \<or> opt_key_of rq_id (requests s) (ic_request r'))"

section \<open>Waiting\<close>

text \<open>The state of a continuation together with the state of its resume intent.\<close>

type_synonym wait_state = "continuation_state option \<times> resume_intent_state option"

definition wait_state :: "continuation_row list \<Rightarrow> intent_row list \<Rightarrow> string \<Rightarrow> wait_state" where
  "wait_state cs is i =
     (map_option cn_state (find (\<lambda>c. cn_id c = i) cs),
      map_option ri_state (find (\<lambda>r. ri_continuation r = i) is))"

definition WAIT_STATES :: "wait_state list" where
  "WAIT_STATES =
     [(None, None), (Some Cont_ARMED, None), (Some Cont_READY, Some Intent_PENDING),
      (Some Cont_DELIVERING, Some Intent_PROCESSING), (Some Cont_DELIVERED, Some Intent_DELIVERED),
      (Some Cont_CONSUMED, Some Intent_ACKNOWLEDGED), (Some Cont_CANCELLED, None),
      (Some Cont_CANCELLED, Some Intent_CANCELLED)]"

definition WAIT_MOVES :: "(wait_state \<times> wait_state) list" where
  "WAIT_MOVES =
     [((Some Cont_READY, Some Intent_PENDING), (Some Cont_DELIVERING, Some Intent_PROCESSING)),
      ((Some Cont_DELIVERING, Some Intent_PROCESSING), (Some Cont_DELIVERED, Some Intent_DELIVERED)),
      ((Some Cont_DELIVERING, Some Intent_PROCESSING), (Some Cont_READY, Some Intent_PENDING)),
      ((Some Cont_DELIVERED, Some Intent_DELIVERED), (Some Cont_READY, Some Intent_PENDING)),
      ((Some Cont_READY, Some Intent_PENDING), (Some Cont_CONSUMED, Some Intent_ACKNOWLEDGED)),
      ((Some Cont_DELIVERING, Some Intent_PROCESSING), (Some Cont_CONSUMED, Some Intent_ACKNOWLEDGED)),
      ((Some Cont_DELIVERED, Some Intent_DELIVERED), (Some Cont_CONSUMED, Some Intent_ACKNOWLEDGED)),
      ((Some Cont_ARMED, None), (Some Cont_CANCELLED, None)),
      ((Some Cont_READY, Some Intent_PENDING), (Some Cont_CANCELLED, Some Intent_CANCELLED)),
      ((Some Cont_DELIVERING, Some Intent_PROCESSING), (Some Cont_CANCELLED, Some Intent_CANCELLED)),
      ((Some Cont_DELIVERED, Some Intent_DELIVERED), (Some Cont_CANCELLED, Some Intent_CANCELLED))]"

definition wait_moves ::
    "continuation_row list \<Rightarrow> intent_row list \<Rightarrow> continuation_row list \<Rightarrow> intent_row list \<Rightarrow> bool" where
  "wait_moves cs is cs' is' \<longleftrightarrow>
     (\<forall>i. wait_state cs' is' i = wait_state cs is i \<or>
          (wait_state cs is i, wait_state cs' is' i) \<in> set WAIT_MOVES)"

text \<open>The intent of a continuation carries its owner.\<close>

definition intent_of :: "continuation_row \<Rightarrow> intent_row \<Rightarrow> bool" where
  "intent_of c r \<longleftrightarrow> ri_continuation r = cn_id c \<and> ri_mission r = cn_mission c \<and>
     ri_owner r = cn_owner c \<and> ri_attempt r = cn_attempt c \<and> ri_key r = ''resume:'' @ cn_id c"

section \<open>Steps\<close>

text \<open>\<open>purge\<close>: whether trashed Missions may be deleted; a \<open>store_step\<close> never deletes a row.\<close>

inductive store_move :: "bool \<Rightarrow> fab \<Rightarrow> fab \<Rightarrow> bool" for purge :: bool where
  step_host: "host_tick (fab_host s) h \<Longrightarrow> store_move purge s (s\<lparr>fab_host := h\<rparr>)"
| step_mission_new: "new_key ms_id (missions s) r \<Longrightarrow> mission_refs s r \<Longrightarrow>
    ms_state r = Mission_RUNNING \<Longrightarrow> ms_deleted_at r = None \<Longrightarrow>
    store_move purge s (s\<lparr>missions := missions s @ [r]\<rparr>)"
| step_missions: "list_all2 mission_change (missions s) rs \<Longrightarrow> store_move purge s (s\<lparr>missions := rs\<rparr>)"
| step_task_new: "new_key tk_id (tasks s) r \<Longrightarrow> task_refs s r \<Longrightarrow>
    store_move purge s (s\<lparr>tasks := tasks s @ [r]\<rparr>)"
| step_tasks: "list_all2 task_change (tasks s) rs \<Longrightarrow> store_move purge s (s\<lparr>tasks := rs\<rparr>)"
| step_dependency: "dependency_unique (dependencies s) r \<Longrightarrow> dependency_refs s r \<Longrightarrow>
    tasks s \<noteq> [] \<Longrightarrow> dp_task r = tk_id (last (tasks s)) \<Longrightarrow>
    store_move purge s (s\<lparr>dependencies := dependencies s @ [r]\<rparr>)"
| step_principal_new: "new_key pr_id (principals s) r \<Longrightarrow>
    store_move purge s (s\<lparr>principals := principals s @ [r]\<rparr>)"
| step_principals: "list_all2 principal_change (principals s) rs \<Longrightarrow> store_move purge s (s\<lparr>principals := rs\<rparr>)"
| step_assignment_new: "new_key as_id (assignments s) r \<Longrightarrow> assignment_refs s r \<Longrightarrow>
    store_move purge s (s\<lparr>assignments := assignments s @ [r]\<rparr>)"
| step_assignments: "list_all2 (assignment_change s) (assignments s) rs \<Longrightarrow>
    store_move purge s (s\<lparr>assignments := rs\<rparr>)"
| step_attempt_new: "attempt_unique (attempts s) r \<Longrightarrow> attempt_refs s r \<Longrightarrow>
    store_move purge s (s\<lparr>attempts := attempts s @ [r]\<rparr>)"
| step_attempts: "list_all2 attempt_change (attempts s) rs \<Longrightarrow> store_move purge s (s\<lparr>attempts := rs\<rparr>)"
| step_message_new: "new_key mg_id (messages s) r \<Longrightarrow> message_refs s r \<Longrightarrow>
    mg_sequence r = Suc (message_seq s) \<Longrightarrow>
    store_move purge s (s\<lparr>messages := messages s @ [r], message_seq := Suc (message_seq s)\<rparr>)"
| step_messages: "list_all2 message_change (messages s) rs \<Longrightarrow> store_move purge s (s\<lparr>messages := rs\<rparr>)"
| step_event_new: "event_unique (events s) r \<Longrightarrow> event_refs s r \<Longrightarrow> issued_id (fab_host s) (ev_id r) \<Longrightarrow>
    ev_sequence r = next_event_sequence (ev_mission r) s \<Longrightarrow>
    store_move purge s (s\<lparr>events := events s @ [r]\<rparr>)"
| step_outbox_new: "outbox_unique (outbox s) r \<Longrightarrow> outbox_refs s r \<Longrightarrow> ob_state r = Outbox_PENDING \<Longrightarrow>
    store_move purge s (s\<lparr>outbox := outbox s @ [r]\<rparr>)"
| step_outbox: "list_all2 outbox_change (outbox s) rs \<Longrightarrow> store_move purge s (s\<lparr>outbox := rs\<rparr>)"
| step_artifact_new: "new_key af_id (artifacts s) r \<Longrightarrow> artifact_refs s r \<Longrightarrow>
    store_move purge s (s\<lparr>artifacts := artifacts s @ [r]\<rparr>)"
| step_session_new: "new_key rs_id (runtime_sessions s) r \<Longrightarrow> new_key rs_attempt (runtime_sessions s) r \<Longrightarrow>
    runtime_session_refs s r \<Longrightarrow> store_move purge s (s\<lparr>runtime_sessions := runtime_sessions s @ [r]\<rparr>)"
| step_sessions: "list_all2 session_change (runtime_sessions s) rs \<Longrightarrow>
    store_move purge s (s\<lparr>runtime_sessions := rs\<rparr>)"
| step_runtime_event_new: "runtime_event_unique (runtime_events s) r \<Longrightarrow> runtime_event_refs s r \<Longrightarrow>
    store_move purge s (s\<lparr>runtime_events := runtime_events s @ [r]\<rparr>)"
| step_delivery_new: "delivery_unique (deliveries s) r \<Longrightarrow> delivery_refs s r \<Longrightarrow>
    store_move purge s (s\<lparr>deliveries := deliveries s @ [r]\<rparr>)"
| step_deliveries: "list_all2 delivery_change (deliveries s) rs \<Longrightarrow> store_move purge s (s\<lparr>deliveries := rs\<rparr>)"
| step_arm: "continuation_unique (continuations s) r \<Longrightarrow> continuation_refs s r \<Longrightarrow>
    cn_state r = Cont_ARMED \<Longrightarrow> store_move purge s (s\<lparr>continuations := continuations s @ [r]\<rparr>)"
| step_target_new: "new_key ct_id (targets s) r \<Longrightarrow> target_refs s r \<Longrightarrow>
    store_move purge s (s\<lparr>targets := targets s @ [r]\<rparr>)"
| step_targets: "list_all2 target_change (targets s) rs \<Longrightarrow> store_move purge s (s\<lparr>targets := rs\<rparr>)"
| step_wake: "list_all2 continuation_change (continuations s) cs \<Longrightarrow>
    intent_unique (intents s) r \<Longrightarrow> intent_refs s r \<Longrightarrow> issued_id (fab_host s) (ri_id r) \<Longrightarrow>
    c \<in> set (continuations s) \<Longrightarrow> intent_of c r \<Longrightarrow> cn_state c = Cont_ARMED \<Longrightarrow>
    (\<forall>i. wait_state cs (intents s @ [r]) i =
       (if i = ri_continuation r then (Some Cont_READY, Some Intent_PENDING)
        else wait_state (continuations s) (intents s) i)) \<Longrightarrow>
    store_move purge s (s\<lparr>continuations := cs, intents := intents s @ [r]\<rparr>)"
| step_waits: "list_all2 continuation_change (continuations s) cs \<Longrightarrow>
    list_all2 intent_change (intents s) is \<Longrightarrow>
    wait_moves (continuations s) (intents s) cs is \<Longrightarrow>
    store_move purge s (s\<lparr>continuations := cs, intents := is\<rparr>)"
| step_conversation_new: "new_key cv_id (conversations s) r \<Longrightarrow> conversation_refs s r \<Longrightarrow>
    store_move purge s (s\<lparr>conversations := conversations s @ [r]\<rparr>)"
| step_conversations: "list_all2 conversation_change (conversations s) rs \<Longrightarrow>
    store_move purge s (s\<lparr>conversations := rs\<rparr>)"
| step_participant_new: "new_key participant_key (participants s) r \<Longrightarrow> participant_refs s r \<Longrightarrow>
    store_move purge s (s\<lparr>participants := participants s @ [r]\<rparr>)"
| step_participants: "list_all2 (participant_change s) (participants s) rs \<Longrightarrow>
    store_move purge s (s\<lparr>participants := rs\<rparr>)"
| step_request_new: "request_unique (requests s) r \<Longrightarrow> request_refs s r \<Longrightarrow> rq_status r = Req_OPEN \<Longrightarrow>
    store_move purge s (s\<lparr>requests := requests s @ [r]\<rparr>)"
| step_requests: "list_all2 request_change (requests s) rs \<Longrightarrow> store_move purge s (s\<lparr>requests := rs\<rparr>)"
| step_resolution_new: "resolution_unique (resolutions s) r \<Longrightarrow> resolution_refs s r \<Longrightarrow>
    store_move purge s (s\<lparr>resolutions := resolutions s @ [r]\<rparr>)"
| step_incident_new: "incident_unique (incidents s) r \<Longrightarrow> incident_refs s r \<Longrightarrow>
    store_move purge s (s\<lparr>incidents := incidents s @ [r]\<rparr>)"
| step_incidents: "list_all2 (incident_change s) (incidents s) rs \<Longrightarrow>
    store_move purge s (s\<lparr>incidents := rs\<rparr>)"
| step_delete: "purge \<Longrightarrow> (\<And>m. P m \<Longrightarrow> ms_deleted_at m \<noteq> None) \<Longrightarrow> store_move purge s (delete_missions P s)"

abbreviation store_step :: "fab \<Rightarrow> fab \<Rightarrow> bool" where
  "store_step \<equiv> store_move False"

abbreviation store_run :: "fab \<Rightarrow> fab \<Rightarrow> bool" where
  "store_run \<equiv> store_step\<^sup>*\<^sup>*"

section \<open>Rows under a change\<close>

lemma list_all2_update_where:
  "(\<And>r. r \<in> set rows \<Longrightarrow> Q r r) \<Longrightarrow> (\<And>r. r \<in> set rows \<Longrightarrow> P r \<Longrightarrow> Q r (f r)) \<Longrightarrow>
   list_all2 Q rows (update_where P f rows)"
  by (induction rows) auto

lemma list_all2_map_eq: "list_all2 Q xs ys \<Longrightarrow> (\<And>x y. Q x y \<Longrightarrow> k y = k x) \<Longrightarrow> map k ys = map k xs"
  by (induction rule: list_all2_induct) auto

lemma list_all2_set: "list_all2 Q xs ys \<Longrightarrow> y \<in> set ys \<Longrightarrow> \<exists>x\<in>set xs. Q x y"
  by (induction rule: list_all2_induct) auto

lemma list_all2_find:
  "list_all2 Q xs ys \<Longrightarrow> (\<And>x y. Q x y \<Longrightarrow> k y = k x) \<Longrightarrow>
   rel_option Q (find (\<lambda>x. k x = i) xs) (find (\<lambda>y. k y = i) ys)"
  by (induction rule: list_all2_induct) auto

lemma change_refl [simp]:
  "mission_change r1 r1" "task_change r2 r2" "principal_change r3 r3" "assignment_change s r4 r4"
  "attempt_change r5 r5" "outbox_change r6 r6" "session_change r7 r7" "delivery_change r8 r8"
  "continuation_change r9 r9" "intent_change r10 r10" "target_change r11 r11"
  "participant_change s r12 r12" "incident_change s r13 r13"
  by (auto simp: mission_change_def task_change_def principal_change_def assignment_change_def
      attempt_change_def outbox_change_def session_change_def delivery_change_def
      continuation_change_def intent_change_def target_change_def participant_change_def
      incident_change_def)

lemma change_refl' [simp]:
  "message_change (r1 :: message_row) r1" "conversation_change (r2 :: conversation_row) r2"
  "request_change (r3 :: request_row) r3"
proof -
  show "message_change r1 r1"
    unfolding message_change_def by (rule exI[of _ None], rule exI[of _ None]) simp
  show "conversation_change r2 r2"
    unfolding conversation_change_def by (rule exI[of _ "cv_updated_at r2"]) simp
  show "request_change r3 r3"
    unfolding request_change_def by (rule disjI1, rule exI[of _ "rq_opening_message r3"]) simp
qed

end
