(* ===== verification/Fabric_Invariant.thy ===== *)
theory Fabric_Invariant
  imports Fabric_Steps
begin

text \<open>
  The invariant of the Mission store and its preservation by every step: unique keys, foreign
  keys that resolve, dependencies that point to earlier tasks (so they have no cycle), dense
  event numbers per Mission, increasing message numbers, and the agreement of every continuation
  with its resume intent.
\<close>

section \<open>Unique keys\<close>

definition inv_keys :: "fab \<Rightarrow> bool" where
  "inv_keys s \<longleftrightarrow>
     distinct (map ms_id (missions s)) \<and> distinct (map tk_id (tasks s)) \<and>
     distinct (map pr_id (principals s)) \<and> distinct (map as_id (assignments s)) \<and>
     distinct (map at_id (attempts s)) \<and>
     distinct (map (\<lambda>e. (at_assignment e, at_ordinal e)) (attempts s)) \<and>
     distinct (map mg_id (messages s)) \<and> distinct (map ob_id (outbox s)) \<and>
     distinct (map (\<lambda>b. (ob_mission b, ob_operation b, ob_key b)) (outbox s)) \<and>
     distinct (map rs_attempt (runtime_sessions s)) \<and>
     distinct (map cn_id (continuations s)) \<and>
     distinct (map (\<lambda>c. (cn_mission c, cn_owner c, cn_key c)) (continuations s)) \<and>
     distinct (map ri_continuation (intents s)) \<and> distinct (map ri_id (intents s)) \<and>
     distinct (map ct_id (targets s)) \<and>
     distinct (map cv_id (conversations s)) \<and> distinct (map rq_id (requests s)) \<and>
     distinct (map (\<lambda>q. (rq_mission q, rq_creator q, rq_key q)) (requests s)) \<and>
     distinct (map rz_request (resolutions s)) \<and> distinct (map ic_id (incidents s))"

lemma distinct_snoc_key: "distinct (map k rows) \<Longrightarrow> new_key k rows r \<Longrightarrow> distinct (map k (rows @ [r]))"
  by (auto simp: new_key_def)

lemma distinct_filter_map: "distinct (map k rows) \<Longrightarrow> (\<And>r. k (f r) = k r) \<Longrightarrow>
    distinct (map k (map f (filter Q rows)))"
  by (induction rows) auto

lemma distinct_filter_key: "distinct (map k rows) \<Longrightarrow> distinct (map k (filter Q rows))"
  by (induction rows) auto

lemma change_keys:
  "list_all2 mission_change ms ms' \<Longrightarrow> map ms_id ms' = map ms_id ms"
  "list_all2 task_change ts ts' \<Longrightarrow> map tk_id ts' = map tk_id ts"
  "list_all2 principal_change ps ps' \<Longrightarrow> map pr_id ps' = map pr_id ps"
  "list_all2 (assignment_change s) as as' \<Longrightarrow> map as_id as' = map as_id as"
  "list_all2 attempt_change es es' \<Longrightarrow> map at_id es' = map at_id es"
  "list_all2 attempt_change es es' \<Longrightarrow>
     map (\<lambda>e. (at_assignment e, at_ordinal e)) es' = map (\<lambda>e. (at_assignment e, at_ordinal e)) es"
  "list_all2 message_change gs gs' \<Longrightarrow> map mg_id gs' = map mg_id gs"
  "list_all2 outbox_change bs bs' \<Longrightarrow> map ob_id bs' = map ob_id bs"
  "list_all2 outbox_change bs bs' \<Longrightarrow> map (\<lambda>b. (ob_mission b, ob_operation b, ob_key b)) bs' =
     map (\<lambda>b. (ob_mission b, ob_operation b, ob_key b)) bs"
  "list_all2 session_change rs rs' \<Longrightarrow> map rs_attempt rs' = map rs_attempt rs"
  "list_all2 session_change rs rs' \<Longrightarrow> map rs_id rs' = map rs_id rs"
  "list_all2 continuation_change cs cs' \<Longrightarrow> map cn_id cs' = map cn_id cs"
  "list_all2 continuation_change cs cs' \<Longrightarrow> map (\<lambda>c. (cn_mission c, cn_owner c, cn_key c)) cs' =
     map (\<lambda>c. (cn_mission c, cn_owner c, cn_key c)) cs"
  "list_all2 intent_change is is' \<Longrightarrow> map ri_continuation is' = map ri_continuation is"
  "list_all2 intent_change is is' \<Longrightarrow> map ri_id is' = map ri_id is"
  "list_all2 target_change us us' \<Longrightarrow> map ct_id us' = map ct_id us"
  "list_all2 conversation_change vs vs' \<Longrightarrow> map cv_id vs' = map cv_id vs"
  "list_all2 request_change qs qs' \<Longrightarrow> map rq_id qs' = map rq_id qs"
  "list_all2 request_change qs qs' \<Longrightarrow> map (\<lambda>q. (rq_mission q, rq_creator q, rq_key q)) qs' =
     map (\<lambda>q. (rq_mission q, rq_creator q, rq_key q)) qs"
  "list_all2 (incident_change s) ns ns' \<Longrightarrow> map ic_id ns' = map ic_id ns"
  by (erule list_all2_map_eq,
      auto simp: mission_change_def task_change_def principal_change_def assignment_change_def
        attempt_change_def message_change_def outbox_change_def session_change_def
        continuation_change_def intent_change_def target_change_def conversation_change_def
        request_change_def incident_change_def)+

lemma cascade_core_tables:
  "principals (cascade_core d s) = principals s"
  "messages (cascade_core d s) = messages s"
  "message_seq (cascade_core d s) = message_seq s"
  "events (cascade_core d s) = events s"
  "outbox (cascade_core d s) = outbox s"
  "artifacts (cascade_core d s) = artifacts s"
  "runtime_sessions (cascade_core d s) = runtime_sessions s"
  "runtime_events (cascade_core d s) = runtime_events s"
  "deliveries (cascade_core d s) = deliveries s"
  "continuations (cascade_core d s) = continuations s"
  "targets (cascade_core d s) = targets s"
  "intents (cascade_core d s) = intents s"
  "conversations (cascade_core d s) = conversations s"
  "participants (cascade_core d s) = participants s"
  "requests (cascade_core d s) = requests s"
  "resolutions (cascade_core d s) = resolutions s"
  "incidents (cascade_core d s) = incidents s"
  "workspaces (cascade_core d s) = workspaces s"
  "session_tasks (cascade_core d s) = session_tasks s"
  "fab_host (cascade_core d s) = fab_host s"
  "missions (cascade_core d s) = filter (\<lambda>m. ms_id m \<notin> set (del_missions d)) (missions s)"
  "tasks (cascade_core d s) = map (\<lambda>t. t\<lparr>tk_parent := keep_ref (del_tasks d) (tk_parent t)\<rparr>) (filter (\<lambda>t. tk_mission t \<notin> set (del_missions d)) (tasks s))"
  "dependencies (cascade_core d s) = filter (\<lambda>r. dp_task r \<notin> set (del_tasks d) \<and>
      dp_on r \<notin> set (del_tasks d)) (dependencies s)"
  "assignments (cascade_core d s) = map (\<lambda>a. a\<lparr>as_supervisor := keep_ref (del_assignments d) (as_supervisor a)\<rparr>) (filter (\<lambda>a. as_mission a \<notin> set (del_missions d) \<and> as_task a \<notin> set (del_tasks d)) (assignments s))"
  "attempts (cascade_core d s) = filter (\<lambda>e. at_assignment e \<notin> set (del_assignments d)) (attempts s)"
  by (simp_all add: cascade_core_def)

lemma cascade_log_tables:
  "missions (cascade_log d s) = missions s"
  "tasks (cascade_log d s) = tasks s"
  "dependencies (cascade_log d s) = dependencies s"
  "principals (cascade_log d s) = principals s"
  "assignments (cascade_log d s) = assignments s"
  "attempts (cascade_log d s) = attempts s"
  "message_seq (cascade_log d s) = message_seq s"
  "continuations (cascade_log d s) = continuations s"
  "targets (cascade_log d s) = targets s"
  "intents (cascade_log d s) = intents s"
  "conversations (cascade_log d s) = conversations s"
  "participants (cascade_log d s) = participants s"
  "requests (cascade_log d s) = requests s"
  "resolutions (cascade_log d s) = resolutions s"
  "incidents (cascade_log d s) = incidents s"
  "workspaces (cascade_log d s) = workspaces s"
  "session_tasks (cascade_log d s) = session_tasks s"
  "fab_host (cascade_log d s) = fab_host s"
  "messages (cascade_log d s) = map (\<lambda>m. m\<lparr> mg_from := keep_ref (del_assignments d) (mg_from m),
      mg_to := keep_ref (del_assignments d) (mg_to m),
      mg_attempt := keep_ref (del_attempts d) (mg_attempt m) \<rparr>)
      (filter (\<lambda>m. mg_mission m \<notin> set (del_missions d)) (messages s))"
  "events (cascade_log d s) = map (\<lambda>e. e\<lparr> ev_assignment := keep_ref (del_assignments d) (ev_assignment e), ev_attempt := keep_ref (del_attempts d) (ev_attempt e) \<rparr>) (filter (\<lambda>e. ev_mission e \<notin> set (del_missions d)) (events s))"
  "outbox (cascade_log d s) = filter (\<lambda>b. ob_mission b \<notin> set (del_missions d)) (outbox s)"
  "artifacts (cascade_log d s) = map (\<lambda>a. a\<lparr>af_attempt := keep_ref (del_attempts d) (af_attempt a)\<rparr>) (filter (\<lambda>a. af_mission a \<notin> set (del_missions d) \<and> af_assignment a \<notin> set (del_assignments d)) (artifacts s))"
  "runtime_sessions (cascade_log d s) = filter (\<lambda>r. rs_attempt r \<notin> set (del_attempts d)) (runtime_sessions s)"
  "runtime_events (cascade_log d s) = filter (\<lambda>e. re_session e \<notin> set (del_sessions d) \<and>
      re_attempt e \<notin> set (del_attempts d)) (runtime_events s)"
  "deliveries (cascade_log d s) = filter (\<lambda>r. dl_message r \<notin> set (del_messages d) \<and>
      dl_assignment r \<notin> set (del_assignments d)) (deliveries s)"
  by (simp_all add: cascade_log_def)

lemma cascade_collaboration_tables:
  "missions (cascade_collaboration d s) = missions s"
  "tasks (cascade_collaboration d s) = tasks s"
  "dependencies (cascade_collaboration d s) = dependencies s"
  "principals (cascade_collaboration d s) = principals s"
  "assignments (cascade_collaboration d s) = assignments s"
  "attempts (cascade_collaboration d s) = attempts s"
  "messages (cascade_collaboration d s) = messages s"
  "message_seq (cascade_collaboration d s) = message_seq s"
  "events (cascade_collaboration d s) = events s"
  "outbox (cascade_collaboration d s) = outbox s"
  "artifacts (cascade_collaboration d s) = artifacts s"
  "runtime_sessions (cascade_collaboration d s) = runtime_sessions s"
  "runtime_events (cascade_collaboration d s) = runtime_events s"
  "deliveries (cascade_collaboration d s) = deliveries s"
  "workspaces (cascade_collaboration d s) = workspaces s"
  "session_tasks (cascade_collaboration d s) = session_tasks s"
  "fab_host (cascade_collaboration d s) = fab_host s"
  "continuations (cascade_collaboration d s) = filter (\<lambda>c. cn_mission c \<notin> set (del_missions d) \<and>
      cn_owner c \<notin> set (del_assignments d) \<and> cn_attempt c \<notin> set (del_attempts d)) (continuations s)"
  "targets (cascade_collaboration d s) =
      filter (\<lambda>t. ct_continuation t \<notin> set (del_continuations d) \<and>
      keep_ref (del_assignments d) (ct_target t) = ct_target t \<and>
      keep_ref (del_assignments d) (ct_from t) = ct_from t) (targets s)"
  "intents (cascade_collaboration d s) =
      filter (\<lambda>r. ri_continuation r \<notin> set (del_continuations d) \<and>
      ri_mission r \<notin> set (del_missions d) \<and> ri_owner r \<notin> set (del_assignments d) \<and>
      ri_attempt r \<notin> set (del_attempts d)) (intents s)"
  "conversations (cascade_collaboration d s) =
      filter (\<lambda>c. cv_mission c \<notin> set (del_missions d)) (conversations s)"
  "participants (cascade_collaboration d s) =
      map (\<lambda>p. p\<lparr>cp_assignment := keep_ref (del_assignments d) (cp_assignment p)\<rparr>)
      (filter (\<lambda>p. cp_conversation p \<notin> set (del_conversations d)) (participants s))"
  "requests (cascade_collaboration d s) =
      map (\<lambda>r. r\<lparr> rq_task := keep_ref (del_tasks d) (rq_task r),
      rq_creator_assignment := keep_ref (del_assignments d) (rq_creator_assignment r),
      rq_assignee_assignment := keep_ref (del_assignments d) (rq_assignee_assignment r) \<rparr>)
      (filter (\<lambda>r. rq_mission r \<notin> set (del_missions d) \<and>
      rq_conversation r \<notin> set (del_conversations d)) (requests s))"
  "resolutions (cascade_collaboration d s) =
      map (\<lambda>r. r\<lparr> rz_resolver_assignment := keep_ref (del_assignments d) (rz_resolver_assignment r) \<rparr>) (filter (\<lambda>r. rz_request r \<notin> set (del_requests d)) (resolutions s))"
  "incidents (cascade_collaboration d s) =
      map (\<lambda>n. n\<lparr> ic_assignment := keep_ref (del_assignments d) (ic_assignment n),
      ic_attempt := keep_ref (del_attempts d) (ic_attempt n),
      ic_request := keep_ref (del_requests d) (ic_request n) \<rparr>)
      (filter (\<lambda>n. ic_mission n \<notin> set (del_missions d)) (incidents s))"
  by (simp_all add: cascade_collaboration_def)

lemma delete_missions_tables:
  fixes P s
  defines "d \<equiv> deletion_of P s"
  shows "missions (delete_missions P s) = filter (\<lambda>m. ms_id m \<notin> set (del_missions d)) (missions s)"
  "tasks (delete_missions P s) = map (\<lambda>t. t\<lparr>tk_parent := keep_ref (del_tasks d) (tk_parent t)\<rparr>) (filter (\<lambda>t. tk_mission t \<notin> set (del_missions d)) (tasks s))"
  "dependencies (delete_missions P s) = filter (\<lambda>r. dp_task r \<notin> set (del_tasks d) \<and>
      dp_on r \<notin> set (del_tasks d)) (dependencies s)"
  "principals (delete_missions P s) = principals s"
  "assignments (delete_missions P s) = map (\<lambda>a. a\<lparr>as_supervisor := keep_ref (del_assignments d) (as_supervisor a)\<rparr>) (filter (\<lambda>a. as_mission a \<notin> set (del_missions d) \<and> as_task a \<notin> set (del_tasks d)) (assignments s))"
  "attempts (delete_missions P s) = filter (\<lambda>e. at_assignment e \<notin> set (del_assignments d)) (attempts s)"
  "messages (delete_missions P s) = map (\<lambda>m. m\<lparr> mg_from := keep_ref (del_assignments d) (mg_from m), mg_to := keep_ref (del_assignments d) (mg_to m), mg_attempt := keep_ref (del_attempts d) (mg_attempt m) \<rparr>) (filter (\<lambda>m. mg_mission m \<notin> set (del_missions d)) (messages s))"
  "message_seq (delete_missions P s) = message_seq s"
  "events (delete_missions P s) = map (\<lambda>e. e\<lparr> ev_assignment := keep_ref (del_assignments d) (ev_assignment e), ev_attempt := keep_ref (del_attempts d) (ev_attempt e) \<rparr>) (filter (\<lambda>e. ev_mission e \<notin> set (del_missions d)) (events s))"
  "outbox (delete_missions P s) = filter (\<lambda>b. ob_mission b \<notin> set (del_missions d)) (outbox s)"
  "artifacts (delete_missions P s) = map (\<lambda>a. a\<lparr>af_attempt := keep_ref (del_attempts d) (af_attempt a)\<rparr>) (filter (\<lambda>a. af_mission a \<notin> set (del_missions d) \<and> af_assignment a \<notin> set (del_assignments d)) (artifacts s))"
  "runtime_sessions (delete_missions P s) =
      filter (\<lambda>r. rs_attempt r \<notin> set (del_attempts d)) (runtime_sessions s)"
  "runtime_events (delete_missions P s) = filter (\<lambda>e. re_session e \<notin> set (del_sessions d) \<and>
      re_attempt e \<notin> set (del_attempts d)) (runtime_events s)"
  "deliveries (delete_missions P s) = filter (\<lambda>r. dl_message r \<notin> set (del_messages d) \<and>
      dl_assignment r \<notin> set (del_assignments d)) (deliveries s)"
  "continuations (delete_missions P s) = filter (\<lambda>c. cn_mission c \<notin> set (del_missions d) \<and>
      cn_owner c \<notin> set (del_assignments d) \<and> cn_attempt c \<notin> set (del_attempts d)) (continuations s)"
  "targets (delete_missions P s) = filter (\<lambda>t. ct_continuation t \<notin> set (del_continuations d) \<and>
      keep_ref (del_assignments d) (ct_target t) = ct_target t \<and>
      keep_ref (del_assignments d) (ct_from t) = ct_from t) (targets s)"
  "intents (delete_missions P s) = filter (\<lambda>r. ri_continuation r \<notin> set (del_continuations d) \<and>
      ri_mission r \<notin> set (del_missions d) \<and> ri_owner r \<notin> set (del_assignments d) \<and>
      ri_attempt r \<notin> set (del_attempts d)) (intents s)"
  "conversations (delete_missions P s) =
      filter (\<lambda>c. cv_mission c \<notin> set (del_missions d)) (conversations s)"
  "participants (delete_missions P s) = map (\<lambda>p. p\<lparr>cp_assignment := keep_ref (del_assignments d) (cp_assignment p)\<rparr>) (filter (\<lambda>p. cp_conversation p \<notin> set (del_conversations d)) (participants s))"
  "requests (delete_missions P s) = map (\<lambda>r. r\<lparr> rq_task := keep_ref (del_tasks d) (rq_task r),
      rq_creator_assignment := keep_ref (del_assignments d) (rq_creator_assignment r),
      rq_assignee_assignment := keep_ref (del_assignments d) (rq_assignee_assignment r) \<rparr>)
      (filter (\<lambda>r. rq_mission r \<notin> set (del_missions d) \<and>
      rq_conversation r \<notin> set (del_conversations d)) (requests s))"
  "resolutions (delete_missions P s) = map (\<lambda>r. r\<lparr> rz_resolver_assignment := keep_ref (del_assignments d) (rz_resolver_assignment r) \<rparr>) (filter (\<lambda>r. rz_request r \<notin> set (del_requests d)) (resolutions s))"
  "incidents (delete_missions P s) = map (\<lambda>n. n\<lparr> ic_assignment := keep_ref (del_assignments d) (ic_assignment n), ic_attempt := keep_ref (del_attempts d) (ic_attempt n), ic_request := keep_ref (del_requests d) (ic_request n) \<rparr>) (filter (\<lambda>n. ic_mission n \<notin> set (del_missions d)) (incidents s))"
  "workspaces (delete_missions P s) = workspaces s"
  "session_tasks (delete_missions P s) = session_tasks s"
  "fab_host (delete_missions P s) = fab_host s"
  by (simp_all add: d_def delete_missions_def Let_def cascade_core_tables cascade_log_tables
      cascade_collaboration_tables)

lemma inv_keys_delete: "inv_keys s \<Longrightarrow> inv_keys (delete_missions P s)"
  unfolding inv_keys_def delete_missions_tables
  by (simp del: map_map add: distinct_filter_map distinct_filter_key)

lemma inv_keys_step:
  assumes "store_move p s t" and "inv_keys s"
  shows "inv_keys t"
  using assms
proof (cases rule: store_move.cases)
  case (step_delete P)
  then show ?thesis using assms(2) inv_keys_delete by simp
qed (insert assms(2),
     simp_all add: inv_keys_def change_keys new_key_def attempt_unique_def
       outbox_unique_def continuation_unique_def intent_unique_def request_unique_def
       resolution_unique_def incident_unique_def)

section \<open>Foreign keys\<close>

definition refs_at :: "fab \<Rightarrow> fab \<Rightarrow> bool" where
  "refs_at s t \<longleftrightarrow>
     (\<forall>r\<in>set (missions t). mission_refs s r) \<and> (\<forall>r\<in>set (tasks t). task_refs s r) \<and>
     (\<forall>r\<in>set (dependencies t). dependency_refs s r) \<and>
     (\<forall>r\<in>set (assignments t). assignment_refs s r) \<and> (\<forall>r\<in>set (attempts t). attempt_refs s r) \<and>
     (\<forall>r\<in>set (messages t). message_refs s r) \<and> (\<forall>r\<in>set (events t). event_refs s r) \<and>
     (\<forall>r\<in>set (outbox t). outbox_refs s r) \<and> (\<forall>r\<in>set (artifacts t). artifact_refs s r) \<and>
     (\<forall>r\<in>set (runtime_sessions t). runtime_session_refs s r) \<and>
     (\<forall>r\<in>set (runtime_events t). runtime_event_refs s r) \<and>
     (\<forall>r\<in>set (deliveries t). delivery_refs s r) \<and>
     (\<forall>r\<in>set (continuations t). continuation_refs s r) \<and> (\<forall>r\<in>set (targets t). target_refs s r) \<and>
     (\<forall>r\<in>set (intents t). intent_refs s r) \<and>
     (\<forall>r\<in>set (conversations t). conversation_refs s r) \<and>
     (\<forall>r\<in>set (participants t). participant_refs s r) \<and> (\<forall>r\<in>set (requests t). request_refs s r) \<and>
     (\<forall>r\<in>set (resolutions t). resolution_refs s r) \<and> (\<forall>r\<in>set (incidents t). incident_refs s r)"

definition inv_refs :: "fab \<Rightarrow> bool" where
  "inv_refs s \<longleftrightarrow> refs_at s s"

lemmas refs_defs =
  mission_refs_def task_refs_def dependency_refs_def assignment_refs_def attempt_refs_def
  message_refs_def event_refs_def outbox_refs_def artifact_refs_def runtime_session_refs_def
  runtime_event_refs_def delivery_refs_def continuation_refs_def target_refs_def intent_refs_def
  conversation_refs_def participant_refs_def request_refs_def resolution_refs_def
  incident_refs_def

text \<open>The keys other rows refer to only grow.\<close>

definition keys_grow :: "fab \<Rightarrow> fab \<Rightarrow> bool" where
  "keys_grow s t \<longleftrightarrow>
     workspaces t = workspaces s \<and> session_tasks t = session_tasks s \<and>
     ms_id ` set (missions s) \<subseteq> ms_id ` set (missions t) \<and>
     tk_id ` set (tasks s) \<subseteq> tk_id ` set (tasks t) \<and>
     pr_id ` set (principals s) \<subseteq> pr_id ` set (principals t) \<and>
     as_id ` set (assignments s) \<subseteq> as_id ` set (assignments t) \<and>
     at_id ` set (attempts s) \<subseteq> at_id ` set (attempts t) \<and>
     mg_id ` set (messages s) \<subseteq> mg_id ` set (messages t) \<and>
     rs_id ` set (runtime_sessions s) \<subseteq> rs_id ` set (runtime_sessions t) \<and>
     cn_id ` set (continuations s) \<subseteq> cn_id ` set (continuations t) \<and>
     cv_id ` set (conversations s) \<subseteq> cv_id ` set (conversations t) \<and>
     rq_id ` set (requests s) \<subseteq> rq_id ` set (requests t)"

lemma opt_key_of_mono: "opt_key_of k xs i \<Longrightarrow> k ` set xs \<subseteq> k ` set ys \<Longrightarrow> opt_key_of k ys i"
  by (auto simp: opt_key_of_def split: option.splits)

lemma key_of_mono: "key_of k xs i \<Longrightarrow> k ` set xs \<subseteq> k ` set ys \<Longrightarrow> key_of k ys i"
  by (auto simp: key_of_def)

lemma refs_mono:
  assumes "keys_grow s t"
  shows "mission_refs s r1 \<Longrightarrow> mission_refs t r1" "task_refs s r2 \<Longrightarrow> task_refs t r2"
    "dependency_refs s r3 \<Longrightarrow> dependency_refs t r3" "assignment_refs s r4 \<Longrightarrow> assignment_refs t r4"
    "attempt_refs s r5 \<Longrightarrow> attempt_refs t r5" "message_refs s r6 \<Longrightarrow> message_refs t r6"
    "event_refs s r7 \<Longrightarrow> event_refs t r7" "outbox_refs s r8 \<Longrightarrow> outbox_refs t r8"
    "artifact_refs s r9 \<Longrightarrow> artifact_refs t r9"
    "runtime_session_refs s r10 \<Longrightarrow> runtime_session_refs t r10"
    "runtime_event_refs s r11 \<Longrightarrow> runtime_event_refs t r11"
    "delivery_refs s r12 \<Longrightarrow> delivery_refs t r12"
    "continuation_refs s r13 \<Longrightarrow> continuation_refs t r13" "target_refs s r14 \<Longrightarrow> target_refs t r14"
    "intent_refs s r15 \<Longrightarrow> intent_refs t r15" "conversation_refs s r16 \<Longrightarrow> conversation_refs t r16"
    "participant_refs s r17 \<Longrightarrow> participant_refs t r17" "request_refs s r18 \<Longrightarrow> request_refs t r18"
    "resolution_refs s r19 \<Longrightarrow> resolution_refs t r19" "incident_refs s r20 \<Longrightarrow> incident_refs t r20"
  using assms unfolding keys_grow_def refs_defs
  by (auto intro: opt_key_of_mono key_of_mono split: option.splits)

lemma refs_at_grow: "refs_at s t \<Longrightarrow> keys_grow s t \<Longrightarrow> inv_refs t"
  unfolding inv_refs_def refs_at_def by (meson refs_mono)

lemma change_refs:
  "mission_change r1 q1 \<Longrightarrow> mission_refs s r1 \<Longrightarrow> mission_refs s q1"
  "task_change r2 q2 \<Longrightarrow> task_refs s r2 \<Longrightarrow> task_refs s q2"
  "assignment_change s r3 q3 \<Longrightarrow> assignment_refs s r3 \<Longrightarrow> assignment_refs s q3"
  "attempt_change r4 q4 \<Longrightarrow> attempt_refs s r4 \<Longrightarrow> attempt_refs s q4"
  "message_change r5 q5 \<Longrightarrow> message_refs s r5 \<Longrightarrow> message_refs s q5"
  "outbox_change r6 q6 \<Longrightarrow> outbox_refs s r6 \<Longrightarrow> outbox_refs s q6"
  "session_change r7 q7 \<Longrightarrow> runtime_session_refs s r7 \<Longrightarrow> runtime_session_refs s q7"
  "delivery_change r8 q8 \<Longrightarrow> delivery_refs s r8 \<Longrightarrow> delivery_refs s q8"
  "continuation_change r9 q9 \<Longrightarrow> continuation_refs s r9 \<Longrightarrow> continuation_refs s q9"
  "target_change r10 q10 \<Longrightarrow> target_refs s r10 \<Longrightarrow> target_refs s q10"
  "intent_change r11 q11 \<Longrightarrow> intent_refs s r11 \<Longrightarrow> intent_refs s q11"
  "conversation_change r12 q12 \<Longrightarrow> conversation_refs s r12 \<Longrightarrow> conversation_refs s q12"
  "participant_change s r13 q13 \<Longrightarrow> participant_refs s r13 \<Longrightarrow> participant_refs s q13"
  "request_change r14 q14 \<Longrightarrow> request_refs s r14 \<Longrightarrow> request_refs s q14"
  "incident_change s r15 q15 \<Longrightarrow> incident_refs s r15 \<Longrightarrow> incident_refs s q15"
  by (auto simp: refs_defs mission_change_def task_change_def assignment_change_def
      attempt_change_def message_change_def outbox_change_def session_change_def
      delivery_change_def continuation_change_def target_change_def intent_change_def
      conversation_change_def participant_change_def request_change_def incident_change_def)

lemma list_all2_ball:
  "list_all2 Q xs ys \<Longrightarrow> (\<forall>x\<in>set xs. P x) \<Longrightarrow> (\<And>x y. Q x y \<Longrightarrow> P x \<Longrightarrow> P y) \<Longrightarrow> (\<forall>y\<in>set ys. P y)"
  by (induction rule: list_all2_induct) auto

lemma change_refs_all:
  "list_all2 mission_change ms ms' \<Longrightarrow> \<forall>r\<in>set ms. mission_refs s r \<Longrightarrow> \<forall>r\<in>set ms'. mission_refs s r"
  "list_all2 task_change ts ts' \<Longrightarrow> \<forall>r\<in>set ts. task_refs s r \<Longrightarrow> \<forall>r\<in>set ts'. task_refs s r"
  "list_all2 (assignment_change s) as as' \<Longrightarrow> \<forall>r\<in>set as. assignment_refs s r \<Longrightarrow>
     \<forall>r\<in>set as'. assignment_refs s r"
  "list_all2 attempt_change es es' \<Longrightarrow> \<forall>r\<in>set es. attempt_refs s r \<Longrightarrow> \<forall>r\<in>set es'. attempt_refs s r"
  "list_all2 message_change gs gs' \<Longrightarrow> \<forall>r\<in>set gs. message_refs s r \<Longrightarrow> \<forall>r\<in>set gs'. message_refs s r"
  "list_all2 outbox_change bs bs' \<Longrightarrow> \<forall>r\<in>set bs. outbox_refs s r \<Longrightarrow> \<forall>r\<in>set bs'. outbox_refs s r"
  "list_all2 session_change rs rs' \<Longrightarrow> \<forall>r\<in>set rs. runtime_session_refs s r \<Longrightarrow>
     \<forall>r\<in>set rs'. runtime_session_refs s r"
  "list_all2 delivery_change ds ds' \<Longrightarrow> \<forall>r\<in>set ds. delivery_refs s r \<Longrightarrow> \<forall>r\<in>set ds'. delivery_refs s r"
  "list_all2 continuation_change cs cs' \<Longrightarrow> \<forall>r\<in>set cs. continuation_refs s r \<Longrightarrow>
     \<forall>r\<in>set cs'. continuation_refs s r"
  "list_all2 target_change us us' \<Longrightarrow> \<forall>r\<in>set us. target_refs s r \<Longrightarrow> \<forall>r\<in>set us'. target_refs s r"
  "list_all2 intent_change is is' \<Longrightarrow> \<forall>r\<in>set is. intent_refs s r \<Longrightarrow> \<forall>r\<in>set is'. intent_refs s r"
  "list_all2 conversation_change vs vs' \<Longrightarrow> \<forall>r\<in>set vs. conversation_refs s r \<Longrightarrow>
     \<forall>r\<in>set vs'. conversation_refs s r"
  "list_all2 (participant_change s) ps ps' \<Longrightarrow> \<forall>r\<in>set ps. participant_refs s r \<Longrightarrow>
     \<forall>r\<in>set ps'. participant_refs s r"
  "list_all2 request_change qs qs' \<Longrightarrow> \<forall>r\<in>set qs. request_refs s r \<Longrightarrow> \<forall>r\<in>set qs'. request_refs s r"
  "list_all2 (incident_change s) ns ns' \<Longrightarrow> \<forall>r\<in>set ns. incident_refs s r \<Longrightarrow>
     \<forall>r\<in>set ns'. incident_refs s r"
  by (erule list_all2_ball, assumption, erule change_refs, assumption)+

lemma change_key_image:
  "list_all2 Q xs ys \<Longrightarrow> (\<And>x y. Q x y \<Longrightarrow> k y = k x) \<Longrightarrow> k ` set ys = k ` set xs"
  by (metis list_all2_map_eq list.set_map)

lemma map_eq_image: "map k ys = map k xs \<Longrightarrow> k ` set ys = k ` set xs"
  by (metis list.set_map)

lemma step_keys_grow:
  assumes "store_move p s t" and "\<And>P. t \<noteq> delete_missions P s"
  shows "keys_grow s t"
  using assms(1)
proof (cases rule: store_move.cases)
  case (step_delete P)
  with assms(2)[of P] show ?thesis by simp
qed (auto simp: keys_grow_def change_keys[THEN map_eq_image])

lemma step_refs_at:
  assumes "store_move p s t" and "\<And>P. t \<noteq> delete_missions P s" and "inv_refs s"
  shows "refs_at s t"
  using assms(1)
proof (cases rule: store_move.cases)
  case (step_delete P)
  with assms(2)[of P] show ?thesis by simp
qed (insert assms(3), simp_all add: inv_refs_def refs_at_def change_refs_all ball_Un)

lemma gone_iff: "i \<in> set (gone k Q rows) \<longleftrightarrow> (\<exists>r\<in>set rows. Q r \<and> k r = i)"
  by (auto simp: gone_def)

text \<open>Which keys a deletion reaches.\<close>

lemma deletion_iff:
  fixes P s
  defines "d \<equiv> deletion_of P s"
  shows "i \<in> set (del_tasks d) \<longleftrightarrow> (\<exists>t\<in>set (tasks s). tk_mission t \<in> set (del_missions d) \<and> tk_id t = i)"
    "i \<in> set (del_assignments d) \<longleftrightarrow> (\<exists>a\<in>set (assignments s).
       (as_mission a \<in> set (del_missions d) \<or> as_task a \<in> set (del_tasks d)) \<and> as_id a = i)"
    "i \<in> set (del_attempts d) \<longleftrightarrow> (\<exists>e\<in>set (attempts s).
       at_assignment e \<in> set (del_assignments d) \<and> at_id e = i)"
    "i \<in> set (del_messages d) \<longleftrightarrow> (\<exists>m\<in>set (messages s). mg_mission m \<in> set (del_missions d) \<and> mg_id m = i)"
    "i \<in> set (del_sessions d) \<longleftrightarrow> (\<exists>r\<in>set (runtime_sessions s).
       rs_attempt r \<in> set (del_attempts d) \<and> rs_id r = i)"
    "i \<in> set (del_conversations d) \<longleftrightarrow> (\<exists>c\<in>set (conversations s).
       cv_mission c \<in> set (del_missions d) \<and> cv_id c = i)"
    "i \<in> set (del_continuations d) \<longleftrightarrow> (\<exists>c\<in>set (continuations s).
       (cn_mission c \<in> set (del_missions d) \<or> cn_owner c \<in> set (del_assignments d) \<or>
        cn_attempt c \<in> set (del_attempts d)) \<and> cn_id c = i)"
    "i \<in> set (del_requests d) \<longleftrightarrow> (\<exists>r\<in>set (requests s).
       (rq_mission r \<in> set (del_missions d) \<or> rq_conversation r \<in> set (del_conversations d)) \<and>
       rq_id r = i)"
  by (simp_all add: d_def deletion_of_def Let_def gone_iff)

lemma deletion_survivors:
  fixes P s
  defines "d \<equiv> deletion_of P s" and "u \<equiv> delete_missions P s"
  shows "is_mission s i \<Longrightarrow> i \<notin> set (del_missions d) \<Longrightarrow> is_mission u i"
    "is_task s i \<Longrightarrow> i \<notin> set (del_tasks d) \<Longrightarrow> is_task u i"
    "is_assignment s i \<Longrightarrow> i \<notin> set (del_assignments d) \<Longrightarrow> is_assignment u i"
    "is_attempt s i \<Longrightarrow> i \<notin> set (del_attempts d) \<Longrightarrow> is_attempt u i"
    "key_of mg_id (messages s) i \<Longrightarrow> i \<notin> set (del_messages d) \<Longrightarrow> key_of mg_id (messages u) i"
    "key_of rs_id (runtime_sessions s) i \<Longrightarrow> i \<notin> set (del_sessions d) \<Longrightarrow>
       key_of rs_id (runtime_sessions u) i"
    "key_of cv_id (conversations s) i \<Longrightarrow> i \<notin> set (del_conversations d) \<Longrightarrow>
       key_of cv_id (conversations u) i"
    "key_of cn_id (continuations s) i \<Longrightarrow> i \<notin> set (del_continuations d) \<Longrightarrow>
       key_of cn_id (continuations u) i"
    "key_of rq_id (requests s) i \<Longrightarrow> i \<notin> set (del_requests d) \<Longrightarrow> key_of rq_id (requests u) i"
    "is_principal s i \<Longrightarrow> is_principal u i"
proof -
  note defs = u_def d_def key_of_def delete_missions_tables image_iff
  show "is_mission s i \<Longrightarrow> i \<notin> set (del_missions d) \<Longrightarrow> is_mission u i"
    by (auto simp: defs)
  show "is_task s i \<Longrightarrow> i \<notin> set (del_tasks d) \<Longrightarrow> is_task u i"
    by (auto simp: defs deletion_iff(1))
  show "is_assignment s i \<Longrightarrow> i \<notin> set (del_assignments d) \<Longrightarrow> is_assignment u i"
    by (auto simp: defs deletion_iff(2))
  show "is_attempt s i \<Longrightarrow> i \<notin> set (del_attempts d) \<Longrightarrow> is_attempt u i"
    by (auto simp: defs deletion_iff(3))
  show "key_of mg_id (messages s) i \<Longrightarrow> i \<notin> set (del_messages d) \<Longrightarrow> key_of mg_id (messages u) i"
    by (auto simp: defs deletion_iff(4))
  show "key_of rs_id (runtime_sessions s) i \<Longrightarrow> i \<notin> set (del_sessions d) \<Longrightarrow>
      key_of rs_id (runtime_sessions u) i"
    by (auto simp: defs deletion_iff(5))
  show "key_of cv_id (conversations s) i \<Longrightarrow> i \<notin> set (del_conversations d) \<Longrightarrow>
      key_of cv_id (conversations u) i"
    by (auto simp: defs deletion_iff(6))
  show "key_of cn_id (continuations s) i \<Longrightarrow> i \<notin> set (del_continuations d) \<Longrightarrow>
      key_of cn_id (continuations u) i"
    by (auto simp: defs deletion_iff(7))
  show "key_of rq_id (requests s) i \<Longrightarrow> i \<notin> set (del_requests d) \<Longrightarrow> key_of rq_id (requests u) i"
    by (auto simp: defs deletion_iff(8))
  show "is_principal s i \<Longrightarrow> is_principal u i"
    by (auto simp: defs)
qed

text \<open>A nullable reference after the deletion.\<close>

lemma keep_ref_survives:
  "opt_key_of k xs r \<Longrightarrow> (\<And>i. key_of k xs i \<Longrightarrow> i \<notin> set g \<Longrightarrow> key_of k ys i) \<Longrightarrow>
   opt_key_of k ys (keep_ref g r)"
  by (auto simp: opt_key_of_def key_of_def keep_ref_def split: option.splits)

lemma keep_ref_same:
  "keep_ref g r = r \<Longrightarrow> opt_key_of k xs r \<Longrightarrow> (\<And>i. key_of k xs i \<Longrightarrow> i \<notin> set g \<Longrightarrow> key_of k ys i) \<Longrightarrow>
   opt_key_of k ys r"
  using keep_ref_survives[of k xs r g ys] by simp

lemma opt_principal_survives:
  "opt_key_of pr_id (principals s) r \<Longrightarrow> opt_key_of pr_id (principals (delete_missions P s)) r"
  by (simp add: delete_missions_tables)

lemma deleted_opt:
  fixes P s
  defines "d \<equiv> deletion_of P s" and "u \<equiv> delete_missions P s"
  shows "opt_key_of tk_id (tasks s) r \<Longrightarrow> opt_key_of tk_id (tasks u) (keep_ref (del_tasks d) r)"
    "opt_assignment s r \<Longrightarrow> opt_assignment u (keep_ref (del_assignments d) r)"
    "opt_attempt s r \<Longrightarrow> opt_attempt u (keep_ref (del_attempts d) r)"
    "opt_key_of rq_id (requests s) r \<Longrightarrow> opt_key_of rq_id (requests u) (keep_ref (del_requests d) r)"
    "keep_ref (del_assignments d) r = r \<Longrightarrow> opt_assignment s r \<Longrightarrow> opt_assignment u r"
  unfolding d_def u_def
  by (erule keep_ref_survives, erule deletion_survivors, assumption)+
    (erule keep_ref_same, assumption, erule deletion_survivors, assumption)

lemma deleted_refs:
  fixes P s
  defines "d \<equiv> deletion_of P s" and "u \<equiv> delete_missions P s"
  shows "mission_refs s r1 \<Longrightarrow> mission_refs u r1"
    "task_refs s r2 \<Longrightarrow> tk_mission r2 \<notin> set (del_missions d) \<Longrightarrow>
       task_refs u (r2\<lparr>tk_parent := keep_ref (del_tasks d) (tk_parent r2)\<rparr>)"
    "dependency_refs s r3 \<Longrightarrow> dp_task r3 \<notin> set (del_tasks d) \<Longrightarrow> dp_on r3 \<notin> set (del_tasks d) \<Longrightarrow>
       dependency_refs u r3"
    "assignment_refs s r4 \<Longrightarrow> as_mission r4 \<notin> set (del_missions d) \<Longrightarrow> as_task r4 \<notin> set (del_tasks d) \<Longrightarrow>
       assignment_refs u (r4\<lparr>as_supervisor := keep_ref (del_assignments d) (as_supervisor r4)\<rparr>)"
    "attempt_refs s r5 \<Longrightarrow> at_assignment r5 \<notin> set (del_assignments d) \<Longrightarrow> attempt_refs u r5"
    "message_refs s r6 \<Longrightarrow> mg_mission r6 \<notin> set (del_missions d) \<Longrightarrow>
       message_refs u (r6\<lparr> mg_from := keep_ref (del_assignments d) (mg_from r6),
         mg_to := keep_ref (del_assignments d) (mg_to r6),
         mg_attempt := keep_ref (del_attempts d) (mg_attempt r6) \<rparr>)"
    "event_refs s r7 \<Longrightarrow> ev_mission r7 \<notin> set (del_missions d) \<Longrightarrow>
       event_refs u (r7\<lparr> ev_assignment := keep_ref (del_assignments d) (ev_assignment r7),
         ev_attempt := keep_ref (del_attempts d) (ev_attempt r7) \<rparr>)"
    "outbox_refs s r8 \<Longrightarrow> ob_mission r8 \<notin> set (del_missions d) \<Longrightarrow> outbox_refs u r8"
    "artifact_refs s r9 \<Longrightarrow> af_mission r9 \<notin> set (del_missions d) \<Longrightarrow>
       af_assignment r9 \<notin> set (del_assignments d) \<Longrightarrow>
       artifact_refs u (r9\<lparr>af_attempt := keep_ref (del_attempts d) (af_attempt r9)\<rparr>)"
    "runtime_session_refs s r10 \<Longrightarrow> rs_attempt r10 \<notin> set (del_attempts d) \<Longrightarrow> runtime_session_refs u r10"
    "runtime_event_refs s r11 \<Longrightarrow> re_session r11 \<notin> set (del_sessions d) \<Longrightarrow>
       re_attempt r11 \<notin> set (del_attempts d) \<Longrightarrow> runtime_event_refs u r11"
    "delivery_refs s r12 \<Longrightarrow> dl_message r12 \<notin> set (del_messages d) \<Longrightarrow>
       dl_assignment r12 \<notin> set (del_assignments d) \<Longrightarrow> delivery_refs u r12"
    "continuation_refs s r13 \<Longrightarrow> cn_mission r13 \<notin> set (del_missions d) \<Longrightarrow>
       cn_owner r13 \<notin> set (del_assignments d) \<Longrightarrow> cn_attempt r13 \<notin> set (del_attempts d) \<Longrightarrow>
       continuation_refs u r13"
    "target_refs s r14 \<Longrightarrow> ct_continuation r14 \<notin> set (del_continuations d) \<Longrightarrow>
       keep_ref (del_assignments d) (ct_target r14) = ct_target r14 \<Longrightarrow>
       keep_ref (del_assignments d) (ct_from r14) = ct_from r14 \<Longrightarrow> target_refs u r14"
    "intent_refs s r15 \<Longrightarrow> ri_continuation r15 \<notin> set (del_continuations d) \<Longrightarrow>
       ri_mission r15 \<notin> set (del_missions d) \<Longrightarrow> ri_owner r15 \<notin> set (del_assignments d) \<Longrightarrow>
       ri_attempt r15 \<notin> set (del_attempts d) \<Longrightarrow> intent_refs u r15"
    "conversation_refs s r16 \<Longrightarrow> cv_mission r16 \<notin> set (del_missions d) \<Longrightarrow> conversation_refs u r16"
    "participant_refs s r17 \<Longrightarrow> cp_conversation r17 \<notin> set (del_conversations d) \<Longrightarrow>
       participant_refs u (r17\<lparr>cp_assignment := keep_ref (del_assignments d) (cp_assignment r17)\<rparr>)"
    "request_refs s r18 \<Longrightarrow> rq_mission r18 \<notin> set (del_missions d) \<Longrightarrow>
       rq_conversation r18 \<notin> set (del_conversations d) \<Longrightarrow>
       request_refs u (r18\<lparr> rq_task := keep_ref (del_tasks d) (rq_task r18),
         rq_creator_assignment := keep_ref (del_assignments d) (rq_creator_assignment r18),
         rq_assignee_assignment := keep_ref (del_assignments d) (rq_assignee_assignment r18) \<rparr>)"
    "resolution_refs s r19 \<Longrightarrow> rz_request r19 \<notin> set (del_requests d) \<Longrightarrow>
       resolution_refs u (r19\<lparr> rz_resolver_assignment :=
         keep_ref (del_assignments d) (rz_resolver_assignment r19) \<rparr>)"
    "incident_refs s r20 \<Longrightarrow> ic_mission r20 \<notin> set (del_missions d) \<Longrightarrow>
       incident_refs u (r20\<lparr> ic_assignment := keep_ref (del_assignments d) (ic_assignment r20),
         ic_attempt := keep_ref (del_attempts d) (ic_attempt r20),
         ic_request := keep_ref (del_requests d) (ic_request r20) \<rparr>)"
proof -
  show "mission_refs s r1 \<Longrightarrow> mission_refs u r1"
    by (cases "ms_origin_task r1") (simp_all add: mission_refs_def u_def delete_missions_tables)
qed (auto simp: refs_defs intro: deletion_survivors[where P = P and s = s, folded d_def u_def]
      deleted_opt[where P = P and s = s, folded d_def u_def]
      opt_principal_survives[where P = P and s = s, folded u_def])

lemma ball_map_filter:
  "\<forall>r\<in>set rows. p r \<Longrightarrow> (\<And>r. p r \<Longrightarrow> Q r \<Longrightarrow> q (f r)) \<Longrightarrow> \<forall>r\<in>set (map f (filter Q rows)). q r"
  by auto

lemma ball_filter: "\<forall>r\<in>set rows. p r \<Longrightarrow> (\<And>r. p r \<Longrightarrow> Q r \<Longrightarrow> q r) \<Longrightarrow> \<forall>r\<in>set (filter Q rows). q r"
  by auto

lemma inv_refs_delete:
  assumes "inv_refs s"
  shows "inv_refs (delete_missions P s)"
  using assms unfolding inv_refs_def refs_at_def delete_missions_tables
  by (elim conjE, intro conjI)
    (erule ball_map_filter ball_filter, (elim conjE)?, rule deleted_refs, assumption+)+

lemma inv_refs_step:
  assumes "store_move p s t" and "inv_refs s"
  shows "inv_refs t"
proof (cases "\<exists>P. t = delete_missions P s")
  case True
  then show ?thesis using assms(2) inv_refs_delete by blast
next
  case False
  then show ?thesis using assms step_refs_at step_keys_grow refs_at_grow by blast
qed

section \<open>Dependencies point back\<close>

definition earlier :: "'a list \<Rightarrow> 'a \<Rightarrow> 'a \<Rightarrow> bool" where
  "earlier xs b a \<longleftrightarrow> (\<exists>us ws. xs = us @ a # ws \<and> b \<in> set us)"

definition inv_dag :: "fab \<Rightarrow> bool" where
  "inv_dag s \<longleftrightarrow> (\<forall>d\<in>set (dependencies s). earlier (map tk_id (tasks s)) (dp_on d) (dp_task d))"

lemma earlier_append: "earlier xs b a \<Longrightarrow> earlier (xs @ ys) b a"
  by (force simp: earlier_def)

lemma earlier_last: "xs \<noteq> [] \<Longrightarrow> b \<in> set xs \<Longrightarrow> b \<noteq> last xs \<Longrightarrow> earlier xs b (last xs)"
proof -
  assume xs: "xs \<noteq> []" and b: "b \<in> set xs" "b \<noteq> last xs"
  then have split: "xs = butlast xs @ [last xs]" by simp
  with b have "b \<in> set (butlast xs)" by (metis in_set_conv_decomp in_set_butlast_appendI
      rotate1.simps(2) set_ConsD set_rotate1 append_butlast_last_id)
  with split show ?thesis unfolding earlier_def by blast
qed

lemma earlier_filter:
  assumes "distinct (map k rows)" and "earlier (map k rows) b a"
    and "a \<notin> set (gone k Q rows)" and "b \<notin> set (gone k Q rows)"
  shows "earlier (map k (filter (\<lambda>r. \<not> Q r) rows)) b a"
proof -
  obtain us x ws where rows: "rows = us @ x # ws" and x: "k x = a" and b: "b \<in> k ` set us"
    using assms(2) by (auto simp: earlier_def map_eq_append_conv Cons_eq_map_conv)
  have "\<not> Q x" using assms(3) rows x by (auto simp: gone_def)
  moreover have "b \<in> k ` set (filter (\<lambda>r. \<not> Q r) us)"
    using b assms(4) rows by (auto simp: gone_def)
  ultimately show ?thesis using rows x unfolding earlier_def by fastforce
qed

lemma inv_dag_step:
  assumes "store_move p s t" and "inv_dag s" and "inv_keys s"
  shows "inv_dag t"
  using assms(1)
proof (cases rule: store_move.cases)
  case (step_dependency r)
  have "dp_on r \<in> set (map tk_id (tasks s))"
    using step_dependency by (auto simp: dependency_refs_def key_of_def)
  moreover have "dp_on r \<noteq> dp_task r"
    using step_dependency by (auto simp: dependency_unique_def)
  ultimately have "earlier (map tk_id (tasks s)) (dp_on r) (dp_task r)"
    using earlier_last[of "map tk_id (tasks s)" "dp_on r"] step_dependency by (simp add: last_map)
  then show ?thesis using step_dependency assms(2) by (simp add: inv_dag_def)
next
  case (step_delete P)
  let ?d = "deletion_of P s"
  have ids: "map tk_id (tasks t) = map tk_id (filter (\<lambda>k. \<not> tk_mission k \<in> set (del_missions ?d)) (tasks s))"
    by (simp add: step_delete delete_missions_tables)
  have gone: "del_tasks ?d = gone tk_id (\<lambda>k. tk_mission k \<in> set (del_missions ?d)) (tasks s)"
    by (simp add: deletion_of_def Let_def)
  show ?thesis
    using assms(2,3) unfolding inv_dag_def ids
    by (auto simp: step_delete delete_missions_tables(3) gone inv_keys_def intro!: earlier_filter)
qed (insert assms(2), simp_all add: inv_dag_def change_keys earlier_append)

lemma earlier_index:
  assumes "earlier xs b a"
  shows "\<exists>i j. i < j \<and> j < length xs \<and> xs ! i = b \<and> xs ! j = a"
proof -
  obtain us ws where xs: "xs = us @ a # ws" and "b \<in> set us" using assms by (auto simp: earlier_def)
  then obtain i where "i < length us" "us ! i = b" by (auto simp: in_set_conv_nth)
  with xs have "i < length us \<and> length us < length xs \<and> xs ! i = b \<and> xs ! length us = a"
    by (simp add: nth_append)
  then show ?thesis by blast
qed

lemma earlier_acyclic:
  assumes "distinct xs" and "\<And>a b. (a, b) \<in> E \<Longrightarrow> earlier xs b a"
  shows "acyclic E"
proof -
  define pos where "pos = (\<lambda>i. THE n. n < length xs \<and> xs ! n = i)"
  have pos: "pos (xs ! n) = n" if "n < length xs" for n
    unfolding pos_def using that assms(1) by (auto intro!: the_equality simp: nth_eq_iff_index_eq)
  have "(b, a) \<in> inv_image less_than pos" if "(a, b) \<in> E" for a b
  proof -
    have "earlier xs b a" using that by (rule assms(2))
    from earlier_index[OF this] obtain i j where "i < j" "j < length xs" "xs ! i = b" "xs ! j = a"
      by blast
    then show ?thesis using pos[of i] pos[of j] by (simp add: inv_image_def)
  qed
  then have "converse E \<subseteq> inv_image less_than pos" by auto
  then have "wf (converse E)" by (rule wf_subset[rotated]) (simp add: wf_inv_image)
  then show ?thesis using wf_acyclic acyclic_converse by blast
qed

definition dependency_edges :: "fab \<Rightarrow> (string \<times> string) set" where
  "dependency_edges s = (\<lambda>d. (dp_task d, dp_on d)) ` set (dependencies s)"

lemma inv_dag_acyclic:
  assumes "inv_dag s" and "inv_keys s"
  shows "acyclic (dependency_edges s)"
  by (rule earlier_acyclic[of "map tk_id (tasks s)"])
    (use assms in \<open>auto simp: dependency_edges_def inv_dag_def inv_keys_def\<close>)

section \<open>Event and message numbers\<close>

definition mission_sequences :: "string \<Rightarrow> fab \<Rightarrow> nat list" where
  "mission_sequences m s = map ev_sequence (filter (\<lambda>e. ev_mission e = m) (events s))"

definition dense :: "nat list \<Rightarrow> bool" where
  "dense xs \<longleftrightarrow> xs = [1..<Suc (length xs)]"

lemma dense_Nil [simp]: "dense []"
  by (simp add: dense_def)

lemma dense_snoc: "dense xs \<Longrightarrow> dense (xs @ [Suc (length xs)])"
  by (simp add: dense_def)

lemma dense_Max: "dense xs \<Longrightarrow> Max (insert 0 (set xs)) = length xs"
proof -
  assume "dense xs"
  then have "set xs = set [1..<Suc (length xs)]" unfolding dense_def by (rule arg_cong)
  then have "set xs = {1..length xs}" by (simp only: set_upt atLeastLessThanSuc_atLeastAtMost)
  moreover have "insert 0 {1..n} = {0..n}" for n :: nat by auto
  ultimately have "insert 0 (set xs) = {0..length xs}" by simp
  moreover have "Max {0..length xs} = length xs" by (rule Max_eqI) auto
  ultimately show ?thesis by simp
qed

definition inv_events :: "fab \<Rightarrow> bool" where
  "inv_events s \<longleftrightarrow> (\<forall>m. dense (mission_sequences m s))"

lemma next_sequence_dense:
  assumes "inv_events s"
  shows "next_event_sequence m s = Suc (length (mission_sequences m s))"
  using dense_Max[of "mission_sequences m s"] assms
  by (simp add: inv_events_def next_event_sequence_def mission_sequences_def)

lemma mission_sequences_append:
  "mission_sequences m (s\<lparr>events := events s @ [r]\<rparr>) =
     mission_sequences m s @ (if ev_mission r = m then [ev_sequence r] else [])"
  by (simp add: mission_sequences_def)

lemma inv_events_step:
  assumes "store_move p s t" and "inv_events s"
  shows "inv_events t"
  using assms(1)
proof (cases rule: store_move.cases)
  case (step_event_new r)
  have "dense (mission_sequences m t)" for m
    using step_event_new assms(2) next_sequence_dense[OF assms(2), of "ev_mission r"]
    by (simp add: mission_sequences_append inv_events_def dense_snoc)
  then show ?thesis by (simp add: inv_events_def)
next
  case (step_delete P)
  let ?g = "set (del_missions (deletion_of P s))"
  have "mission_sequences m t = (if m \<in> ?g then [] else mission_sequences m s)" for m
  proof (cases "m \<in> ?g")
    case True
    then show ?thesis
      by (auto simp: mission_sequences_def step_delete delete_missions_tables filter_empty_conv)
  next
    case False
    then have "filter (\<lambda>e. ev_mission e = m \<and> ev_mission e \<notin> ?g) (events s)
        = filter (\<lambda>e. ev_mission e = m) (events s)"
      by (intro filter_cong) auto
    with False show ?thesis
      by (simp add: mission_sequences_def step_delete delete_missions_tables filter_map o_def conj_commute)
  qed
  then show ?thesis using assms(2) by (simp add: inv_events_def)
qed (insert assms(2), simp_all add: inv_events_def mission_sequences_def)

definition inv_messages :: "fab \<Rightarrow> bool" where
  "inv_messages s \<longleftrightarrow> sorted_wrt (<) (map mg_sequence (messages s)) \<and>
     (\<forall>m\<in>set (messages s). mg_sequence m \<le> message_seq s)"

lemma message_change_sequence: "list_all2 message_change xs ys \<Longrightarrow> map mg_sequence ys = map mg_sequence xs"
  by (erule list_all2_map_eq) (auto simp: message_change_def)

lemma sorted_wrt_filter_map: "sorted_wrt Q (map k rows) \<Longrightarrow> (\<And>r. k (f r) = k r) \<Longrightarrow>
    sorted_wrt Q (map k (map f (filter P rows)))"
  by (induction rows) auto

lemma inv_messages_step:
  assumes "store_move p s t" and "inv_messages s"
  shows "inv_messages t"
  using assms(1)
proof (cases rule: store_move.cases)
  case (step_messages rs)
  from message_change_sequence[OF step_messages(2)]
  have eq: "map mg_sequence (messages t) = map mg_sequence (messages s)" by (simp add: step_messages)
  then have "mg_sequence ` set (messages t) = mg_sequence ` set (messages s)"
    by (metis list.set_map)
  moreover have "message_seq t = message_seq s" by (simp add: step_messages)
  moreover have "(\<forall>m\<in>set rows. mg_sequence m \<le> n) \<longleftrightarrow> (\<forall>k\<in>mg_sequence ` set rows. k \<le> n)" for rows n
    by simp
  ultimately show ?thesis using assms(2) eq unfolding inv_messages_def by metis
next
  case (step_message_new r)
  then show ?thesis using assms(2) by (auto simp: inv_messages_def sorted_wrt_append le_SucI less_Suc_eq_le)
next
  case (step_delete P)
  then show ?thesis using assms(2) unfolding inv_messages_def delete_missions_tables
    by (auto simp: delete_missions_tables simp del: map_map intro!: sorted_wrt_filter_map)
qed (insert assms(2), simp_all add: inv_messages_def)

section \<open>Waiting\<close>

definition inv_waits :: "fab \<Rightarrow> bool" where
  "inv_waits s \<longleftrightarrow> (\<forall>i. wait_state (continuations s) (intents s) i \<in> set WAIT_STATES)"

text \<open>The identifiers of events and resume intents come from \<open>newId\<close>; an intent's key comes from
  its continuation.\<close>

definition inv_intents :: "fab \<Rightarrow> bool" where
  "inv_intents s \<longleftrightarrow> host_ok (fab_host s) \<and>
     (\<forall>r\<in>set (intents s). issued_id (fab_host s) (ri_id r) \<and>
        (\<exists>c\<in>set (continuations s). intent_of c r)) \<and>
     (\<forall>e\<in>set (events s). issued_id (fab_host s) (ev_id e))"

lemma wait_moves_states:
  "wait_moves cs is cs' is' \<Longrightarrow> wait_state cs is i \<in> set WAIT_STATES \<Longrightarrow>
   wait_state cs' is' i \<in> set WAIT_STATES"
  unfolding wait_moves_def by (drule spec[of _ i]) (auto simp: WAIT_MOVES_def WAIT_STATES_def)

lemma find_key_filter:
  "distinct (map k rows) \<Longrightarrow> find (\<lambda>r. k r = i) (filter Q rows) =
     (case find (\<lambda>r. k r = i) rows of None \<Rightarrow> None | Some r \<Rightarrow> if Q r then Some r else None)"
proof (induction rows)
  case (Cons a rows)
  show ?case
  proof (cases "k a = i")
    case True
    then have "find (\<lambda>r. k r = i) (filter Q rows) = None"
      using Cons.prems by (simp add: find_None_iff) (metis image_eqI)
    with True show ?thesis by simp
  next
    case False
    with Cons show ?thesis by simp
  qed
qed simp

lemma find_fresh_append:
  "new_key k rows r \<Longrightarrow> find (\<lambda>x. k x = i) (rows @ [r]) =
     (if i = k r then Some r else find (\<lambda>x. k x = i) rows)"
  by (induction rows) (auto simp: new_key_def)

lemma wait_state_arm:
  "new_key cn_id cs r \<Longrightarrow> wait_state (cs @ [r]) is i =
     (if i = cn_id r then (Some (cn_state r), snd (wait_state cs is i)) else wait_state cs is i)"
  by (simp add: wait_state_def find_fresh_append)

lemma continuation_intent_change:
  "list_all2 continuation_change cs cs' \<Longrightarrow> \<exists>c\<in>set cs. intent_of c r \<Longrightarrow> \<exists>c\<in>set cs'. intent_of c r"
  by (induction rule: list_all2_induct) (auto simp: continuation_change_def intent_of_def)

lemma inv_intents_step:
  assumes "store_move p s t" and "inv_intents s"
  shows "inv_intents t"
  using assms(1)
proof (cases rule: store_move.cases)
  case (step_host h)
  then show ?thesis
    using assms(2) by (auto simp: inv_intents_def host_tick_ok host_tick_issued)
next
  case (step_wake cs r c)
  then show ?thesis
    using assms(2) continuation_intent_change[OF step_wake(2)] by (auto simp: inv_intents_def)
next
  case (step_waits cs "is")
  have "issued_id (fab_host s) (ri_id r) \<and> (\<exists>c\<in>set cs. intent_of c r)" if member: "r \<in> set is" for r
  proof -
    obtain q where "q \<in> set (intents s)" and q: "intent_change q r"
      using list_all2_set[OF step_waits(3) member] by blast
    then have "issued_id (fab_host s) (ri_id q)" and "\<exists>c\<in>set (continuations s). intent_of c q"
      using assms(2) by (auto simp: inv_intents_def)
    moreover have "intent_of c r = intent_of c q" for c
      using q by (simp add: intent_change_def intent_of_def)
    ultimately show ?thesis
      using q continuation_intent_change[OF step_waits(2), of r] by (simp add: intent_change_def)
  qed
  then show ?thesis using assms(2) step_waits(1) by (simp add: inv_intents_def)
next
  case (step_arm r)
  then show ?thesis using assms(2) by (auto simp: inv_intents_def)
next
  case (step_delete P)
  let ?d = "deletion_of P s"
  have "\<exists>c\<in>set (continuations t). intent_of c r" if "r \<in> set (intents t)" for r
  proof -
    from that have r: "r \<in> set (intents s)" "ri_mission r \<notin> set (del_missions ?d)"
      "ri_owner r \<notin> set (del_assignments ?d)" "ri_attempt r \<notin> set (del_attempts ?d)"
      by (auto simp: step_delete delete_missions_tables)
    then obtain c where "c \<in> set (continuations s)" "intent_of c r"
      using assms(2) by (auto simp: inv_intents_def)
    with r show ?thesis by (auto simp: step_delete delete_missions_tables intent_of_def)
  qed
  then show ?thesis using assms(2) by (auto simp: inv_intents_def step_delete delete_missions_tables)
qed (insert assms(2), simp_all add: inv_intents_def)

lemma wait_state_survives:
  assumes "inv_keys s" and "inv_intents s"
  shows "wait_state (continuations (delete_missions P s)) (intents (delete_missions P s)) i =
     (if i \<in> set (del_continuations (deletion_of P s)) then (None, None)
      else wait_state (continuations s) (intents s) i)"
proof -
  let ?d = "deletion_of P s" and ?u = "delete_missions P s"
  have keys: "distinct (map cn_id (continuations s))" "distinct (map ri_continuation (intents s))"
    using assms(1) by (simp_all add: inv_keys_def)
  have cont: "find (\<lambda>c. cn_id c = i) (continuations ?u) = None" and
    intent: "find (\<lambda>r. ri_continuation r = i) (intents ?u) = None"
    if "i \<in> set (del_continuations ?d)"
  proof -
    obtain c where "c \<in> set (continuations s)" "cn_id c = i" and "cn_mission c \<in> set (del_missions ?d) \<or>
        cn_owner c \<in> set (del_assignments ?d) \<or> cn_attempt c \<in> set (del_attempts ?d)"
      using \<open>i \<in> set (del_continuations ?d)\<close> by (auto simp: deletion_iff(7))
    moreover from this have "find (\<lambda>c. cn_id c = i) (continuations s) = Some c"
      using find_key_distinct[OF keys(1)] by blast
    ultimately show "find (\<lambda>c. cn_id c = i) (continuations ?u) = None"
      by (auto simp: delete_missions_tables find_key_filter[OF keys(1)])
    show "find (\<lambda>r. ri_continuation r = i) (intents ?u) = None"
      using that by (auto simp: delete_missions_tables find_None_iff)
  qed
  show ?thesis
  proof (cases "i \<in> set (del_continuations ?d)")
    case True
    with cont intent show ?thesis by (simp add: wait_state_def)
  next
    case False
    have c: "find (\<lambda>c. cn_id c = i) (continuations ?u) = find (\<lambda>c. cn_id c = i) (continuations s)"
      using False by (auto simp: delete_missions_tables find_key_filter[OF keys(1)] deletion_iff(7)
          split: option.splits dest!: find_key_SomeD)
    have "cn_mission c \<notin> set (del_missions ?d) \<and> cn_owner c \<notin> set (del_assignments ?d) \<and>
        cn_attempt c \<notin> set (del_attempts ?d)"
      if "c \<in> set (continuations s)" "cn_id c = i" for c
      using False that by (auto simp: deletion_iff(7))
    then have "find (\<lambda>r. ri_continuation r = i) (intents ?u) = find (\<lambda>r. ri_continuation r = i) (intents s)"
      using False assms(2)
      by (fastforce simp: delete_missions_tables find_key_filter[OF keys(2)] inv_intents_def
          intent_of_def split: option.splits dest!: find_key_SomeD)
    with c False show ?thesis by (simp add: wait_state_def)
  qed
qed

lemma inv_waits_step:
  assumes "store_move p s t" and "inv_waits s" and "inv_keys s" and "inv_refs s" and "inv_intents s"
  shows "inv_waits t"
  using assms(1)
proof (cases rule: store_move.cases)
  case (step_arm r)
  have new: "new_key cn_id (continuations s) r"
    using step_arm by (simp add: continuation_unique_def)
  have "ri_continuation x \<in> cn_id ` set (continuations s)" if "x \<in> set (intents s)" for x
    using assms(4) that by (simp add: inv_refs_def refs_at_def intent_refs_def key_of_def)
  with new have "find (\<lambda>x. ri_continuation x = cn_id r) (intents s) = None"
    by (simp add: new_key_def find_None_iff) metis
  then have "wait_state (continuations t) (intents t) i =
      (if i = cn_id r then (Some Cont_ARMED, None) else wait_state (continuations s) (intents s) i)" for i
    using step_arm wait_state_arm[OF new] by (simp add: wait_state_def)
  then show ?thesis using assms(2) by (auto simp: inv_waits_def WAIT_STATES_def)
next
  case (step_wake cs r)
  then show ?thesis using assms(2) by (auto simp: inv_waits_def WAIT_STATES_def)
next
  case (step_waits cs "is")
  then show ?thesis using assms(2) wait_moves_states by (auto simp: inv_waits_def)
next
  case (step_delete P)
  then show ?thesis
    using assms(2) wait_state_survives[OF assms(3,5), of P] by (auto simp: inv_waits_def WAIT_STATES_def)
qed (insert assms(2), simp_all add: inv_waits_def)

section \<open>The invariant\<close>

definition fab_inv :: "fab \<Rightarrow> bool" where
  "fab_inv s \<longleftrightarrow> inv_keys s \<and> inv_refs s \<and> inv_dag s \<and> inv_events s \<and> inv_messages s \<and>
     inv_intents s \<and> inv_waits s"

lemma fab_inv_step: "store_move p s t \<Longrightarrow> fab_inv s \<Longrightarrow> fab_inv t"
  unfolding fab_inv_def
  by (blast intro: inv_keys_step inv_refs_step inv_dag_step inv_events_step inv_messages_step
      inv_intents_step inv_waits_step)

lemma fab_inv_run: "(store_move p)\<^sup>*\<^sup>* s t \<Longrightarrow> fab_inv s \<Longrightarrow> fab_inv t"
  by (induction rule: rtranclp_induct) (auto intro: fab_inv_step)

interpretation store: tx_relation store_run fab_inv
proof
  show "store_run s s" for s by simp
  show "store_run s u" if "store_run s t" "store_run t u" for s t u using that by simp
  show "fab_inv t" if "fab_inv s" "store_run s t" for s t using that fab_inv_run by blast
  show "store_run s (s\<lparr>fab_host := h\<rparr>)" if "host_tick (fab_host s) h" for s h
    using step_host[OF that] by blast
qed

end
