(* ===== verification/Fabric_Refinement.thy ===== *)
theory Fabric_Refinement
  imports Fabric_Invariant
begin

text \<open>
  The refinement of the abstract steps: a successful run of an operation of \<open>MissionRepository\<close>
  from a database with the invariant is a sequence of \<open>store_step\<close>s. This theory proves it for
  the statements and the shared private operations.
\<close>

named_theorems store_safe "operations that refine the store steps"

section \<open>Statements\<close>

lemma run_step: "store_step s t \<Longrightarrow> store_run s t"
  by blast

text \<open>An update function and the record update with its result.\<close>

lemma update_const:
  "missions_update f0 s = s\<lparr>missions := f0 (missions s)\<rparr>"
  "tasks_update f1 s = s\<lparr>tasks := f1 (tasks s)\<rparr>"
  "dependencies_update f2 s = s\<lparr>dependencies := f2 (dependencies s)\<rparr>"
  "principals_update f3 s = s\<lparr>principals := f3 (principals s)\<rparr>"
  "assignments_update f4 s = s\<lparr>assignments := f4 (assignments s)\<rparr>"
  "attempts_update f5 s = s\<lparr>attempts := f5 (attempts s)\<rparr>"
  "messages_update f6 s = s\<lparr>messages := f6 (messages s)\<rparr>"
  "events_update f7 s = s\<lparr>events := f7 (events s)\<rparr>"
  "outbox_update f8 s = s\<lparr>outbox := f8 (outbox s)\<rparr>"
  "artifacts_update f9 s = s\<lparr>artifacts := f9 (artifacts s)\<rparr>"
  "runtime_sessions_update f10 s = s\<lparr>runtime_sessions := f10 (runtime_sessions s)\<rparr>"
  "runtime_events_update f11 s = s\<lparr>runtime_events := f11 (runtime_events s)\<rparr>"
  "deliveries_update f12 s = s\<lparr>deliveries := f12 (deliveries s)\<rparr>"
  "targets_update f13 s = s\<lparr>targets := f13 (targets s)\<rparr>"
  "conversations_update f14 s = s\<lparr>conversations := f14 (conversations s)\<rparr>"
  "participants_update f15 s = s\<lparr>participants := f15 (participants s)\<rparr>"
  "requests_update f16 s = s\<lparr>requests := f16 (requests s)\<rparr>"
  "resolutions_update f17 s = s\<lparr>resolutions := f17 (resolutions s)\<rparr>"
  "incidents_update f18 s = s\<lparr>incidents := f18 (incidents s)\<rparr>"
  "continuations_update f19 s = s\<lparr>continuations := f19 (continuations s)\<rparr>"
  "intents_update f20 s = s\<lparr>intents := f20 (intents s)\<rparr>"
  by (cases s, simp)+

text \<open>The two forms in which the statements update a table.\<close>

lemma insert_eqs:
  "missions_update (\<lambda>rows. rows @ [r0]) s = s\<lparr>missions := missions s @ [r0]\<rparr>"
  "tasks_update (\<lambda>rows. rows @ [r1]) s = s\<lparr>tasks := tasks s @ [r1]\<rparr>"
  "dependencies_update (\<lambda>rows. rows @ [r2]) s = s\<lparr>dependencies := dependencies s @ [r2]\<rparr>"
  "principals_update (\<lambda>rows. rows @ [r3]) s = s\<lparr>principals := principals s @ [r3]\<rparr>"
  "assignments_update (\<lambda>rows. rows @ [r4]) s = s\<lparr>assignments := assignments s @ [r4]\<rparr>"
  "attempts_update (\<lambda>rows. rows @ [r5]) s = s\<lparr>attempts := attempts s @ [r5]\<rparr>"
  "messages_update (\<lambda>rows. rows @ [r6]) s = s\<lparr>messages := messages s @ [r6]\<rparr>"
  "events_update (\<lambda>rows. rows @ [r7]) s = s\<lparr>events := events s @ [r7]\<rparr>"
  "outbox_update (\<lambda>rows. rows @ [r8]) s = s\<lparr>outbox := outbox s @ [r8]\<rparr>"
  "artifacts_update (\<lambda>rows. rows @ [r9]) s = s\<lparr>artifacts := artifacts s @ [r9]\<rparr>"
  "runtime_sessions_update (\<lambda>rows. rows @ [r10]) s = s\<lparr>runtime_sessions := runtime_sessions s @ [r10]\<rparr>"
  "runtime_events_update (\<lambda>rows. rows @ [r11]) s = s\<lparr>runtime_events := runtime_events s @ [r11]\<rparr>"
  "deliveries_update (\<lambda>rows. rows @ [r12]) s = s\<lparr>deliveries := deliveries s @ [r12]\<rparr>"
  "targets_update (\<lambda>rows. rows @ [r13]) s = s\<lparr>targets := targets s @ [r13]\<rparr>"
  "conversations_update (\<lambda>rows. rows @ [r14]) s = s\<lparr>conversations := conversations s @ [r14]\<rparr>"
  "participants_update (\<lambda>rows. rows @ [r15]) s = s\<lparr>participants := participants s @ [r15]\<rparr>"
  "requests_update (\<lambda>rows. rows @ [r16]) s = s\<lparr>requests := requests s @ [r16]\<rparr>"
  "resolutions_update (\<lambda>rows. rows @ [r17]) s = s\<lparr>resolutions := resolutions s @ [r17]\<rparr>"
  "incidents_update (\<lambda>rows. rows @ [r18]) s = s\<lparr>incidents := incidents s @ [r18]\<rparr>"
  "continuations_update (\<lambda>rows. rows @ [r19]) s = s\<lparr>continuations := continuations s @ [r19]\<rparr>"
  "intents_update (\<lambda>rows. rows @ [r20]) s = s\<lparr>intents := intents s @ [r20]\<rparr>"
  by (rule update_const)+

lemma where_eqs:
  "missions_update (update_where P0 g0) s = s\<lparr>missions := update_where P0 g0 (missions s)\<rparr>"
  "tasks_update (update_where P1 g1) s = s\<lparr>tasks := update_where P1 g1 (tasks s)\<rparr>"
  "dependencies_update (update_where P2 g2) s = s\<lparr>dependencies := update_where P2 g2 (dependencies s)\<rparr>"
  "principals_update (update_where P3 g3) s = s\<lparr>principals := update_where P3 g3 (principals s)\<rparr>"
  "assignments_update (update_where P4 g4) s = s\<lparr>assignments := update_where P4 g4 (assignments s)\<rparr>"
  "attempts_update (update_where P5 g5) s = s\<lparr>attempts := update_where P5 g5 (attempts s)\<rparr>"
  "messages_update (update_where P6 g6) s = s\<lparr>messages := update_where P6 g6 (messages s)\<rparr>"
  "events_update (update_where P7 g7) s = s\<lparr>events := update_where P7 g7 (events s)\<rparr>"
  "outbox_update (update_where P8 g8) s = s\<lparr>outbox := update_where P8 g8 (outbox s)\<rparr>"
  "artifacts_update (update_where P9 g9) s = s\<lparr>artifacts := update_where P9 g9 (artifacts s)\<rparr>"
  "runtime_sessions_update (update_where P10 g10) s = s\<lparr>runtime_sessions := update_where P10 g10 (runtime_sessions s)\<rparr>"
  "runtime_events_update (update_where P11 g11) s = s\<lparr>runtime_events := update_where P11 g11 (runtime_events s)\<rparr>"
  "deliveries_update (update_where P12 g12) s = s\<lparr>deliveries := update_where P12 g12 (deliveries s)\<rparr>"
  "targets_update (update_where P13 g13) s = s\<lparr>targets := update_where P13 g13 (targets s)\<rparr>"
  "conversations_update (update_where P14 g14) s = s\<lparr>conversations := update_where P14 g14 (conversations s)\<rparr>"
  "participants_update (update_where P15 g15) s = s\<lparr>participants := update_where P15 g15 (participants s)\<rparr>"
  "requests_update (update_where P16 g16) s = s\<lparr>requests := update_where P16 g16 (requests s)\<rparr>"
  "resolutions_update (update_where P17 g17) s = s\<lparr>resolutions := update_where P17 g17 (resolutions s)\<rparr>"
  "incidents_update (update_where P18 g18) s = s\<lparr>incidents := update_where P18 g18 (incidents s)\<rparr>"
  "continuations_update (update_where P19 g19) s = s\<lparr>continuations := update_where P19 g19 (continuations s)\<rparr>"
  "intents_update (update_where P20 g20) s = s\<lparr>intents := update_where P20 g20 (intents s)\<rparr>"
  by (rule update_const)+

lemmas table_eqs = insert_eqs where_eqs

lemma step_updates:
  "list_all2 mission_change (missions s) (f0 (missions s)) \<Longrightarrow> store_step s (missions_update f0 s)"
  "list_all2 task_change (tasks s) (f1 (tasks s)) \<Longrightarrow> store_step s (tasks_update f1 s)"
  "list_all2 principal_change (principals s) (f2 (principals s)) \<Longrightarrow> store_step s (principals_update f2 s)"
  "list_all2 (assignment_change s) (assignments s) (f3 (assignments s)) \<Longrightarrow> store_step s (assignments_update f3 s)"
  "list_all2 attempt_change (attempts s) (f4 (attempts s)) \<Longrightarrow> store_step s (attempts_update f4 s)"
  "list_all2 message_change (messages s) (f5 (messages s)) \<Longrightarrow> store_step s (messages_update f5 s)"
  "list_all2 outbox_change (outbox s) (f6 (outbox s)) \<Longrightarrow> store_step s (outbox_update f6 s)"
  "list_all2 session_change (runtime_sessions s) (f7 (runtime_sessions s)) \<Longrightarrow> store_step s (runtime_sessions_update f7 s)"
  "list_all2 delivery_change (deliveries s) (f8 (deliveries s)) \<Longrightarrow> store_step s (deliveries_update f8 s)"
  "list_all2 target_change (targets s) (f9 (targets s)) \<Longrightarrow> store_step s (targets_update f9 s)"
  "list_all2 conversation_change (conversations s) (f10 (conversations s)) \<Longrightarrow> store_step s (conversations_update f10 s)"
  "list_all2 (participant_change s) (participants s) (f11 (participants s)) \<Longrightarrow> store_step s (participants_update f11 s)"
  "list_all2 request_change (requests s) (f12 (requests s)) \<Longrightarrow> store_step s (requests_update f12 s)"
  "list_all2 (incident_change s) (incidents s) (f13 (incidents s)) \<Longrightarrow> store_step s (incidents_update f13 s)"
  by (subst update_const, erule store_move.intros)+

text \<open>An \<open>UPDATE\<close> of one table refines when each row it selects moves along the change relation.\<close>

lemma upd_missions:
  "(\<And>s r. fab_inv s \<Longrightarrow> P s \<Longrightarrow> r \<in> set (missions s) \<Longrightarrow> Q r \<Longrightarrow> mission_change r (f r)) \<Longrightarrow>
   store.safe_when P (upd missions_update Q f)"
  by (rule store.safe_upd, rule run_step, rule step_updates, rule list_all2_update_where) (simp, blast)

lemma upd_tasks:
  "(\<And>r. Q r \<Longrightarrow> task_change r (f r)) \<Longrightarrow> store.safe_when P (upd tasks_update Q f)"
  by (rule store.safe_upd, rule run_step, rule step_updates, rule list_all2_update_where) (simp, blast)

lemma upd_principals:
  "(\<And>s r. P s \<Longrightarrow> r \<in> set (principals s) \<Longrightarrow> Q r \<Longrightarrow> principal_change r (f r)) \<Longrightarrow>
   store.safe_when P (upd principals_update Q f)"
  by (rule store.safe_upd, rule run_step, rule step_updates, rule list_all2_update_where) (simp, blast)

lemma upd_assignments:
  "(\<And>s r. fab_inv s \<Longrightarrow> P s \<Longrightarrow> Q r \<Longrightarrow> assignment_change s r (f r)) \<Longrightarrow>
   store.safe_when P (upd assignments_update Q f)"
  by (rule store.safe_upd, rule run_step, rule step_updates, rule list_all2_update_where) (simp, blast)

lemma upd_attempts:
  "(\<And>s r. fab_inv s \<Longrightarrow> P s \<Longrightarrow> r \<in> set (attempts s) \<Longrightarrow> Q r \<Longrightarrow> attempt_change r (f r)) \<Longrightarrow>
   store.safe_when P (upd attempts_update Q f)"
  by (rule store.safe_upd, rule run_step, rule step_updates, rule list_all2_update_where) (simp, blast)

lemma upd_messages:
  "(\<And>r. Q r \<Longrightarrow> message_change r (f r)) \<Longrightarrow> store.safe_when P (upd messages_update Q f)"
  by (rule store.safe_upd, rule run_step, rule step_updates, rule list_all2_update_where) (simp, blast)

lemma upd_outbox:
  "(\<And>r. Q r \<Longrightarrow> outbox_change r (f r)) \<Longrightarrow> store.safe_when P (upd outbox_update Q f)"
  by (rule store.safe_upd, rule run_step, rule step_updates, rule list_all2_update_where) (simp, blast)

lemma upd_outbox_count:
  "(\<And>r. Q r \<Longrightarrow> outbox_change r (f r)) \<Longrightarrow> store.safe_when P (upd_count sel outbox_update Q f)"
  by (rule store.safe_upd_count, rule run_step, rule step_updates, rule list_all2_update_where) (simp, blast)

lemma upd_sessions:
  "(\<And>r. Q r \<Longrightarrow> session_change r (f r)) \<Longrightarrow> store.safe_when P (upd runtime_sessions_update Q f)"
  by (rule store.safe_upd, rule run_step, rule step_updates, rule list_all2_update_where) (simp, blast)

lemma upd_deliveries:
  "(\<And>r. Q r \<Longrightarrow> delivery_change r (f r)) \<Longrightarrow> store.safe_when P (upd deliveries_update Q f)"
  by (rule store.safe_upd, rule run_step, rule step_updates, rule list_all2_update_where) (simp, blast)

lemma upd_targets_count:
  "(\<And>r. Q r \<Longrightarrow> target_change r (f r)) \<Longrightarrow> store.safe_when P (upd_count sel targets_update Q f)"
  by (rule store.safe_upd_count, rule run_step, rule step_updates, rule list_all2_update_where) (simp, blast)

lemma upd_conversations:
  "(\<And>r. Q r \<Longrightarrow> conversation_change r (f r)) \<Longrightarrow> store.safe_when P (upd conversations_update Q f)"
  by (rule store.safe_upd, rule run_step, rule step_updates, rule list_all2_update_where) (simp, blast)

lemma upd_participants:
  "(\<And>s r. P s \<Longrightarrow> Q r \<Longrightarrow> participant_change s r (f r)) \<Longrightarrow>
   store.safe_when P (upd participants_update Q f)"
  by (rule store.safe_upd, rule run_step, rule step_updates, rule list_all2_update_where) (simp, blast)

lemma upd_requests:
  "(\<And>s r. fab_inv s \<Longrightarrow> P s \<Longrightarrow> r \<in> set (requests s) \<Longrightarrow> Q r \<Longrightarrow> request_change r (f r)) \<Longrightarrow>
   store.safe_when P (upd requests_update Q f)"
  by (rule store.safe_upd, rule run_step, rule step_updates, rule list_all2_update_where) (simp, blast)

lemma upd_incidents:
  "(\<And>s r. fab_inv s \<Longrightarrow> P s \<Longrightarrow> r \<in> set (incidents s) \<Longrightarrow> Q r \<Longrightarrow> incident_change s r (f r)) \<Longrightarrow>
   store.safe_when P (upd incidents_update Q f)"
  by (rule store.safe_upd, rule run_step, rule step_updates, rule list_all2_update_where) (simp, blast)

lemma insert_safe [store_safe]:
  "store.safe (insert_task r1)" "store.safe (insert_assignment r2)" "store.safe (insert_attempt r3)"
  "store.safe (insert_artifact r4)" "store.safe (insert_runtime_event r5)"
  "store.safe (insert_delivery r6)" "store.safe (insert_target r7)"
  "store.safe (insert_conversation r8)" "store.safe (insert_resolution r9)"
  "store.safe (insert_incident r10)"
  by (auto simp: store.safe_when_def insert_task_def insert_assignment_def insert_attempt_def
      insert_artifact_def insert_runtime_event_def insert_delivery_def insert_target_def
      insert_conversation_def insert_resolution_def insert_incident_def insert_row_run
      simp: table_eqs intro!: run_step step_task_new step_assignment_new step_attempt_new
      step_artifact_new step_runtime_event_new step_delivery_new step_target_new
      step_conversation_new step_resolution_new step_incident_new)

lemma insert_mission_safe:
  "ms_state r = Mission_RUNNING \<Longrightarrow> ms_deleted_at r = None \<Longrightarrow> store.safe (insert_mission r)"
  by (auto simp: store.safe_when_def insert_mission_def insert_row_run table_eqs intro!: run_step step_mission_new)

lemma insert_outbox_safe:
  "ob_state r = Outbox_PENDING \<Longrightarrow> store.safe (insert_outbox r)"
  "ob_state r = Outbox_PENDING \<Longrightarrow> store.safe (insert_outbox_or_ignore r)"
  by (auto simp: store.safe_when_def insert_outbox_def insert_outbox_or_ignore_def insert_row_run
      insert_or_ignore_run table_eqs split: if_splits intro!: run_step step_outbox_new)

lemma insert_continuation_safe:
  "cn_state r = Cont_ARMED \<Longrightarrow> store.safe (insert_continuation r)"
  by (auto simp: store.safe_when_def insert_continuation_def insert_row_run table_eqs intro!: run_step step_arm)

lemma insert_request_safe: "rq_status r = Req_OPEN \<Longrightarrow> store.safe (insert_request r)"
  by (auto simp: store.safe_when_def insert_request_def insert_row_run table_eqs intro!: run_step step_request_new)

lemma insert_message_safe [store_safe]: "store.safe (insert_message_row r)"
proof (rule store.safe_whenI)
  fix s a t
  assume run: "insert_message_row r s = Inr (a, t)"
  let ?r = "r\<lparr>mg_sequence := Suc (message_seq s)\<rparr>"
  from run have "new_key mg_id (messages s) ?r" "message_refs s ?r"
    and "t = s\<lparr>messages := messages s @ [?r], message_seq := Suc (message_seq s)\<rparr>"
    by (auto simp: insert_message_row_def insert_row_run thn_run tx_simps)
  then show "store_run s t" using step_message_new[of s ?r] by (simp add: run_step)
qed

lemma appendEvent_run:
  assumes "appendEvent m ty actor a e p s = Inr (x, t)"
  obtains h r where "host_tick (fab_host s) h" and "t = s\<lparr>fab_host := h, events := events s @ [r]\<rparr>"
    and "event_unique (events s) r" and "event_refs (s\<lparr>fab_host := h\<rparr>) r" and "ev_mission r = m"
    and "ev_sequence r = next_event_sequence m s" and "issued_id h (ev_id r)"
proof -
  define h1 where "h1 = snd (newId ''mevent'' (fab_host s))"
  define h2 where "h2 = snd (timestamp h1)"
  have tick: "host_tick (fab_host s) h2"
    unfolding h2_def h1_def by (rule host_tick_trans[OF host_tick_newId host_tick_timestamp])
  from assms obtain r where r: "event_unique (events s) r" "event_refs (s\<lparr>fab_host := h2\<rparr>) r"
    "ev_mission r = m" "ev_sequence r = next_event_sequence m s"
    "t = s\<lparr>fab_host := h2, events := events s @ [r]\<rparr>" "ev_id r = fst (newId ''mevent'' (fab_host s))"
    by (auto simp: appendEvent_def bnd_run fresh_run now_run insert_event_def insert_row_run
        tx_simps table_eqs h1_def h2_def)
  have "issued_id h2 (ev_id r)" unfolding r(6) h2_def h1_def by (simp add: newId_issued)
  then show thesis by (rule that[OF tick r(5,1-4)])
qed

lemma appendEvent_safe [store_safe]: "store.safe (appendEvent m ty actor a e p)"
proof (rule store.safe_whenI)
  fix s x t
  assume "appendEvent m ty actor a e p s = Inr (x, t)"
  then obtain h r where ticks: "host_tick (fab_host s) h"
    and t: "t = s\<lparr>fab_host := h, events := events s @ [r]\<rparr>"
    and r: "event_unique (events s) r" "event_refs (s\<lparr>fab_host := h\<rparr>) r" "ev_mission r = m"
      "ev_sequence r = next_event_sequence m s" "issued_id h (ev_id r)"
    by (rule appendEvent_run)
  have "store_step s (s\<lparr>fab_host := h\<rparr>)" using ticks by (rule step_host)
  moreover have "store_step (s\<lparr>fab_host := h\<rparr>) (s\<lparr>fab_host := h, events := events s @ [r]\<rparr>)"
    using step_event_new[of "s\<lparr>fab_host := h\<rparr>" r] r by (simp add: next_event_sequence_def)
  ultimately show "store_run s t" unfolding t by (rule converse_rtranclp_into_rtranclp[OF _ run_step])
qed

lemma lookup_safe [store_safe]:
  "store.safe (requireMission i)" "store.safe (requireTask i)" "store.safe (requirePrincipal i)"
  "store.safe (requireAssignment i)" "store.safe (requireAttempt i)"
  "store.safe (requireConversation i)" "store.safe (requireActionRequest i)"
  "store.safe (requireActionResolution i)" "store.safe (requireIncident i)"
  "store.safe (requireContinuation i)" "store.safe (attempt_if j)" "store.safe (assignment_if j)"
  "store.safe (assertAssignmentMission i m)" "store.safe (illegal_transition_guard g)"
  unfolding requireMission_def requireTask_def requirePrincipal_def requireAssignment_def
    requireAttempt_def requireConversation_def requireActionRequest_def requireActionResolution_def
    requireIncident_def requireContinuation_def attempt_if_def assignment_if_def
    assertAssignmentMission_def illegal_transition_guard_def
  by (intro store.safe_rules | simp add: store.safe_ret store.safe_failure split: sum.split)+

lemma key_of_update_where:
  "key_of k rows i \<Longrightarrow> (\<And>r. k (f r) = k r) \<Longrightarrow> key_of k (update_where Q f rows) i"
  by (induction rows) (auto simp: key_of_def)

text \<open>A row read by its key is the only one with the key.\<close>

lemma row_unique:
  "distinct (map k rows) \<Longrightarrow> find (\<lambda>r. k r = i) rows = Some q \<Longrightarrow> r \<in> set rows \<Longrightarrow> k r = i \<Longrightarrow> r = q"
  using find_key_distinct[of k rows r] by auto

lemma the_row:
  "fab_inv s \<Longrightarrow> getMission i s = Some q1 \<Longrightarrow> r1 \<in> set (missions s) \<Longrightarrow> ms_id r1 = i \<Longrightarrow> r1 = q1"
  "fab_inv s \<Longrightarrow> getPrincipal i s = Some q2 \<Longrightarrow> r2 \<in> set (principals s) \<Longrightarrow> pr_id r2 = i \<Longrightarrow> r2 = q2"
  "fab_inv s \<Longrightarrow> getAttempt i s = Some q3 \<Longrightarrow> r3 \<in> set (attempts s) \<Longrightarrow> at_id r3 = i \<Longrightarrow> r3 = q3"
  "fab_inv s \<Longrightarrow> getActionRequest i s = Some q4 \<Longrightarrow> r4 \<in> set (requests s) \<Longrightarrow> rq_id r4 = i \<Longrightarrow> r4 = q4"
  "fab_inv s \<Longrightarrow> getContinuation i s = Some q5 \<Longrightarrow> r5 \<in> set (continuations s) \<Longrightarrow> cn_id r5 = i \<Longrightarrow> r5 = q5"
  "fab_inv s \<Longrightarrow> getResumeIntent i s = Some q6 \<Longrightarrow> r6 \<in> set (intents s) \<Longrightarrow> ri_id r6 = i \<Longrightarrow> r6 = q6"
  by (auto simp: fab_inv_def inv_keys_def getMission_def getPrincipal_def getAttempt_def
      getActionRequest_def getContinuation_def getResumeIntent_def dest: row_unique)

lemma live_attempt_states [simp]:
  "\<not> isTerminalAttemptState Attempt_PLANNED" "\<not> isTerminalAttemptState Attempt_STARTING"
  "\<not> isTerminalAttemptState Attempt_RUNNING" "\<not> isTerminalAttemptState Attempt_WAITING"
  by (simp_all add: isTerminalAttemptState_def TERMINAL_ATTEMPT_STATES_def)

section \<open>Principals, conversations, participants\<close>

lemma upsertPrincipal_safe [store_safe]: "store.safe (upsertPrincipal p)"
proof (rule store.safe_whenI)
  fix s x t
  assume inv: "fab_inv s" and run: "upsertPrincipal p s = Inr (x, t)"
  show "store_run s t"
  proof (cases "getPrincipal (pr_id p) s")
    case None
    then have "t = s\<lparr>principals := principals s @ [p]\<rparr>"
      using run by (auto simp: upsertPrincipal_def Let_def tx_simps table_eqs split: if_splits)
    moreover have "new_key pr_id (principals s) p"
      using None by (auto simp: getPrincipal_def find_None_iff new_key_def)
    ultimately show ?thesis using step_principal_new by blast
  next
    case (Some q)
    define n where "n = q\<lparr> pr_provider := pr_provider p,
      pr_external := coalesce (pr_external p) (pr_external q), pr_name := pr_name p,
      pr_state := pr_state p, pr_last_seen_at := pr_last_seen_at p \<rparr>"
    have q: "q \<in> set (principals s)" "pr_id q = pr_id p"
      using Some find_key_SomeD[of pr_id "pr_id p"] by (auto simp: getPrincipal_def)
    have t: "t = s\<lparr>principals := update_where (\<lambda>r. pr_id r = pr_id p) (\<lambda>_. n) (principals s)\<rparr>"
      using run Some by (auto simp: upsertPrincipal_def n_def Let_def tx_simps table_eqs split: if_splits)
    have "r = q" if "r \<in> set (principals s)" "pr_id r = pr_id p" for r
      using the_row(2)[OF inv Some] that by blast
    then have "list_all2 principal_change (principals s) (update_where (\<lambda>r. pr_id r = pr_id p) (\<lambda>_. n) (principals s))"
      by (intro list_all2_update_where) (auto simp: n_def principal_change_def)
    then show ?thesis unfolding t by (intro run_step step_principals)
  qed
qed

lemma ensureConversation_safe [store_safe]: "store.safe (ensureConversation m r t c th)"
  unfolding ensureConversation_def by (intro store.safe_rules store_safe)

lemma participant_safe [store_safe]: "store.safe (addConversationParticipant c p a t)"
proof (rule store.safe_whenI)
  fix s x u
  assume run: "addConversationParticipant c p a t s = Inr (x, u)"
  let ?r = "\<lparr>cp_conversation = c, cp_principal = p, cp_assignment = a, cp_joined_at = t\<rparr>"
  let ?P = "\<lambda>q. participant_key q = participant_key ?r"
  let ?f = "\<lambda>q. q\<lparr>cp_assignment := coalesce a (cp_assignment q)\<rparr>"
  have refs: "participant_refs s ?r"
    using run by (auto simp: addConversationParticipant_def Let_def tx_simps split: if_splits)
  show "store_run s u"
  proof (cases "participant_key ?r \<in> set (map participant_key (participants s))")
    case True
    then have u: "u = s\<lparr>participants := update_where ?P ?f (participants s)\<rparr>"
      using run refs by (auto simp: addConversationParticipant_def Let_def tx_simps table_eqs)
    have "list_all2 (participant_change s) (participants s) (update_where ?P ?f (participants s))"
      using refs by (intro list_all2_update_where)
        (auto simp: participant_change_def participant_refs_def coalesce_def split: option.splits)
    then show ?thesis unfolding u by (intro run_step step_participants)
  next
    case False
    then have "u = s\<lparr>participants := participants s @ [?r]\<rparr>"
      using run refs by (auto simp: addConversationParticipant_def Let_def tx_simps table_eqs)
    moreover have "new_key participant_key (participants s) ?r" using False by (simp add: new_key_def)
    ultimately show ?thesis using step_participant_new refs by blast
  qed
qed

lemma message_end_safe [store_safe]: "store.safe (add_message_end c a t)"
  unfolding add_message_end_def by (intro store.safe_rules store_safe)

end
