(* ===== verification/Fabric_Waits.thy ===== *)
theory Fabric_Waits
  imports Fabric_Refinement
begin

text \<open>
  The continuation machinery refines the store steps: waking a continuation inserts its one
  resume intent in the same transaction, and every other move changes the continuation and its
  intent together along \<open>WAIT_MOVES\<close>.
\<close>

section \<open>Targets\<close>

lemma satisfyTarget_safe [store_safe]: "store.safe (satisfyContinuationTarget i b p)"
  unfolding satisfyContinuationTarget_def
  by (intro store.safe_rules upd_targets_count) (auto simp: target_change_def)

lemma bundle_safe [store_safe]: "store.safe (continuationBundle i)"
  unfolding continuationBundle_def by (intro store.safe_rules store_safe)

section \<open>Continuation and intent\<close>

lemma wait_state_update:
  assumes "\<And>c. cn_id (f c) = cn_id c" and "\<And>r. ri_continuation (g r) = ri_continuation r"
  shows "wait_state (update_where P f cs) (update_where Q g is) j =
     (map_option (\<lambda>c. cn_state (if P c then f c else c)) (find (\<lambda>c. cn_id c = j) cs),
      map_option (\<lambda>r. ri_state (if Q r then g r else r)) (find (\<lambda>r. ri_continuation r = j) is))"
  using assms by (simp add: wait_state_def find_update_where option.map_comp comp_def)

text \<open>A statement pair that moves only the continuation \<open>i\<close>, from one agreeing state to another.\<close>

lemma waits_step:
  assumes "list_all2 continuation_change (continuations s) cs"
    and "list_all2 intent_change (intents s) is"
    and "\<And>j. j \<noteq> i \<Longrightarrow> wait_state cs is j = wait_state (continuations s) (intents s) j"
    and "wait_state cs is i = wait_state (continuations s) (intents s) i \<or>
      (wait_state (continuations s) (intents s) i, wait_state cs is i) \<in> set WAIT_MOVES"
  shows "store_step s (s\<lparr>continuations := cs, intents := is\<rparr>)"
  using assms(1,2)
proof (rule step_waits)
  show "wait_moves (continuations s) (intents s) cs is"
    unfolding wait_moves_def using assms(3,4) by metis
qed

lemma wait_cases:
  assumes "fab_inv s"
  shows "wait_state (continuations s) (intents s) i \<in> set WAIT_STATES"
  using assms by (simp add: fab_inv_def inv_waits_def)

lemma find_same_key: "find (\<lambda>r. k r = i) rows = Some q \<Longrightarrow> k q = i"
  by (auto dest: find_key_SomeD)

lemma change_of_update:
  "(\<And>c. P c \<Longrightarrow> continuation_change c (f c)) \<Longrightarrow> list_all2 continuation_change cs (update_where P f cs)"
  "(\<And>r. Q r \<Longrightarrow> intent_change r (g r)) \<Longrightarrow> list_all2 intent_change is (update_where Q g is)"
  by (rule list_all2_update_where; simp)+

lemma changes_one:
  assumes "distinct (map k rows)" and "find (\<lambda>r. k r = i) rows = Some q" and "P q"
  shows "changes (\<lambda>r. k r = i \<and> P r) rows = 1"
proof -
  have "filter (\<lambda>r. k r = i \<and> P r) rows = filter P (filter (\<lambda>r. k r = i) rows)"
    by (simp add: conj_commute)
  also have "\<dots> = [q]" using assms by (simp add: filter_key_distinct)
  finally show ?thesis by (simp add: changes_def)
qed

text \<open>Statements that select rows of the continuation \<open>i\<close> only.\<close>

definition intent_at :: "string \<Rightarrow> fab \<Rightarrow> intent_row option" where
  "intent_at i s = find (\<lambda>r. ri_continuation r = i) (intents s)"

definition wait_move :: "wait_state \<Rightarrow> wait_state \<Rightarrow> bool" where
  "wait_move w w' \<longleftrightarrow> w' = w \<or> (w, w') \<in> set WAIT_MOVES"

lemma intent_at_key: "intent_at i s = Some r \<Longrightarrow> ri_continuation r = i"
  unfolding intent_at_def by (rule find_same_key)

lemma wait_pair:
  assumes "fab_inv s" and "getContinuation i s = Some c"
  shows "(Some (cn_state c), map_option ri_state (intent_at i s)) \<in> set WAIT_STATES"
  using wait_cases[OF assms(1), of i] assms(2) by (simp add: wait_state_def getContinuation_def intent_at_def)

lemma pair_step:
  assumes c: "getContinuation i s = Some c"
    and f: "\<And>c. P c \<Longrightarrow> continuation_change c (f c)" "\<And>c. P c \<Longrightarrow> cn_id c = i"
    and g: "\<And>r. Q r \<Longrightarrow> intent_change r (g r)" "\<And>r. Q r \<Longrightarrow> ri_continuation r = i"
    and move: "wait_move (Some (cn_state c), map_option ri_state (intent_at i s))
      (Some (cn_state (if P c then f c else c)),
       map_option (\<lambda>r. ri_state (if Q r then g r else r)) (intent_at i s))"
  shows "store_step s (s\<lparr>continuations := update_where P f (continuations s),
                         intents := update_where Q g (intents s)\<rparr>)"
proof (rule waits_step[where i = i])
  let ?f = "\<lambda>c. if P c then f c else c" and ?g = "\<lambda>r. if Q r then g r else r"
  show "list_all2 continuation_change (continuations s) (update_where P f (continuations s))"
    and "list_all2 intent_change (intents s) (update_where Q g (intents s))"
    using f(1) g(1) by (auto intro: change_of_update)
  have "update_where P f xs = update_where (\<lambda>_. True) ?f xs" for xs by (induction xs) auto
  moreover have "update_where Q g xs = update_where (\<lambda>_. True) ?g xs" for xs by (induction xs) auto
  moreover have "cn_id (?f c) = cn_id c" and "ri_continuation (?g r) = ri_continuation r" for c r
    using f(1) g(1) by (auto simp: continuation_change_def intent_change_def)
  ultimately have moved: "wait_state (update_where P f (continuations s)) (update_where Q g (intents s)) j =
     (map_option (\<lambda>c. cn_state (?f c)) (find (\<lambda>c. cn_id c = j) (continuations s)),
      map_option (\<lambda>r. ri_state (?g r)) (find (\<lambda>r. ri_continuation r = j) (intents s)))" for j
    using wait_state_update[of ?f ?g "\<lambda>_. True" "continuations s" "\<lambda>_. True" "intents s" j]
    by simp
  show "wait_state (update_where P f (continuations s)) (update_where Q g (intents s)) j =
      wait_state (continuations s) (intents s) j" if "j \<noteq> i" for j
  proof -
    have "\<not> P c" if "cn_id c = j" for c using f(2)[of c] that \<open>j \<noteq> i\<close> by blast
    moreover have "\<not> Q r" if "ri_continuation r = j" for r using g(2)[of r] that \<open>j \<noteq> i\<close> by blast
    ultimately show ?thesis unfolding moved unfolding wait_state_def
      by (cases "find (\<lambda>c. cn_id c = j) (continuations s)";
          cases "find (\<lambda>r. ri_continuation r = j) (intents s)") (auto dest: find_same_key)
  qed
  show "wait_state (update_where P f (continuations s)) (update_where Q g (intents s)) i =
      wait_state (continuations s) (intents s) i \<or>
      (wait_state (continuations s) (intents s) i,
       wait_state (update_where P f (continuations s)) (update_where Q g (intents s)) i) \<in> set WAIT_MOVES"
    using move c unfolding moved unfolding wait_state_def
    by (simp add: wait_move_def getContinuation_def intent_at_def)
qed

section \<open>Cancelling\<close>

lemma cancel_pair:
  assumes inv: "fab_inv s" and c: "getContinuation i s = Some c" "active_continuation (cn_state c)"
    and f: "\<And>r. continuation_change r (f r)" "\<And>r. cn_state (f r) = Cont_CANCELLED"
    and g: "\<And>r. intent_change r (g r)" "\<And>r. ri_state (g r) = Intent_CANCELLED"
  shows "store_step s (s\<lparr>continuations := update_where (\<lambda>r. cn_id r = i \<and> active_continuation (cn_state r)) f (continuations s),
    intents := update_where (\<lambda>r. ri_continuation r = i \<and> ri_state r \<noteq> Intent_ACKNOWLEDGED) g (intents s)\<rparr>)"
proof (rule pair_step[OF c(1)])
  show "wait_move (Some (cn_state c), map_option ri_state (intent_at i s))
      (Some (cn_state (if cn_id c = i \<and> active_continuation (cn_state c) then f c else c)),
       map_option (\<lambda>r. ri_state (if ri_continuation r = i \<and> ri_state r \<noteq> Intent_ACKNOWLEDGED then g r else r))
         (intent_at i s))"
    using wait_pair[OF inv c(1)] c find_same_key[OF c(1)[unfolded getContinuation_def]] f(2) g(2)
    by (cases "intent_at i s"; cases "cn_state c")
      (auto simp: wait_move_def WAIT_STATES_def WAIT_MOVES_def active_continuation_def dest: intent_at_key)
qed (use f g in auto)

lemma cancelContinuation_run:
  assumes inv: "fab_inv s" and run: "cancelContinuation i reason s = Inr (b, t)"
  obtains "t = s" | u c where "store_run s u" and "getContinuation i s = Some c"
    and "appendEvent (cn_mission c) ''continuation.cancelled'' None (Some (cn_owner c))
           (Some (cn_attempt c)) [(''continuationId'', JStr i), (''reason'', JStr reason)] u = Inr ((), t)"
proof (cases "getContinuation i s")
  case None
  with run show thesis by (intro that(1)) (simp add: cancelContinuation_def tx_simps)
next
  case (Some c)
  show thesis
  proof (cases "cn_state c \<in> set [Cont_CONSUMED, Cont_CANCELLED]")
    case True
    with run Some show thesis by (intro that(1)) (simp add: cancelContinuation_def tx_simps)
  next
    case False
    then have active: "active_continuation (cn_state c)"
      by (cases "cn_state c") (simp_all add: active_continuation_def)
    define h where "h = snd (timestamp (fab_host s))"
    define u where "u = s\<lparr>fab_host := h\<rparr>"
    have step: "store_step s u" unfolding u_def h_def by (rule step_host) simp
    then have inv': "fab_inv u" using inv fab_inv_step by blast
    have one: "changes (\<lambda>r. cn_id r = i \<and> active_continuation (cn_state r)) (continuations s) = 1"
      using Some active inv by (intro changes_one) (auto simp: getContinuation_def fab_inv_def inv_keys_def)
    obtain f g where v: "appendEvent (cn_mission c) ''continuation.cancelled'' None (Some (cn_owner c))
           (Some (cn_attempt c)) [(''continuationId'', JStr i), (''reason'', JStr reason)]
        (u\<lparr>continuations := update_where (\<lambda>r. cn_id r = i \<and> active_continuation (cn_state r)) f (continuations u),
          intents := update_where (\<lambda>r. ri_continuation r = i \<and> ri_state r \<noteq> Intent_ACKNOWLEDGED) g (intents u)\<rparr>)
        = Inr ((), t)"
      and fg: "\<And>r. continuation_change r (f r)" "\<And>r. cn_state (f r) = Cont_CANCELLED"
        "\<And>r. intent_change r (g r)" "\<And>r. ri_state (g r) = Intent_CANCELLED"
      using run Some False one
      by (auto simp: cancelContinuation_def bnd_run thn_run now_run tx_simps where_eqs u_def h_def
          continuation_change_def intent_change_def)
    have "getContinuation i u = Some c" using Some by (simp add: u_def getContinuation_def)
    from cancel_pair[OF inv' this active fg] step that(2) v Some show thesis
      by (meson converse_rtranclp_into_rtranclp r_into_rtranclp)
  qed
qed

lemma cancelContinuation_safe [store_safe]: "store.safe (cancelContinuation i reason)"
proof (rule store.safe_whenI)
  fix s b t
  assume "fab_inv s" and "cancelContinuation i reason s = Inr (b, t)"
  then show "store_run s t"
  proof (cases rule: cancelContinuation_run)
    case (2 u c)
    then have "store_run u t"
      using store.safe_whenD[OF appendEvent_safe] fab_inv_run \<open>fab_inv s\<close> by blast
    with 2 show ?thesis by simp
  qed simp
qed

lemma cancelOwned_safe [store_safe]: "store.safe (cancelOwnedContinuations a e r)"
  unfolding cancelOwnedContinuations_def by (intro store.safe_rules store_safe)

section \<open>Waking\<close>

text \<open>The resume intent a wake inserts.\<close>

definition resume_intent ::
    "string \<Rightarrow> continuation_row \<Rightarrow> attempt_row \<Rightarrow> int \<Rightarrow> (string \<times> json) list \<Rightarrow> intent_row" where
  "resume_intent i c attempt t payload =
     \<lparr> ri_id = i, ri_continuation = cn_id c, ri_mission = cn_mission c,
       ri_owner = cn_owner c, ri_attempt = cn_attempt c, ri_session = at_session attempt,
       ri_state = Intent_PENDING, ri_key = ''resume:'' @ cn_id c, ri_payload = payload,
       ri_attempts = 0, ri_available_at = t, ri_last_error = None, ri_delivered_at = None,
       ri_acknowledged_at = None, ri_created_at = t, ri_updated_at = t \<rparr>"

lemma armed_no_intent:
  assumes "fab_inv s" and "getContinuation i s = Some c" and "cn_state c = Cont_ARMED"
  shows "intent_at i s = None"
  using wait_pair[OF assms(1,2)] assms(3) by (auto simp: WAIT_STATES_def)

lemma resume_intent_unique:
  assumes inv: "fab_inv s" and c: "getContinuation i s = Some c" "cn_state c = Cont_ARMED"
    and new: "\<forall>r\<in>set (intents s). ri_id r \<noteq> j"
  shows "intent_unique (intents s) (resume_intent j c attempt t payload)"
proof -
  have id: "cn_id c = i" using c(1) unfolding getContinuation_def by (rule find_same_key)
  have none: "ri_continuation r \<noteq> i" if "r \<in> set (intents s)" for r
    using armed_no_intent[OF inv c] that by (auto simp: intent_at_def find_None_iff)
  define K where "K = ''resume:'' @ cn_id c"
  have "ri_key r \<noteq> K" if "r \<in> set (intents s)" for r
  proof -
    obtain q where "intent_of q r"
      using inv \<open>r \<in> set (intents s)\<close> by (auto simp: fab_inv_def inv_intents_def)
    then show ?thesis using none[OF that] id by (auto simp: intent_of_def K_def)
  qed
  then have "K \<notin> ri_key ` set (intents s)" by blast
  moreover have "i \<notin> ri_continuation ` set (intents s)" using none by blast
  moreover have "j \<notin> ri_id ` set (intents s)" using new by blast
  ultimately show ?thesis
    using id by (simp add: intent_unique_def new_key_def resume_intent_def K_def)
qed

lemma wake_step:
  assumes inv: "fab_inv s" and c: "getContinuation i s = Some c" "cn_state c = Cont_ARMED"
    and f: "\<And>r. continuation_change r (f r)" "\<And>r. cn_state (f r) = Cont_READY"
    and r: "intent_unique (intents s) r" "intent_refs s r" "issued_id (fab_host s) (ri_id r)"
      "intent_of c r" "ri_state r = Intent_PENDING"
  shows "store_step s (s\<lparr>continuations := update_where (\<lambda>r. cn_id r = i \<and> cn_state r = Cont_ARMED) f (continuations s),
    intents := intents s @ [r]\<rparr>)"
proof -
  let ?P = "\<lambda>r. cn_id r = i \<and> cn_state r = Cont_ARMED"
  let ?cs = "update_where ?P f (continuations s)"
  have cs: "list_all2 continuation_change (continuations s) ?cs" using f(1) by (simp add: change_of_update)
  have id: "cn_id c = i" and mem: "c \<in> set (continuations s)"
    using c(1) find_key_SomeD[of cn_id i "continuations s" c] by (auto simp: getContinuation_def)
  have key: "ri_continuation r = i" using r(4) id by (simp add: intent_of_def)
  have eq: "update_where ?P f xs = update_where (\<lambda>_. True) (\<lambda>c. if ?P c then f c else c) xs" for xs
    by (induction xs) auto
  have conts: "map_option cn_state (find (\<lambda>c. cn_id c = j) ?cs) =
      (if j = i then Some Cont_READY else map_option cn_state (find (\<lambda>c. cn_id c = j) (continuations s)))" for j
  proof -
    have "find (\<lambda>c. cn_id c = j) ?cs =
        map_option (\<lambda>c. if ?P c then f c else c) (find (\<lambda>c. cn_id c = j) (continuations s))"
      using f(1) by (subst eq, subst find_update_where) (auto simp: continuation_change_def)
    then show ?thesis using c f(2)
      by (cases "find (\<lambda>c. cn_id c = j) (continuations s)")
        (auto simp: getContinuation_def dest: find_same_key)
  qed
  have "new_key ri_continuation (intents s) r" using r(1) by (simp add: intent_unique_def)
  then have intent: "find (\<lambda>x. ri_continuation x = j) (intents s @ [r]) =
      (if j = i then Some r else find (\<lambda>x. ri_continuation x = j) (intents s))" for j
    by (simp only: find_fresh_append key)
  show ?thesis
  proof (rule step_wake[OF cs r(1-3) mem r(4) c(2)])
    show "\<forall>j. wait_state ?cs (intents s @ [r]) j =
        (if j = ri_continuation r then (Some Cont_READY, Some Intent_PENDING)
         else wait_state (continuations s) (intents s) j)"
      unfolding wait_state_def conts intent key using r(5) by simp
  qed
qed

lemma ready_refs:
  assumes "fab_inv s" and "getContinuation i s = Some c"
  shows "is_mission s (cn_mission c)" "is_assignment s (cn_owner c)" "is_attempt s (cn_attempt c)"
    "key_of cn_id (continuations s) (cn_id c)"
proof -
  have mem: "c \<in> set (continuations s)"
    using assms(2) find_key_SomeD[of cn_id i "continuations s" c] by (auto simp: getContinuation_def)
  then have "continuation_refs s c" using assms(1) by (simp add: fab_inv_def inv_refs_def refs_at_def)
  then show "is_mission s (cn_mission c)" "is_assignment s (cn_owner c)" "is_attempt s (cn_attempt c)"
    by (simp_all add: continuation_refs_def)
  show "key_of cn_id (continuations s) (cn_id c)" using mem by (simp add: key_of_def)
qed

text \<open>A wake is the host's clock and identifier, one \<open>step_wake\<close>, and the event.\<close>

lemma readyContinuation_run:
  assumes inv: "fab_inv s" and run: "readyContinuation i trigger s = Inr (b, t)"
  obtains (idle) "t = s" and "\<not> b"
  | (woken) h u c attempt payload j t' where "host_tick (fab_host s) h"
    and "store_step (s\<lparr>fab_host := h\<rparr>) u" and "getContinuation i s = Some c"
    and "cn_state c = Cont_ARMED" and "b"
    and "intents u = intents s @ [resume_intent j c attempt t' payload]"
    and "appendEvent (cn_mission c) ''continuation.ready'' None (Some (cn_owner c))
           (Some (cn_attempt c)) payload u = Inr ((), t)"
proof -
  obtain c where c: "getContinuation i s = Some c"
    using run by (auto simp: readyContinuation_def bnd_run requireContinuation_def tx_simps)
  show thesis
  proof (cases "cn_state c = Cont_ARMED")
    case False
    with run c show thesis
      by (intro idle) (simp_all add: readyContinuation_def bnd_run requireContinuation_def tx_simps)
  next
    case True
    define now' where "now' = fst (timestamp (fab_host s))"
    define h1 where "h1 = snd (timestamp (fab_host s))"
    define j where "j = fst (newId ''resume_intent'' h1)"
    define h2 where "h2 = snd (newId ''resume_intent'' h1)"
    have tick: "host_tick (fab_host s) h2"
      unfolding h2_def h1_def by (rule host_tick_trans[OF host_tick_timestamp host_tick_newId])
    define v where "v = s\<lparr>fab_host := h2\<rparr>"
    have inv': "fab_inv v" unfolding v_def using fab_inv_step[OF step_host[OF tick] inv] .
    have c': "getContinuation i v = Some c" using c by (simp add: v_def getContinuation_def)
    have one: "changes (\<lambda>r. cn_id r = i \<and> cn_state r = Cont_ARMED) (continuations s) = 1"
      using c True inv by (intro changes_one) (auto simp: getContinuation_def fab_inv_def inv_keys_def)
    have fresh_id: "\<forall>r\<in>set (intents v). ri_id r \<noteq> j"
    proof
      fix r assume "r \<in> set (intents v)"
      then have "issued_id h1 (ri_id r)" and "host_ok h1"
        using inv unfolding v_def h1_def by (simp_all add: fab_inv_def inv_intents_def)
      then show "ri_id r \<noteq> j" unfolding j_def using newId_fresh[of h1 "ri_id r" "''resume_intent''"] by metis
    qed
    define f :: "continuation_row \<Rightarrow> continuation_row" where "f = (\<lambda>r. r\<lparr> cn_state := Cont_READY, cn_ready_at := coalesce (cn_ready_at r) (Some now'),
                    cn_updated_at := now' \<rparr>)"
    define payload where "payload = [(''continuationId'', JStr (cn_id c)), (''reason'', JStr (cn_reason c)),
                    (''trigger'', JObj trigger),
                    (''deliveryContract'', JStr CONFIRMED_RESUME_DELIVERY_CONTRACT)]"
    define u0 where "u0 = s\<lparr>continuations :=
      update_where (\<lambda>r. cn_id r = i \<and> cn_state r = Cont_ARMED) f (continuations s), fab_host := h2\<rparr>"
    have u0_eq: "u0 = v\<lparr>continuations := update_where (\<lambda>r. cn_id r = i \<and> cn_state r = Cont_ARMED) f (continuations v)\<rparr>"
      by (simp add: u0_def v_def)
    obtain attempt w where w: "insert_intent_or_ignore (resume_intent j c attempt now' payload) u0 = Inr ((), w)"
      "appendEvent (cn_mission c) ''continuation.ready'' None (Some (cn_owner c))
           (Some (cn_attempt c)) payload w = Inr ((), t)" and b
      using run c True one
      by (auto simp: readyContinuation_def bnd_run thn_run now_run fresh_run requireContinuation_def
          requireAttempt_def tx_simps where_eqs Let_def resume_intent_def payload_def f_def u0_def v_def
          h1_def h2_def j_def now'_def getAttempt_def)
    let ?r = "resume_intent j c attempt now' payload"
    have uniq: "intent_unique (intents v) ?r" by (rule resume_intent_unique[OF inv' c' True fresh_id])
    then have "intent_unique (intents u0) ?r" by (simp add: u0_eq)
    then have w_eq: "w = u0\<lparr>intents := intents v @ [?r]\<rparr>"
      using w(1) by (simp add: insert_intent_or_ignore_def insert_or_ignore_run table_eqs u0_eq)
    have "store_step v (v\<lparr>continuations := update_where (\<lambda>r. cn_id r = i \<and> cn_state r = Cont_ARMED) f
        (continuations v), intents := intents v @ [?r]\<rparr>)"
    proof (rule wake_step[OF inv' c' True _ _ uniq])
      show "intent_refs v ?r" using ready_refs[OF inv' c'] by (simp add: intent_refs_def resume_intent_def)
      show "issued_id (fab_host v) (ri_id ?r)"
        by (simp add: v_def resume_intent_def h2_def j_def newId_issued)
    qed (simp_all add: f_def continuation_change_def resume_intent_def intent_of_def)
    then have "store_step v w" by (simp add: w_eq u0_eq)
    then show thesis
      using woken[OF tick _ c True \<open>b\<close>] w(2) by (simp add: v_def w_eq)
  qed
qed

lemma readyContinuation_safe [store_safe]: "store.safe (readyContinuation i trigger)"
proof (rule store.safe_whenI)
  fix s b t
  assume inv: "fab_inv s" and "readyContinuation i trigger s = Inr (b, t)"
  then show "store_run s t"
  proof (cases rule: readyContinuation_run)
    case idle
    then show ?thesis by simp
  next
    case (woken h u c attempt payload)
    have "store_run s u" using step_host[OF woken(1)] woken(2) by (meson r_into_rtranclp rtranclp.simps)
    moreover have "store_run u t"
      using store.safe_whenD[OF appendEvent_safe _ _ woken(7)] fab_inv_run[OF \<open>store_run s u\<close> inv] by simp
    ultimately show ?thesis by simp
  qed
qed

lemma reconcile_safe [store_safe]:
  "store.safe (reconcile_target c t)" "store.safe (reconcileContinuation i)"
proof -
  show target: "store.safe (reconcile_target c t)" for c t
    unfolding reconcile_target_def by (intro store.safe_rules store_safe)
  show "store.safe (reconcileContinuation i)"
    unfolding reconcileContinuation_def Let_def by (intro store.safe_rules store_safe target)
qed

lemma satisfy_each_safe [store_safe]: "store.safe (satisfy_each q b p ts acc)"
proof (induction ts arbitrary: acc)
  case Nil
  show ?case unfolding satisfy_each.simps by (rule store.safe_ret)
next
  case (Cons t ts)
  show ?case unfolding satisfy_each.simps by (intro store.safe_rules store_safe Cons.IH)
qed

lemma satisfy_safe [store_safe]:
  "store.safe (satisfyContinuationsFromMessage m)" "store.safe (satisfyContinuationsFromAssignment a)"
  unfolding satisfyContinuationsFromMessage_def satisfyContinuationsFromAssignment_def
  by (intro store.safe_rules store_safe)+

section \<open>Delivery\<close>

lemma no_continuation_no_intent:
  assumes "fab_inv s" and "getContinuation i s = None"
  shows "\<forall>r\<in>set (intents s). ri_continuation r \<noteq> i"
  using assms by (fastforce simp: fab_inv_def inv_intents_def intent_of_def getContinuation_def find_None_iff)

lemma pair_step_any:
  assumes inv: "fab_inv s"
    and f: "\<And>c. P c \<Longrightarrow> continuation_change c (f c)" "\<And>c. P c \<Longrightarrow> cn_id c = i"
    and g: "\<And>r. Q r \<Longrightarrow> intent_change r (g r)" "\<And>r. Q r \<Longrightarrow> ri_continuation r = i"
    and move: "\<And>c. getContinuation i s = Some c \<Longrightarrow>
      wait_move (Some (cn_state c), map_option ri_state (intent_at i s))
      (Some (cn_state (if P c then f c else c)),
       map_option (\<lambda>r. ri_state (if Q r then g r else r)) (intent_at i s))"
  shows "store_step s (s\<lparr>continuations := update_where P f (continuations s),
                         intents := update_where Q g (intents s)\<rparr>)"
proof (cases "getContinuation i s")
  case None
  have "\<forall>c\<in>set (continuations s). \<not> P c"
    using None f(2) by (auto simp: getContinuation_def find_None_iff)
  moreover have "\<forall>r\<in>set (intents s). \<not> Q r" using no_continuation_no_intent[OF inv None] g(2) by blast
  ultimately show ?thesis
    by (intro waits_step[where i = i]) (simp_all add: update_where_none list_all2_refl)
next
  case (Some c)
  show ?thesis
  proof (rule pair_step[OF Some])
    show "wait_move (Some (cn_state c), map_option ri_state (intent_at i s))
      (Some (cn_state (if P c then f c else c)),
       map_option (\<lambda>r. ri_state (if Q r then g r else r)) (intent_at i s))"
      using Some by (rule move)
  qed (use f g in blast)+
qed

lemma update_where_cong:
  "(\<And>r. r \<in> set rows \<Longrightarrow> P r = Q r) \<Longrightarrow> update_where P f rows = update_where Q f rows"
  by (induction rows) auto

text \<open>The statements that select an intent by its own key.\<close>

lemma intent_pair_step:
  assumes inv: "fab_inv s" and f: "\<And>c. continuation_change c (f c)" and g: "\<And>r. intent_change r (g r)"
    and move: "\<And>r c. getResumeIntent i s = Some r \<Longrightarrow> getContinuation (ri_continuation r) s = Some c \<Longrightarrow>
      wait_move (Some (cn_state c), Some (ri_state r))
        (Some (if cn_state c = from then cn_state (f c) else cn_state c),
         Some (if S r then ri_state (g r) else ri_state r))"
  shows "store_step s (s\<lparr>continuations := update_where (\<lambda>c. Some (cn_id c) = continuation_of_intent i s \<and> cn_state c = from) f (continuations s),
     intents := update_where (\<lambda>r. ri_id r = i \<and> S r) g (intents s)\<rparr>)"
proof (cases "getResumeIntent i s")
  case None
  then have "\<forall>r\<in>set (intents s). ri_id r \<noteq> i" by (auto simp: getResumeIntent_def find_None_iff)
  then show ?thesis
    by (intro waits_step[where i = i])
      (simp_all add: None continuation_of_intent_def update_where_none list_all2_refl)
next
  case (Some r)
  let ?k = "ri_continuation r"
  have keys: "distinct (map ri_continuation (intents s))" "distinct (map ri_id (intents s))"
    using inv by (simp_all add: fab_inv_def inv_keys_def)
  have mem: "r \<in> set (intents s)" "ri_id r = i"
    using Some find_key_SomeD[of ri_id i "intents s" r] by (auto simp: getResumeIntent_def)
  have at_k: "intent_at ?k s = Some r" using find_key_distinct[OF keys(1) mem(1)] by (simp add: intent_at_def)
  have same: "(ri_id q = i \<and> S q) = (ri_continuation q = ?k \<and> S q)" if "q \<in> set (intents s)" for q
  proof -
    have "q = r" if "ri_id q = i"
      using row_unique[OF keys(2) Some[unfolded getResumeIntent_def] \<open>q \<in> set (intents s)\<close> that] .
    moreover have "q = r" if "ri_continuation q = ?k"
      using row_unique[OF keys(1) at_k[unfolded intent_at_def] \<open>q \<in> set (intents s)\<close> that] .
    ultimately show ?thesis using mem(2) by blast
  qed
  have conts: "(\<lambda>c. Some (cn_id c) = continuation_of_intent i s \<and> cn_state c = from) =
      (\<lambda>c. cn_id c = ?k \<and> cn_state c = from)"
    using Some by (simp add: continuation_of_intent_def)
  have "store_step s (s\<lparr>continuations := update_where (\<lambda>c. cn_id c = ?k \<and> cn_state c = from) f (continuations s),
     intents := update_where (\<lambda>r. ri_continuation r = ?k \<and> S r) g (intents s)\<rparr>)"
  proof (rule pair_step_any[OF inv])
    fix c assume c: "getContinuation ?k s = Some c"
    then have "cn_id c = ?k" unfolding getContinuation_def by (rule find_same_key)
    with move[OF Some c] at_k
    show "wait_move (Some (cn_state c), map_option ri_state (intent_at ?k s))
        (Some (cn_state (if cn_id c = ?k \<and> cn_state c = from then f c else c)),
         map_option (\<lambda>r'. ri_state (if ri_continuation r' = ?k \<and> S r' then g r' else r')) (intent_at ?k s))"
      by (simp add: if_distrib cong: if_cong)
  qed (use f g in auto)
  then show ?thesis unfolding conts by (simp add: update_where_cong[OF same])
qed

text \<open>The states of an intent and of its continuation.\<close>

lemma intent_state_pair:
  assumes inv: "fab_inv s" and r: "getResumeIntent i s = Some r"
    and c: "getContinuation (ri_continuation r) s = Some c"
  shows "(Some (cn_state c), Some (ri_state r)) \<in> set WAIT_STATES"
proof -
  have "r \<in> set (intents s)"
    using r find_key_SomeD[of ri_id i "intents s" r] by (auto simp: getResumeIntent_def)
  then have "intent_at (ri_continuation r) s = Some r"
    using inv find_key_distinct[of ri_continuation "intents s" r]
    by (simp add: intent_at_def fab_inv_def inv_keys_def)
  with wait_pair[OF inv c] show ?thesis by simp
qed

lemma move_run:
  "move_continuation_of i from f s = Inr (x, t) \<longleftrightarrow> t = s\<lparr>continuations :=
     update_where (\<lambda>c. Some (cn_id c) = continuation_of_intent i s \<and> cn_state c = from) f (continuations s)\<rparr>"
  by (auto simp: move_continuation_of_def tx_simps where_eqs)

text \<open>The same statements in the order of the code: the intent first.\<close>

lemma intent_then_continuation:
  assumes inv: "fab_inv s" and f: "\<And>c. continuation_change c (f c)" and g: "\<And>r. intent_change r (g r)"
    and move: "\<And>r c. getResumeIntent i s = Some r \<Longrightarrow> getContinuation (ri_continuation r) s = Some c \<Longrightarrow>
      wait_move (Some (cn_state c), Some (ri_state r))
        (Some (if cn_state c = from then cn_state (f c) else cn_state c),
         Some (if S r then ri_state (g r) else ri_state r))"
    and run: "move_continuation_of i from f (s\<lparr>intents := update_where (\<lambda>r. ri_id r = i \<and> S r) g (intents s)\<rparr>) = Inr (x, t)"
  shows "store_step s t"
proof -
  let ?u = "s\<lparr>intents := update_where (\<lambda>r. ri_id r = i \<and> S r) g (intents s)\<rparr>"
  have "continuation_of_intent i ?u = continuation_of_intent i s"
    using g by (simp add: continuation_of_intent_def getResumeIntent_def find_update_where
        intent_change_def option.map_comp comp_def if_distrib cong: if_cong)
  with run have t: "t = ?u\<lparr>continuations := update_where (\<lambda>c. Some (cn_id c) = continuation_of_intent i s \<and>
      cn_state c = from) f (continuations s)\<rparr>"
    by (simp add: move_run)
  have swap: "s\<lparr>intents := I, continuations := C\<rparr> = s\<lparr>continuations := C, intents := I\<rparr>" for I C by simp
  show ?thesis unfolding t swap by (rule intent_pair_step[where i = i, OF inv f g move])
qed

lemma deliver_rules:
  assumes "(Some x, Some y) \<in> set WAIT_STATES"
  shows "wait_move (Some x, Some y) (Some (if x = Cont_READY then Cont_DELIVERING else x),
           Some (if y = Intent_PENDING then Intent_PROCESSING else y))"
    and "wait_move (Some x, Some y) (Some (if x = Cont_DELIVERING then Cont_DELIVERED else x),
           Some (if y = Intent_PROCESSING then Intent_DELIVERED else y))"
    and "wait_move (Some x, Some y) (Some (if x = Cont_DELIVERING then Cont_READY else x),
           Some (if y = Intent_PROCESSING then Intent_PENDING else y))"
  using assms by (cases x; simp add: WAIT_STATES_def WAIT_MOVES_def wait_move_def)+

lemma host_step_then:
  assumes "fab_inv s" and "host_tick (fab_host s) h"
    and "fab_inv (s\<lparr>fab_host := h\<rparr>) \<Longrightarrow> store_run (s\<lparr>fab_host := h\<rparr>) t"
  shows "store_run s t"
  using step_host[OF assms(2)] fab_inv_step[OF step_host[OF assms(2)] assms(1)] assms(3)
  by (meson converse_rtranclp_into_rtranclp)

lemma markProcessing_safe [store_safe]: "store.safe (markResumeIntentProcessing i q)"
proof (rule store.safe_whenI)
  fix s b t
  assume inv: "fab_inv s" and run: "markResumeIntentProcessing i q s = Inr (b, t)"
  let ?h = "snd (timestamp (fab_host s))"
  let ?P = "\<lambda>r. ri_id r = i \<and> ri_state r = Intent_PENDING"
  let ?u = "s\<lparr>fab_host := ?h\<rparr>"
  show "store_run s t"
  proof (rule host_step_then[OF inv host_tick_timestamp])
    assume inv': "fab_inv ?u"
    show "store_run ?u t"
    proof (cases "changes ?P (intents s) = 1")
      case False
      have "changes ?P (intents s) \<le> 1"
        using inv by (intro changes_le_one) (simp add: fab_inv_def inv_keys_def)
      with False have "changes ?P (intents s) = 0" by linarith
      then have "\<forall>r\<in>set (intents s). \<not> ?P r" by (auto simp: changes_def filter_empty_conv)
      with run False have "t = ?u"
        by (auto simp: markResumeIntentProcessing_def bnd_run now_run tx_simps where_eqs update_where_none)
      then show ?thesis by simp
    next
      case True
      with run obtain x f g where m: "move_continuation_of i Cont_READY f
          (?u\<lparr>intents := update_where ?P g (intents ?u)\<rparr>) = Inr (x, t)"
        and fg: "\<And>c. continuation_change c (f c)" "\<And>c. cn_state (f c) = Cont_DELIVERING"
          "\<And>r. intent_change r (g r)" "\<And>r. ri_state (g r) = Intent_PROCESSING"
        by (auto simp: markResumeIntentProcessing_def bnd_run thn_run now_run tx_simps where_eqs
            continuation_change_def intent_change_def)
      have "store_step ?u t"
      proof (rule intent_then_continuation[OF inv' fg(1,3) _ m], goal_cases)
        case (1 r c)
        then show ?case unfolding fg by (intro deliver_rules(1) intent_state_pair[OF inv'])
      qed
      then show ?thesis by simp
    qed
  qed
qed

lemma markDelivered_safe [store_safe]: "store.safe (markResumeIntentDelivered i)"
proof (rule store.safe_whenI)
  fix s b t
  assume inv: "fab_inv s" and run: "markResumeIntentDelivered i s = Inr (b, t)"
  let ?u = "s\<lparr>fab_host := snd (timestamp (fab_host s))\<rparr>"
  show "store_run s t"
  proof (rule host_step_then[OF inv host_tick_timestamp])
    assume inv': "fab_inv ?u"
    from run obtain x f g where m: "move_continuation_of i Cont_DELIVERING f
         (?u\<lparr>intents := update_where (\<lambda>r. ri_id r = i \<and> ri_state r = Intent_PROCESSING) g (intents ?u)\<rparr>) = Inr (x, t)"
      and fg: "\<And>c. continuation_change c (f c)" "\<And>c. cn_state (f c) = Cont_DELIVERED"
        "\<And>r. intent_change r (g r)" "\<And>r. ri_state (g r) = Intent_DELIVERED"
      by (auto simp: markResumeIntentDelivered_def bnd_run thn_run now_run tx_simps where_eqs
          continuation_change_def intent_change_def)
    have "store_step ?u t"
    proof (rule intent_then_continuation[OF inv' fg(1,3) _ m], goal_cases)
      case (1 r c)
      then show ?case unfolding fg by (intro deliver_rules(2) intent_state_pair[OF inv'])
    qed
    then show "store_run ?u t" by simp
  qed
qed

lemma retryIntent_safe [store_safe]: "store.safe (retryResumeIntent i e d)"
proof (rule store.safe_whenI)
  fix s b t
  assume inv: "fab_inv s" and run: "retryResumeIntent i e d s = Inr (b, t)"
  let ?u = "s\<lparr>fab_host := snd (timestamp (fab_host s))\<rparr>"
  show "store_run s t"
  proof (rule host_step_then[OF inv host_tick_timestamp])
    assume inv': "fab_inv ?u"
    from run obtain x f g where m: "move_continuation_of i Cont_DELIVERING f
         (?u\<lparr>intents := update_where (\<lambda>r. ri_id r = i \<and> ri_state r = Intent_PROCESSING) g (intents ?u)\<rparr>) = Inr (x, t)"
      and fg: "\<And>c. continuation_change c (f c)" "\<And>c. cn_state (f c) = Cont_READY"
        "\<And>r. intent_change r (g r)" "\<And>r. ri_state (g r) = Intent_PENDING"
      by (auto simp: retryResumeIntent_def bnd_run thn_run now_run tx_simps where_eqs
          continuation_change_def intent_change_def)
    have "store_step ?u t"
    proof (rule intent_then_continuation[OF inv' fg(1,3) _ m], goal_cases)
      case (1 r c)
      then show ?case unfolding fg by (intro deliver_rules(3) intent_state_pair[OF inv'])
    qed
    then show "store_run ?u t" by simp
  qed
qed

section \<open>Consuming\<close>

lemma safe_upd2:
  assumes "\<And>s. fab_inv s \<Longrightarrow> P s \<Longrightarrow> store_run s (tb (update_where Q g) (ta (update_where Q' f) s))"
    and "store.safe m"
  shows "store.safe_when P (thn (upd ta Q' f) (thn (upd tb Q g) m))"
proof (rule store.safe_whenI)
  fix s x t
  assume "fab_inv s" "P s" "thn (upd ta Q' f) (thn (upd tb Q g) m) s = Inr (x, t)"
  moreover from this have "m (tb (update_where Q g) (ta (update_where Q' f) s)) = Inr (x, t)"
    by (simp add: thn_run tx_simps)
  ultimately show "store_run s t"
    using assms store.safe_whenD[OF assms(2)] fab_inv_run by (meson rtranclp_trans)
qed

lemma upd_sessions_safe [store_safe]:
  "(\<And>r. Q r \<Longrightarrow> session_change r (f r)) \<Longrightarrow> store.safe (upd runtime_sessions_update Q f)"
  by (rule upd_sessions)

lemma owner_safe [store_safe]: "store.safe (park_owner a e t)" "store.safe (resume_owner a e t)"
  unfolding park_owner_def resume_owner_def
  by (intro store.safe_rules upd_assignments upd_attempts upd_sessions;
      auto simp: assignment_change_def attempt_change_def session_change_def)+

lemma consume_rule:
  assumes "(Some x, y) \<in> set WAIT_STATES"
  shows "wait_move (Some x, y)
    (Some (if x \<in> set [Cont_READY, Cont_DELIVERING, Cont_DELIVERED] then Cont_CONSUMED else x),
     map_option (\<lambda>z. if z \<noteq> Intent_CANCELLED then Intent_ACKNOWLEDGED else z) y)"
  using assms by (cases x; cases y) (auto simp: WAIT_STATES_def WAIT_MOVES_def wait_move_def)

lemma consume_first_safe [store_safe]: "store.safe (consume_first c owner e)"
  unfolding consume_first_def
proof (intro store.safe_bnd store.safe_now safe_upd2 store.safe_thn store_safe)
  fix t s
  assume inv: "fab_inv s"
  let ?P = "\<lambda>r. cn_id r = cn_id c \<and> cn_state r \<in> set [Cont_READY, Cont_DELIVERING, Cont_DELIVERED]"
  let ?Q = "\<lambda>r. ri_continuation r = cn_id c \<and> ri_state r \<noteq> Intent_CANCELLED"
  let ?f = "\<lambda>r. r\<lparr>cn_state := Cont_CONSUMED, cn_consumed_at := coalesce (cn_consumed_at r) (Some t), cn_updated_at := t\<rparr>"
  let ?g = "\<lambda>r. r\<lparr>ri_state := Intent_ACKNOWLEDGED, ri_acknowledged_at := coalesce (ri_acknowledged_at r) (Some t),
              ri_updated_at := t, ri_last_error := None\<rparr>"
  have "store_step s (s\<lparr>continuations := update_where ?P ?f (continuations s), intents := update_where ?Q ?g (intents s)\<rparr>)"
  proof (rule pair_step_any[OF inv])
    fix d assume d: "getContinuation (cn_id c) s = Some d"
    then have id: "cn_id d = cn_id c" unfolding getContinuation_def by (rule find_same_key)
    have "map_option (\<lambda>r. ri_state (if ?Q r then ?g r else r)) (intent_at (cn_id c) s) =
        map_option (\<lambda>z. if z \<noteq> Intent_CANCELLED then Intent_ACKNOWLEDGED else z)
          (map_option ri_state (intent_at (cn_id c) s))"
      by (cases "intent_at (cn_id c) s") (auto dest: intent_at_key)
    moreover have "cn_state (if ?P d then ?f d else d) =
        (if cn_state d \<in> set [Cont_READY, Cont_DELIVERING, Cont_DELIVERED] then Cont_CONSUMED else cn_state d)"
      using id by simp
    ultimately show "wait_move (Some (cn_state d), map_option ri_state (intent_at (cn_id c) s))
      (Some (cn_state (if ?P d then ?f d else d)), map_option (\<lambda>r. ri_state (if ?Q r then ?g r else r)) (intent_at (cn_id c) s))"
      using consume_rule[OF wait_pair[OF inv d]] by simp
  qed (auto simp: continuation_change_def intent_change_def)
  then show "store_run s (intents_update (update_where ?Q ?g) (continuations_update (update_where ?P ?f) s))"
    by (simp add: where_eqs r_into_rtranclp)
qed

section \<open>Recovery\<close>

text \<open>The legacy rows are rows of the table: their key and continuation stay in it.\<close>

definition intent_known :: "intent_row \<Rightarrow> fab \<Rightarrow> bool" where
  "intent_known row s \<longleftrightarrow> (\<forall>r\<in>set (intents s). ri_id r = ri_id row \<longrightarrow> ri_continuation r = ri_continuation row)"

lemma collect_keep:
  assumes "\<And>x. x \<in> set xs \<Longrightarrow> store.safe_when (P x) (f x)"
    and "\<And>x y. keeps (P x) (f y)"
  shows "store.safe_when (\<lambda>s. \<forall>x\<in>set xs. P x s) (collect_tx f xs)"
  using assms(1)
proof (induction xs)
  case Nil
  show ?case by (auto intro: store.safe_ret)
next
  case (Cons x xs)
  show ?case unfolding collect_tx.simps
  proof (rule store.safe_bnd_post[where Q = "\<lambda>_ s. \<forall>x\<in>set xs. P x s"])
    show "store.safe_when (\<lambda>s. \<forall>y\<in>set (x # xs). P y s) (f x)"
      using Cons.prems[of x] by (auto intro: store.strengthen)
    show "store.safe_when (\<lambda>s. \<forall>x\<in>set xs. P x s) (bnd (collect_tx f xs) (\<lambda>ys. ret (y # ys)))" for y
      using Cons by (intro store.safe_bnd store.safe_ret) auto
    show "\<forall>x\<in>set xs. P x t" if "\<forall>y\<in>set (x # xs). P y s" "f x s = Inr (y, t)" for s y t
      using that keepsD[OF assms(2)] by (metis list.set_intros(2))
  qed
qed

lemma replay_rules:
  assumes "(Some x, Some y) \<in> set WAIT_STATES"
  shows "wait_move (Some x, Some y) (Some (if x = Cont_DELIVERED \<and> p then Cont_READY else x),
           Some (if y = Intent_DELIVERED \<and> p then Intent_PENDING else y))"
  using assms by (cases x; simp add: WAIT_STATES_def WAIT_MOVES_def wait_move_def)

lemma replay_step:
  assumes inv: "fab_inv s" and known: "intent_known row s" and row: "r \<in> set (intents s)" "ri_id r = ri_id row"
      "ri_state r = Intent_DELIVERED" "ri_acknowledged_at r = None"
    and f: "\<And>c. continuation_change c (f c)" "\<And>c. cn_state (f c) = Cont_READY"
    and g: "\<And>r. intent_change r (g r)" "\<And>r. ri_state (g r) = Intent_PENDING"
  shows "store_step s (s\<lparr>continuations := update_where (\<lambda>c. cn_id c = ri_continuation row \<and> cn_state c = Cont_DELIVERED) f (continuations s),
    intents := update_where (\<lambda>r. ri_id r = ri_id row \<and> ri_state r = Intent_DELIVERED \<and> ri_acknowledged_at r = None) g (intents s)\<rparr>)"
proof -
  let ?k = "ri_continuation row"
  have keys: "distinct (map ri_continuation (intents s))" "distinct (map ri_id (intents s))"
    using inv by (simp_all add: fab_inv_def inv_keys_def)
  have k: "ri_continuation r = ?k" using known row by (simp add: intent_known_def)
  have at_k: "intent_at ?k s = Some r" using find_key_distinct[OF keys(1) row(1)] k by (simp add: intent_at_def)
  have id: "find (\<lambda>q. ri_id q = ri_id row) (intents s) = Some r"
    using find_key_distinct[OF keys(2) row(1)] row(2) by simp
  have same: "(ri_id q = ri_id row \<and> ri_state q = Intent_DELIVERED \<and> ri_acknowledged_at q = None) = (ri_continuation q = ?k \<and> ri_state q = Intent_DELIVERED \<and> ri_acknowledged_at q = None)"
    if "q \<in> set (intents s)" for q
  proof -
    have "q = r" if "ri_id q = ri_id row" using row_unique[OF keys(2) id \<open>q \<in> set (intents s)\<close> that] .
    moreover have "q = r" if "ri_continuation q = ?k"
      using row_unique[OF keys(1) at_k[unfolded intent_at_def] \<open>q \<in> set (intents s)\<close> that] .
    ultimately show ?thesis using row(2) k by blast
  qed
  have "store_step s (s\<lparr>continuations := update_where (\<lambda>c. cn_id c = ?k \<and> cn_state c = Cont_DELIVERED) f (continuations s),
    intents := update_where (\<lambda>r. ri_continuation r = ?k \<and> ri_state r = Intent_DELIVERED \<and> ri_acknowledged_at r = None) g (intents s)\<rparr>)"
  proof (rule pair_step_any[OF inv])
    fix c assume c: "getContinuation ?k s = Some c"
    then have "cn_id c = ?k" unfolding getContinuation_def by (rule find_same_key)
    moreover have "(Some (cn_state c), Some (ri_state r)) \<in> set WAIT_STATES" using wait_pair[OF inv c] at_k by simp
    ultimately show "wait_move (Some (cn_state c), map_option ri_state (intent_at ?k s))
      (Some (cn_state (if cn_id c = ?k \<and> cn_state c = Cont_DELIVERED then f c else c)),
       map_option (\<lambda>r. ri_state (if ri_continuation r = ?k \<and> ri_state r = Intent_DELIVERED \<and> ri_acknowledged_at r = None then g r else r)) (intent_at ?k s))"
      using replay_rules[of "cn_state c" "ri_state r" True] at_k k row(3,4) f(2) g(2)
      by (simp add: if_distrib cong: if_cong)
  qed (use f g in auto)
  then show ?thesis by (simp add: update_where_cong[OF same])
qed

lemma replay_safe: "store.safe_when (intent_known row) (replay_legacy t row)"
proof (rule store.safe_whenI)
  fix s b u
  assume inv: "fab_inv s" and known: "intent_known row s" and run: "replay_legacy t row s = Inr (b, u)"
  let ?P = "\<lambda>r. ri_id r = ri_id row \<and> ri_state r = Intent_DELIVERED \<and> ri_acknowledged_at r = None"
  show "store_run s u"
  proof (cases "confirmed_delivery row")
    case True
    with run show ?thesis by (simp add: replay_legacy_def tx_simps)
  next
    case False
    show ?thesis
    proof (cases "changes ?P (intents s) = 1")
      case none: False
      have "changes ?P (intents s) \<le> 1"
        using inv by (intro changes_le_one) (simp add: fab_inv_def inv_keys_def)
      with none have "changes ?P (intents s) = 0" by linarith
      then have "\<forall>r\<in>set (intents s). \<not> ?P r" by (auto simp: changes_def filter_empty_conv)
      with run False none have "u = s"
        by (auto simp: replay_legacy_def bnd_run tx_simps where_eqs update_where_none)
      then show ?thesis by simp
    next
      case one: True
      then have "filter ?P (intents s) \<noteq> []" unfolding changes_def by auto
      then obtain r where r: "r \<in> set (intents s)" "?P r" by (auto simp: filter_empty_conv)
      from run False one obtain f g where u: "u = s\<lparr>intents := update_where ?P g (intents s),
          continuations := update_where (\<lambda>c. cn_id c = ri_continuation row \<and> cn_state c = Cont_DELIVERED) f (continuations s)\<rparr>"
        and fg: "\<And>c. continuation_change c (f c)" "\<And>c. cn_state (f c) = Cont_READY"
          "\<And>r. intent_change r (g r)" "\<And>r. ri_state (g r) = Intent_PENDING"
        by (auto simp: replay_legacy_def bnd_run thn_run tx_simps where_eqs
            continuation_change_def intent_change_def)
      have swap: "s\<lparr>intents := I, continuations := C\<rparr> = s\<lparr>continuations := C, intents := I\<rparr>" for I C by simp
      show ?thesis unfolding u swap using replay_step[OF inv known r(1)] r(2) fg by (simp add: r_into_rtranclp)
    qed
  qed
qed

lemma replay_keeps: "keeps (intent_known x) (replay_legacy t row)"
  by (auto simp: keeps_def replay_legacy_def bnd_run thn_run tx_simps intent_known_def set_update_where
      split: if_splits)

lemma reset_step:
  assumes inv: "fab_inv s"
    and f: "\<And>c. continuation_change c (f c)" "\<And>c. cn_state (f c) = Cont_READY"
    and g: "\<And>r. intent_change r (g r)" "\<And>r. ri_state (g r) = Intent_PENDING"
  shows "store_step s (s\<lparr>continuations := update_where (\<lambda>c. cn_state c = Cont_DELIVERING) f (continuations s),
    intents := update_where (\<lambda>r. ri_state r = Intent_PROCESSING) g (intents s)\<rparr>)"
proof (rule step_waits)
  show "wait_moves (continuations s) (intents s)
      (update_where (\<lambda>c. cn_state c = Cont_DELIVERING) f (continuations s))
      (update_where (\<lambda>r. ri_state r = Intent_PROCESSING) g (intents s))"
    unfolding wait_moves_def
  proof
    fix i
    have moved: "wait_state (update_where (\<lambda>c. cn_state c = Cont_DELIVERING) f (continuations s))
        (update_where (\<lambda>r. ri_state r = Intent_PROCESSING) g (intents s)) i =
      (map_option (\<lambda>c. cn_state (if cn_state c = Cont_DELIVERING then f c else c)) (find (\<lambda>c. cn_id c = i) (continuations s)),
       map_option (\<lambda>r. ri_state (if ri_state r = Intent_PROCESSING then g r else r)) (find (\<lambda>r. ri_continuation r = i) (intents s)))"
      using f(1) g(1) by (intro wait_state_update) (auto simp: continuation_change_def intent_change_def)
    show "wait_state (update_where (\<lambda>c. cn_state c = Cont_DELIVERING) f (continuations s))
        (update_where (\<lambda>r. ri_state r = Intent_PROCESSING) g (intents s)) i = wait_state (continuations s) (intents s) i \<or>
      (wait_state (continuations s) (intents s) i, wait_state (update_where (\<lambda>c. cn_state c = Cont_DELIVERING) f (continuations s))
        (update_where (\<lambda>r. ri_state r = Intent_PROCESSING) g (intents s)) i) \<in> set WAIT_MOVES"
      using wait_cases[OF inv, of i] f(2) g(2) unfolding moved unfolding wait_state_def
      by (cases "find (\<lambda>c. cn_id c = i) (continuations s)"; cases "find (\<lambda>r. ri_continuation r = i) (intents s)")
        (auto simp: WAIT_STATES_def WAIT_MOVES_def)
  qed
qed (use f g in \<open>simp_all add: change_of_update\<close>)

lemma recover_one_safe [store_safe]: "store.safe (recover_continuation c)"
  unfolding recover_continuation_def by (intro store.safe_rules store_safe)

lemma table_known:
  assumes "fab_inv s" and "row \<in> set (intents s)"
  shows "intent_known row s"
proof -
  have keys: "distinct (map ri_id (intents s))" using assms(1) by (simp add: fab_inv_def inv_keys_def)
  have "r = row" if "r \<in> set (intents s)" "ri_id r = ri_id row" for r
    using row_unique[OF keys find_key_distinct[OF keys assms(2)] that] .
  then show ?thesis by (auto simp: intent_known_def)
qed

lemma safe_upd_count2:
  assumes "\<And>s. fab_inv s \<Longrightarrow> store_run s (tb (update_where Q g) (ta (update_where Q' f) s))"
    and "\<And>n. store.safe (m n)"
  shows "store.safe (bnd (upd_count sel ta Q' f) (\<lambda>n. thn (upd tb Q g) (m n)))"
proof (rule store.safe_whenI)
  fix s x t
  assume inv: "fab_inv s" and "bnd (upd_count sel ta Q' f) (\<lambda>n. thn (upd tb Q g) (m n)) s = Inr (x, t)"
  then have "m (changes Q' (sel s)) (tb (update_where Q g) (ta (update_where Q' f) s)) = Inr (x, t)"
    by (simp add: bnd_run thn_run tx_simps)
  then show "store_run s t"
    using assms(1)[OF inv] store.safe_whenD[OF assms(2)] fab_inv_run[OF assms(1)[OF inv] inv]
    by (meson rtranclp_trans)
qed

lemma recovery_safe [store_safe]: "store.safe recoverAndReconcileContinuations"
  unfolding recoverAndReconcileContinuations_def
proof (rule store.safe_bnd[OF store.safe_now], rule safe_upd_count2, goal_cases)
  case (1 t s)
  then have inv: "fab_inv s" by simp
  let ?P = "\<lambda>c. cn_state c = Cont_DELIVERING" and ?f = "\<lambda>c. c\<lparr>cn_state := Cont_READY, cn_updated_at := t\<rparr>"
  let ?Q = "\<lambda>r. ri_state r = Intent_PROCESSING"
  let ?g = "\<lambda>r. r\<lparr>ri_state := Intent_PENDING, ri_available_at := t, ri_updated_at := t\<rparr>"
  have "store_step s (s\<lparr>continuations := update_where ?P ?f (continuations s), intents := update_where ?Q ?g (intents s)\<rparr>)"
    by (rule reset_step[OF inv]) (simp_all add: continuation_change_def intent_change_def)
  moreover have "continuations_update (update_where ?P ?f) (intents_update (update_where ?Q ?g) s) =
      s\<lparr>continuations := update_where ?P ?f (continuations s), intents := update_where ?Q ?g (intents s)\<rparr>"
    by (simp add: where_eqs)
  ultimately show ?case by (simp only: r_into_rtranclp)
next
  case (2 t n)
  have "store.safe (bnd (reads (\<lambda>s. sort_key ri_created_at (filter (\<lambda>r. ri_state r = Intent_DELIVERED \<and>
            ri_acknowledged_at r = None \<and> ri_updated_at r \<le> clock - LEGACY_RESUME_REPLAY_AFTER_MS)
            (intents s)))) (\<lambda>legacy.
     bnd (collect_tx (replay_legacy t) legacy) (\<lambda>replayed.
     bnd (reads (\<lambda>s. sort_key cn_created_at (filter (\<lambda>c. active_continuation (cn_state c))
            (continuations s)))) (\<lambda>rows.
     bnd (collect_tx recover_continuation rows) (\<lambda>outcomes.
     ret \<lparr> rc_recovered = n + length (filter id replayed),
           rc_ready = length (filter fst outcomes),
           rc_cancelled = length (filter snd outcomes) \<rparr>)))))" for clock
  proof (rule store.safe_bnd_post[where Q = "\<lambda>rows s. \<forall>row\<in>set rows. intent_known row s", OF store.safe_reads])
    show "store.safe_when (\<lambda>s. \<forall>row\<in>set legacy. intent_known row s)
       (bnd (collect_tx (replay_legacy t) legacy) (\<lambda>replayed.
       bnd (reads (\<lambda>s. sort_key cn_created_at (filter (\<lambda>c. active_continuation (cn_state c))
              (continuations s)))) (\<lambda>rows.
       bnd (collect_tx recover_continuation rows) (\<lambda>outcomes.
     ret \<lparr> rc_recovered = n + length (filter id replayed),
           rc_ready = length (filter fst outcomes),
           rc_cancelled = length (filter snd outcomes) \<rparr>))))" for legacy
      by (intro store.safe_bnd[OF collect_keep] store.safe_rules store_safe replay_safe replay_keeps)
  next
    fix s a u assume "fab_inv s" "reads (\<lambda>s. sort_key ri_created_at (filter (\<lambda>r. ri_state r = Intent_DELIVERED \<and>
            ri_acknowledged_at r = None \<and> ri_updated_at r \<le> clock - LEGACY_RESUME_REPLAY_AFTER_MS)
            (intents s))) s = Inr (a, u)"
    then show "\<forall>row\<in>set a. intent_known row u" by (simp add: tx_simps table_known)
  qed
  then show ?case by (intro store.safe_bnd[OF store.safe_now])
qed

end
