(* ===== verification/Fabric_Operations.thy ===== *)
theory Fabric_Operations
  imports Fabric_Waits Fabric_Batch Fabric_Outbox Fabric_Retention
begin

text \<open>
  Every public operation of \<open>MissionRepository\<close> refines the store steps. Most statements select
  exactly the rows they may change; the others rest on a row read earlier in the transaction,
  which the statements in between leave alone (\<open>keeps\<close>).
\<close>

section \<open>Rules for transactions\<close>

lemma keeps_host:
  assumes "\<And>s h. P (s\<lparr>fab_host := h\<rparr>) = P s"
  shows "keeps P now" and "keeps P (fresh p)"
  using assms by (auto simp: keeps_def now_run fresh_run)

lemma keeps_stmt:
  "(\<And>s. P s \<Longrightarrow> P (tab (update_where Q f) s)) \<Longrightarrow> keeps P (upd tab Q f)"
  "keeps P (ret x)" "keeps P (reads g)" "keeps P (require_row c g')" "keeps P (throw_if b c)"
  by (auto simp: keeps_def tx_simps)

lemma keeps_insert_attempt:
  "(\<And>s. P s \<Longrightarrow> P (attempts_update (\<lambda>rows. rows @ [r]) s)) \<Longrightarrow> keeps P (insert_attempt r)"
  by (auto simp: keeps_def insert_attempt_def insert_row_run)

lemma keeps_bnd: "keeps P m \<Longrightarrow> (\<And>a. keeps P (f a)) \<Longrightarrow> keeps P (bnd m f)"
  unfolding keeps_def bnd_run by blast

lemma keeps_thn: "keeps P m \<Longrightarrow> keeps P n \<Longrightarrow> keeps P (thn m n)"
  unfolding thn_def by (rule keeps_bnd)

lemma keeps_when: "keeps P m \<Longrightarrow> keeps P (when_tx c m)"
  by (simp add: when_tx_def keeps_stmt)

lemma safe_transition:
  "(g = Inr () \<Longrightarrow> store.safe_when P m) \<Longrightarrow> store.safe_when P (thn (illegal_transition_guard g) m)"
  by (cases g) (auto simp: illegal_transition_guard_def store.safe_when_def thn_run tx_simps)

lemma safe_known: "(b \<Longrightarrow> store.safe_when P m) \<Longrightarrow> (\<And>s. P s \<Longrightarrow> b) \<Longrightarrow> store.safe_when P m"
  by (auto simp: store.safe_when_def)

lemmas change_defs = mission_change_def task_change_def principal_change_def assignment_change_def
  attempt_change_def message_change_def outbox_change_def session_change_def delivery_change_def
  conversation_change_def request_change_def incident_change_def

section \<open>Messages and reports\<close>

lemma message_marks: "message_change r (r\<lparr>mg_read_at := coalesce (mg_read_at r) e\<rparr>)"
  "message_change r (r\<lparr>mg_delivered_at := coalesce (mg_delivered_at r) d\<rparr>)"
  unfolding message_change_def
  by (rule exI[of _ None], rule exI[of _ e], simp) (rule exI[of _ d], rule exI[of _ None], simp)

lemma marks_safe [store_safe]:
  "store.safe (markMessagesRead a ids)" "store.safe (markMessagesDelivered a ids)"
  "store.safe (markMessageDeliveryFailed a ids e)"
  unfolding markMessagesRead_def markMessagesDelivered_def markMessageDeliveryFailed_def
  by (intro store.safe_rules store_safe upd_messages upd_deliveries message_marks;
      simp add: delivery_change_def)+

lemma touch_conversation: "store.safe (upd conversations_update P (\<lambda>c. c\<lparr>cv_updated_at := t\<rparr>))"
  by (rule upd_conversations) (auto simp: conversation_change_def)

lemma insertMessage_safe [store_safe]: "store.safe (insertMessage input r)"
  unfolding insertMessage_def by (intro store.safe_rules store_safe touch_conversation)

lemma createMessage_safe [store_safe]: "store.safe (createMessage input)"
  unfolding createMessage_def by (intro store.safe_rules store_safe)

section \<open>Incidents and artifacts\<close>

lemma incident_guard_safe [store_safe]: "store.safe (incident_guard input)"
  unfolding incident_guard_def by (intro store.safe_rules store_safe)

lemma recordIncident_safe [store_safe]: "store.safe (recordIncident input)"
proof -
  have "store.safe_when (\<lambda>s. opt_key_of rq_id (requests s) (coalesce (ii_request input) (ic_request e)))
      (upd incidents_update (\<lambda>n. ic_id n = ic_id e) (update_incident input e t))" for e t
    by (rule upd_incidents) (auto simp: incident_change_def update_incident_def Let_def)
  then have "store.safe (bnd (reads (\<lambda>s. opt_key_of rq_id (requests s) (coalesce (ii_request input) (ic_request e))))
      (\<lambda>refs. if \<not> refs then throw (Sql_foreign_key ''orchestration_incidents'')
         else thn (upd incidents_update (\<lambda>n. ic_id n = ic_id e) (update_incident input e t))
              (requireIncident (ic_id e))))" for e t
    by (intro store.safe_bnd_reads store.safe_if store.safe_throw store.safe_thn store_safe)
      (auto intro: store.strengthen)
  note update = this
  show ?thesis
    unfolding recordIncident_def Let_def
  proof (rule store.safe_thn[OF incident_guard_safe], rule store.safe_bnd[OF store.safe_reads],
      rule store.safe_bnd[OF store.safe_now], rule store.safe_case_option, goal_cases)
    case (1 existing t)
    show ?case by (intro store.safe_rules store_safe)
  next
    case (2 existing t e)
    show ?case by (rule update)
  qed
qed

lemma artifacts_safe [store_safe]:
  "store.safe (insert_artifact_for m a e t x)" "store.safe (recordArtifacts m a e xs)"
proof -
  show art: "store.safe (insert_artifact_for m a e t x)" for m a e t x
    unfolding insert_artifact_for_def Let_def by (intro store.safe_rules store_safe)
  show "store.safe (recordArtifacts m a e xs)"
    unfolding recordArtifacts_def by (intro store.safe_rules store_safe art)
qed

section \<open>Action Requests and sessions\<close>

lemma request_helpers_safe [store_safe]:
  "store.safe (request_guard input)" "store.safe (reuse_request r)"
  unfolding request_guard_def request_party_def reuse_request_def by (intro store.safe_rules store_safe)+

lemma open_request_safe:
  "rq_status r = Req_OPEN \<Longrightarrow> store.safe (insert_request r)"
  by (rule insert_request_safe)

lemma link_request_safe: "store.safe (upd requests_update P (\<lambda>r. r\<lparr>rq_opening_message := m\<rparr>))"
  unfolding request_change_def by (rule upd_requests[unfolded request_change_def], rule disjI1, rule exI, rule refl)

lemma createActionRequest_safe [store_safe]: "store.safe (createActionRequest input)"
  unfolding createActionRequest_def
  by (intro store.safe_rules store_safe open_request_safe link_request_safe)
    (simp only: request_row.select_convs)

lemma close_incidents_safe:
  "store.safe (upd incidents_update P (\<lambda>n. n\<lparr>ic_state := st, ic_resolved_at := d, ic_updated_at := t\<rparr>))"
  by (rule upd_incidents) (auto simp: incident_change_def)

lemma record_resolution_safe:
  "store.safe_when (\<lambda>s. getActionRequest (rq_id r) s = Some r \<and> rq_status r = Req_OPEN)
     (record_resolution input r)" (is "store.safe_when ?P _")
  unfolding record_resolution_def
proof (intro store.safe_bnd_keep[OF store.safe_now] store.safe_bnd_keep[OF store.safe_fresh]
    store.safe_thn_keep[OF store.weaken[OF insert_safe(9)]] store.safe_thn, goal_cases)
  case (3 t i)
  show ?case by (auto simp: keeps_def insert_resolution_def insert_row_run getActionRequest_def)
next
  case (4 t i)
  have "store.safe_when ?P (upd requests_update (\<lambda>q. rq_id q = rq_id r)
      (\<lambda>q. q\<lparr>rq_status := Req_RESOLVED, rq_resolved_at := Some t, rq_updated_at := t\<rparr>))"
    by (rule upd_requests) (auto simp: request_change_def dest: the_row(4))
  then show ?case .
next
  case (5 t i)
  show ?case by (intro store.safe_rules store_safe close_incidents_safe)
qed (rule keeps_host; simp add: getActionRequest_def)+

lemma resolveActionRequest_safe [store_safe]: "store.safe (resolveActionRequest input)"
  unfolding resolveActionRequest_def requireActionRequest_def
proof (intro store.safe_bnd_require store.safe_thn_guard store.safe_bnd_reads store.safe_case_option, goal_cases)
  case (1 r existing)
  have "rq_id r = vi_request input" if "getActionRequest (vi_request input) s = Some r" for s
    using that unfolding getActionRequest_def by (rule find_same_key)
  with 1 show ?case by (intro store.strengthen[OF record_resolution_safe]) auto
next
  case (2 r existing z)
  show ?case by (rule store.weaken) (intro store.safe_rules store_safe)
qed

lemma runtime_sessions_safe [store_safe]:
  "store.safe (updateRuntimeSessionState a st)" "store.safe (appendRuntimeEvent q a k p)"
  unfolding updateRuntimeSessionState_def appendRuntimeEvent_def Let_def
  by (intro store.safe_rules store_safe; simp add: session_change_def)+

lemma upsertRuntimeSession_safe [store_safe]:
  "store.safe (upsertRuntimeSession i a pr tr ex pk st cwd cap)"
proof -
  have new: "store.safe_when (\<lambda>s. getRuntimeSessionForAttempt (rs_attempt r) s = None)
      (insert_row ''orchestration_runtime_sessions'' runtime_sessions runtime_sessions_update
         (new_key rs_id) runtime_session_refs r)" for r
  proof (rule store.safe_whenI)
    fix s x t
    assume "getRuntimeSessionForAttempt (rs_attempt r) s = None"
      and run: "insert_row ''orchestration_runtime_sessions'' runtime_sessions runtime_sessions_update
         (new_key rs_id) runtime_session_refs r s = Inr (x, t)"
    then have "new_key rs_attempt (runtime_sessions s) r"
      by (auto simp: getRuntimeSessionForAttempt_def find_None_iff new_key_def)
    with run show "store_run s t"
      by (auto simp: insert_row_run table_eqs intro!: run_step step_session_new)
  qed
  show ?thesis
    unfolding upsertRuntimeSession_def Let_def
    by (intro store.safe_bnd[OF store.safe_now] store.safe_bnd_reads store.safe_thn store.safe_if
        store.safe_reads upd_sessions store.strengthen[OF new]) (auto simp: session_change_def)
qed

section \<open>Attempts\<close>

lemma mission_moves [simp]:
  "Mission_VERIFYING \<in> set (MISSION_TRANSITIONS Mission_RUNNING)"
  "Mission_BLOCKED \<in> set (MISSION_TRANSITIONS Mission_RUNNING)"
  "Mission_RUNNING \<in> set (MISSION_TRANSITIONS Mission_BLOCKED)"
  "Mission_RUNNING \<in> set (MISSION_TRANSITIONS Mission_VERIFYING)"
  by simp_all

text \<open>Updates of the work tables that keep what is immutable.\<close>

lemma plain_assignments:
  assumes "\<And>r. (as_id (f r), as_mission (f r), as_task (f r), as_supervisor (f r), as_assignee (f r), as_created_at (f r)) =
      (as_id r, as_mission r, as_task r, as_supervisor r, as_assignee r, as_created_at r)"
  shows "store.safe_when P (upd assignments_update Q f)"
  using assms by (intro upd_assignments) (simp add: assignment_change_def)

lemma plain_tasks:
  assumes "\<And>r. (tk_id (f r), tk_mission (f r), tk_parent (f r), tk_created_by (f r), tk_title (f r),
      tk_work_mode (f r), tk_write_scope (f r), tk_created_at (f r), tk_version (f r)) =
      (tk_id r, tk_mission r, tk_parent r, tk_created_by r, tk_title r,
      tk_work_mode r, tk_write_scope r, tk_created_at r, tk_version r + 1)"
  shows "store.safe_when P (upd tasks_update Q f)"
  using assms by (intro upd_tasks) (simp add: task_change_def)

lemma plain_attempts:
  assumes "\<And>r. Q r \<Longrightarrow> \<not> isTerminalAttemptState (at_state r)"
    and "\<And>r. Q r \<Longrightarrow> (at_id (f r), at_assignment (f r), at_ordinal (f r), at_runtime (f r), at_model (f r)) =
      (at_id r, at_assignment r, at_ordinal r, at_runtime r, at_model r)"
    and "\<And>r. Q r \<Longrightarrow> at_state (f r) = at_state r \<or> at_state (f r) \<noteq> Attempt_PLANNED"
  shows "store.safe_when P (upd attempts_update Q f)"
  using assms by (intro upd_attempts) (auto simp: attempt_change_def)

text \<open>The row with the key is the row read before.\<close>

lemma read_attempts:
  assumes "\<not> isTerminalAttemptState (at_state e)"
    and "\<And>r. (at_id (f r), at_assignment (f r), at_ordinal (f r), at_runtime (f r), at_model (f r)) =
      (at_id r, at_assignment r, at_ordinal r, at_runtime r, at_model r)"
    and "\<And>r. at_state (f r) = at_state r \<or> at_state (f r) \<noteq> Attempt_PLANNED"
  shows "store.safe_when (\<lambda>s. getAttempt (at_id e) s = Some e) (upd attempts_update (\<lambda>r. at_id r = at_id e) f)"
  using assms by (intro upd_attempts) (auto simp: attempt_change_def dest: the_row(3))

lemma read_missions:
  assumes "\<And>s. P s \<Longrightarrow> getMission (ms_id m) s = Some m" and "mission_change m (f m)"
  shows "store.safe_when P (upd missions_update (\<lambda>r. ms_id r = ms_id m) f)"
  using assms by (intro upd_missions) (auto dest: the_row(1))

lemma recover_incidents_safe [store_safe]: "store.safe (recover_incidents a t)"
  unfolding recover_incidents_def by (intro upd_incidents) (auto simp: incident_change_def)

lemma starting_safe [store_safe]:
  "store.safe (markAttemptStarting e)" "store.safe (renewAttemptLease e l)"
  unfolding markAttemptStarting_def renewAttemptLease_def
  by (intro store.safe_rules store_safe plain_attempts; auto)+

lemma bindRuntime_safe [store_safe]: "store.safe (bindRuntime a e input)"
  unfolding bindRuntime_def
  by (intro store.safe_rules store_safe plain_attempts plain_assignments plain_tasks) auto

lemma pending_outbox_state: "ob_state (pending_outbox i m op a k p t) = Outbox_PENDING"
  by (simp add: pending_outbox_def)

lemma createRetry_safe [store_safe]: "store.safe (createRetry a rt)"
  unfolding createRetry_def Let_def
  by (intro store.safe_rules store_safe plain_assignments plain_tasks insert_outbox_safe
      pending_outbox_state; simp)

lemma reuse_revision_safe [store_safe]: "store.safe (reuse_revision a)"
  unfolding reuse_revision_def by (intro store.safe_rules store_safe)

lemma lead_unblock_safe:
  "store.safe (upd missions_update (\<lambda>m. ms_id m = i \<and> ms_state m = Mission_BLOCKED)
     (\<lambda>m. m\<lparr>ms_state := Mission_RUNNING, ms_completed_at := None, ms_updated_at := t,
            ms_version := ms_version m + 1\<rparr>))"
  by (rule upd_missions) (simp add: mission_change_def)

lemma rebind_safe [store_safe]: "store.safe (rebindActiveRuntime a input)"
  unfolding rebindActiveRuntime_def requireAttempt_def[of "the (as_active_attempt x)" for x]
proof (intro store.safe_bnd[of _ "requireAssignment a"] store_safe store.safe_thn_guard store.safe_bnd_require, goal_cases)
  case (1 r e)
  have key: "at_id e = the (as_active_attempt r)" if "getAttempt (the (as_active_attempt r)) s = Some e" for s
    using that unfolding getAttempt_def by (rule find_same_key)
  show ?case
  proof (rule store.strengthen[where Q = "\<lambda>s. getAttempt (at_id e) s = Some e"],
      rule store.safe_bnd_keep[OF store.safe_now keeps_host(1)], simp add: getAttempt_def,
      rule store.safe_thn[OF read_attempts], goal_cases)
    case (4 t)
    show ?case
      by (intro store.safe_rules store_safe plain_assignments plain_tasks lead_unblock_safe) auto
  qed (use 1 key in auto)
qed

lemma mission_frames:
  "keeps (\<lambda>s. getMission i s = Some m) now" "keeps (\<lambda>s. getMission i s = Some m) (fresh p)"
  "keeps (\<lambda>s. getMission i s = Some m) (insert_attempt e)"
  "keeps (\<lambda>s. getMission i s = Some m) (upd assignments_update Q f)"
  "keeps (\<lambda>s. getMission i s = Some m) (upd tasks_update Q' f')"
  "keeps (\<lambda>s. getMission i s = Some m) (cancelOwnedContinuations a b r)"
  "keeps (\<lambda>s. getMission i s = Some m) (attempt_if k)"
  by (rule keeps_host, simp add: getMission_def)+
    (rule keeps_insert_attempt, simp add: getMission_def,
     (rule keeps_stmt, simp add: getMission_def)+,
     rule keeps_work[OF work_cancelOwned], simp add: getMission_def same_work_def,
     rule keeps_work[OF work_lookups(11)], simp add: getMission_def same_work_def)

lemma start_revision_safe:
  assumes "ms_state m = Mission_VERIFYING"
  shows "store.safe_when (\<lambda>s. getMission (ms_id m) s = Some m) (start_revision input m a)"
  unfolding start_revision_def
  using assms
  by (intro store.safe_bnd_keep[OF store.weaken mission_frames(7)] store.safe_bnd_keep[OF store.weaken mission_frames(6)]
      store.safe_bnd_keep[OF store.safe_reads keeps_stmt(3)] store.safe_bnd_keep[OF store.safe_fresh mission_frames(2)]
      store.safe_bnd_keep[OF store.safe_now mission_frames(1)] store.safe_thn_keep[OF store.weaken mission_frames(3)]
      store.safe_thn_keep[OF plain_assignments mission_frames(4)] store.safe_thn_keep[OF plain_tasks mission_frames(5)]
      store.safe_thn[OF read_missions] store.safe_rules store_safe insert_outbox_safe pending_outbox_state)
    (simp_all add: mission_change_def)

lemma getMission_id: "getMission i s = Some m \<Longrightarrow> ms_id m = i"
  unfolding getMission_def by (rule find_same_key)

lemma getAttempt_id: "getAttempt i s = Some e \<Longrightarrow> at_id e = i"
  unfolding getAttempt_def by (rule find_same_key)

text \<open>The row that was read, by its own key.\<close>

lemma own_key:
  "store.safe_when (\<lambda>s. getMission (ms_id m) s = Some m) x \<Longrightarrow> store.safe_when (\<lambda>s. getMission i s = Some m) x"
  "store.safe_when (\<lambda>s. getAttempt (at_id e) s = Some e) x \<Longrightarrow> store.safe_when (\<lambda>s. getAttempt i s = Some e) x"
  by (auto simp: store.safe_when_def dest: getMission_id getAttempt_id)

lemma read_under: "store.safe_when Q x \<Longrightarrow> store.safe_when (\<lambda>s. P s \<and> Q s) x"
  by (simp add: store.safe_when_def)

lemma requestRevision_safe [store_safe]: "store.safe (requestRevision input)"
  unfolding requestRevision_def requireMission_def
proof (intro store.safe_bnd[OF store.safe_reads] store.safe_case_option store_safe store.safe_bnd_require
    store.safe_thn_guard, goal_cases)
  case (1 existing m)
  have keep: "keeps (\<lambda>s. getMission (vn_mission input) s = Some m) (requireAssignment (the (ms_lead m)))"
    by (rule keeps_work[OF work_lookups(4)]) (simp add: getMission_def same_work_def)
  show ?case
  proof (rule store.safe_bnd_keep[OF store.weaken])
    show "store.safe (requireAssignment (the (ms_lead m)))" by (rule store_safe)
    show "keeps (\<lambda>s. True \<and> getMission (vn_mission input) s = Some m) (requireAssignment (the (ms_lead m)))"
      using keep by simp
    have "ms_state m = Mission_VERIFYING" using 1 by simp
    note start = start_revision_safe[OF this]
    show "store.safe_when (\<lambda>s. True \<and> getMission (vn_mission input) s = Some m) (start_revision input m a)" for a
      by (rule read_under, rule own_key, rule start)
  qed
qed

lemma promote_safe [store_safe]:
  "store.safe (promote_candidate m t k)" "store.safe (promoteReadyTasks m c t)"
proof -
  show one: "store.safe (promote_candidate m t k)" for m t k
    unfolding promote_candidate_def
    by (intro store.safe_rules store_safe plain_tasks upd_outbox) (simp_all add: outbox_change_def)
  show "store.safe (promoteReadyTasks m c t)"
    unfolding promoteReadyTasks_def by (intro store.safe_rules one)
qed

lemma verify_safe:
  "store.safe (upd missions_update (\<lambda>m. ms_id m = i \<and> ms_state m = Mission_RUNNING)
     (\<lambda>m. m\<lparr>ms_state := Mission_VERIFYING, ms_version := ms_version m + 1, ms_updated_at := t\<rparr>))"
  by (rule upd_missions) (simp add: mission_change_def)

lemma reconcileMissionState_safe [store_safe]: "store.safe (reconcileMissionState m t)"
  unfolding reconcileMissionState_def by (intro store.safe_rules store_safe verify_safe)

lemma lifecycle_report_safe:
  assumes "\<And>e a m. lifecycleAuthority a e pr = None \<Longrightarrow>
      store.safe_when (\<lambda>s. getAttempt (at_id e) s = Some e) (acc e a m)"
  shows "store.safe (lifecycle_report i pr msg acc)"
  unfolding lifecycle_report_def requireAttempt_def Let_def
proof (rule store.safe_bnd_require, goal_cases)
  case (1 e)
  let ?P = "\<lambda>s. True \<and> getAttempt i s = Some e"
  have keep: "keeps ?P (requireAssignment j)" "keeps ?P (insertMessage x r)" for j x r
    by (rule keeps_work[OF work_lookups(4)] keeps_work[OF work_insertMessage],
        simp add: getAttempt_def same_work_def)+
  have "store.safe_when ?P (acc e a m)" if "lifecycleAuthority a e pr = None" for a m
    by (rule read_under, rule own_key, rule assms[OF that])
  then show ?case
    by (intro store.safe_bnd_keep[OF store.weaken keep(1)] store.safe_bnd_keep[OF store.weaken keep(2)]
        lookup_safe insertMessage_safe store.safe_case_option store.safe_ret)
qed

lemma authority_live: "lifecycleAuthority a e p = None \<Longrightarrow> \<not> isTerminalAttemptState (at_state e)"
  by (auto simp: lifecycleAuthority_def split: if_splits)

lemma touch_principals:
  "store.safe (upd principals_update P (\<lambda>p. p\<lparr>pr_state := x, pr_last_seen_at := y\<rparr>))"
  by (rule upd_principals) (simp add: principal_change_def)

lemma accept_alive_safe: "store.safe (accept_alive p l e a m)"
  unfolding accept_alive_def
  by (intro store.safe_rules store_safe plain_attempts touch_principals) auto

lemma alive_reports_safe [store_safe]:
  "store.safe (recordProgress input)" "store.safe (recordHeartbeat e p l)"
  unfolding recordProgress_def recordHeartbeat_def
  by (rule lifecycle_report_safe, rule store.weaken, rule accept_alive_safe)+

lemma write_completion_safe:
  assumes "\<not> isTerminalAttemptState (at_state e)"
  shows "store.safe_when (\<lambda>s. getAttempt (at_id e) s = Some e) (write_completion input e a t)"
  unfolding write_completion_def Let_def
  using assms
  by (intro store.safe_thn[OF read_attempts] store.safe_rules store_safe plain_assignments plain_tasks) simp_all

lemma close_recovered_safe:
  "store.safe (upd incidents_update P (\<lambda>n. n\<lparr>ic_state := x, ic_resolved_at := y, ic_updated_at := z\<rparr>))"
  by (rule upd_incidents) (simp add: incident_change_def)

lemma settle_completion_safe [store_safe]: "store.safe (settle_completion input e a t)"
  unfolding settle_completion_def by (intro store.safe_rules store_safe close_recovered_safe)

lemma completeAttempt_safe [store_safe]: "store.safe (completeAttempt input)"
  unfolding completeAttempt_def
proof (rule lifecycle_report_safe)
  fix e a m assume "lifecycleAuthority a e (ci_principal input) = None"
  then have live: "\<not> isTerminalAttemptState (at_state e)" by (rule authority_live)
  show "store.safe_when (\<lambda>s. getAttempt (at_id e) s = Some e) (accept_completion input e a m)"
    unfolding accept_completion_def
  proof (rule store.safe_bnd_keep[OF store.safe_now keeps_host(1)], simp add: getAttempt_def,
      rule store.safe_thn[OF write_completion_safe[OF live]])
  qed (intro store.safe_rules store_safe)
qed

lemma write_failure_safe:
  assumes "\<not> isTerminalAttemptState (at_state e)"
  shows "store.safe_when (\<lambda>s. getAttempt (at_id e) s = Some e) (write_runtime_failure c f e a t)"
  unfolding write_runtime_failure_def
  using assms
  by (intro store.safe_thn[OF read_attempts] store.safe_rules store_safe plain_assignments plain_tasks) simp_all

lemma failAttempt_safe [store_safe]: "store.safe (failAttemptFromRuntime i c f)"
  unfolding failAttemptFromRuntime_def requireAttempt_def
proof (intro store.safe_bnd_require, goal_cases)
  case (1 e)
  let ?P = "\<lambda>s. True \<and> getAttempt i s = Some e"
  have keep: "keeps ?P (requireAssignment j)" for j
    by (rule keeps_work[OF work_lookups(4)]) (simp add: getAttempt_def same_work_def)
  show ?case
  proof (rule store.safe_bnd_keep[OF store.weaken keep], rule store_safe, rule store.safe_if, rule store.safe_ret,
      rule store.safe_bnd_keep[OF store.safe_now keeps_host(1)], simp add: getAttempt_def, rule store.safe_thn, goal_cases)
    case (1 a t)
    then have "\<not> isTerminalAttemptState (at_state e)" by auto
    show ?case by (rule read_under, rule own_key, rule write_failure_safe) fact
  next
    case (2 a t)
    show ?case by (intro store.safe_rules store_safe)
  qed
qed

lemma orphan_safe [store_safe]: "store.safe (orphanAttemptFromRuntime i c f)"
proof -
  have block: "store.safe_when (\<lambda>s. True \<and> getMission i s = Some m)
      (when_tx (ms_lead m = a \<and> ms_state m = Mission_RUNNING)
        (upd missions_update (\<lambda>r. ms_id r = ms_id m)
           (\<lambda>m. m\<lparr>ms_state := Mission_BLOCKED, ms_updated_at := t, ms_version := ms_version m + 1\<rparr>)))" for i m a t
    by (intro store.safe_when_tx read_missions) (auto simp: mission_change_def dest: getMission_id)
  show ?thesis
    unfolding orphanAttemptFromRuntime_def requireMission_def
    by (intro store.safe_bnd_require store.safe_thn[OF block] store.safe_rules store_safe plain_attempts plain_assignments) auto
qed

end
