(* ===== verification/Fabric_Control.thy ===== *)
theory Fabric_Control
  imports Fabric_Operations
begin

text \<open>
  The remaining public operations refine the store steps: the control of Assignments and
  Missions, creation and delegation, durable waits, the outbox and retention.
\<close>

section \<open>Rows that are known to be there\<close>

lemma safe_thn_post:
  assumes "store.safe_when P m" and "\<And>s t. P s \<Longrightarrow> m s = Inr ((), t) \<Longrightarrow> Q t" and "store.safe_when Q n"
  shows "store.safe_when P (thn m n)"
  unfolding thn_def by (rule store.safe_bnd_post[where Q = "\<lambda>_. Q", OF assms(1,3)]) (use assms(2) in simp)

lemma keeps_insert:
  "(\<And>s. P s \<Longrightarrow> P (tab (\<lambda>rows. rows @ [r]) s)) \<Longrightarrow> keeps P (insert_row name sel tab u q r)"
  "(\<And>s. P s \<Longrightarrow> P (tab (\<lambda>rows. rows @ [r]) s)) \<Longrightarrow> keeps P (insert_or_ignore name sel tab u q r)"
  by (auto simp: keeps_def insert_row_run insert_or_ignore_run split: if_splits)

lemma keeps_conj: "keeps P m \<Longrightarrow> keeps Q m \<Longrightarrow> keeps (\<lambda>s. P s \<and> Q s) m"
  by (auto simp: keeps_def)

lemma require_assignment_key:
  "requireAssignment i s = Inr (a, t) \<Longrightarrow> t = s \<and> is_assignment t (as_id a)"
  by (auto simp: requireAssignment_def tx_simps getAssignment_def key_of_def dest: find_key_SomeD)

lemma getAttempt_own: "getAttempt i s = Some e \<Longrightarrow> getAttempt (at_id e) s = Some e"
  using getAttempt_id[of i s e] by simp

lemma attempt_if_row:
  "attempt_if i s = Inr (x, t) \<Longrightarrow> t = s \<and> (\<forall>e. x = Some e \<longrightarrow> getAttempt (at_id e) s = Some e)"
  by (auto simp: attempt_if_def requireAttempt_def tx_simps bnd_run intro: getAttempt_own
      split: option.splits if_splits)

section \<open>Assignments\<close>

lemma pauseAssignment_safe [store_safe]: "store.safe (pauseAssignment i p actor)"
  unfolding pauseAssignment_def assignment_guard_def Let_def
  by (intro store.safe_rules store_safe plain_assignments) simp_all

lemma cancelMission_safe [store_safe]: "store.safe (cancelMissionWhenAssignmentsExhausted i actor r t)"
proof -
  have upd: "store.safe_when (\<lambda>s. True \<and> getMission i s = Some m)
      (upd missions_update (\<lambda>q. ms_id q = i) (\<lambda>q. q\<lparr>ms_state := Mission_CANCELLED,
         ms_version := ms_version q + 1, ms_updated_at := t, ms_completed_at := Some t\<rparr>))"
    if "assertMissionTransition (ms_state m) Mission_CANCELLED = Inr ()" for m
    using that by (intro upd_missions) (auto simp: mission_change_def assertMissionTransition_def
        dest: the_row(1) split: if_splits)
  show ?thesis
    unfolding cancelMissionWhenAssignmentsExhausted_def requireMission_def
    by (rule store.safe_bnd_require, rule store.safe_if, rule store.safe_ret,
        rule store.safe_bnd_keep[OF store.safe_reads keeps_stmt(3)],
        rule store.safe_bnd_keep[OF store.safe_reads keeps_stmt(3)], rule store.safe_if, rule store.safe_ret,
        rule safe_transition, rule store.safe_thn, erule upd)
      (intro store.safe_rules store_safe)
qed

lemma cancel_attempt_safe [store_safe]: "store.safe (cancel_active_attempt a r t)"
  unfolding cancel_active_attempt_def Let_def
  by (intro store.safe_rules store_safe plain_attempts insert_outbox_safe pending_outbox_state) simp_all

lemma cancelAssignment_safe [store_safe]: "store.safe (cancelAssignment i actor r)"
  unfolding cancelAssignment_def assignment_guard_def
  by (intro store.safe_rules store_safe plain_assignments plain_tasks) simp_all

lemma snapshot_safe [store_safe]: "store.safe (snapshot i)" "store.safe (listInbox j q)"
  unfolding snapshot_def snapshot_with_def listInbox_def by (intro store.safe_rules store_safe)+

lemma promote_mission_safe:
  "store.safe (upd missions_update P (\<lambda>m. m\<lparr>ms_lead := l,
     ms_state := (if ms_state m = Mission_BLOCKED then Mission_RUNNING else ms_state m),
     ms_version := ms_version m + 1, ms_updated_at := t\<rparr>))"
  by (rule upd_missions) (simp add: mission_change_def)

lemma supervise_safe:
  "store.safe_when (\<lambda>s. is_assignment s j)
     (upd assignments_update P (\<lambda>r. r\<lparr>as_supervisor := Some j, as_updated_at := t\<rparr>))"
  "store.safe (upd assignments_update P (\<lambda>r. r\<lparr>as_supervisor := None, as_updated_at := t\<rparr>))"
  by (rule upd_assignments, simp add: assignment_change_def opt_key_of_def key_of_def)+

lemma promoteLead_safe [store_safe]: "store.safe (promoteLead m a actor r)"
  unfolding promoteLead_def
proof (rule store.safe_bnd, rule store_safe,
    rule store.safe_bnd_post[where Q = "\<lambda>a s. is_assignment s (as_id a)"], rule store_safe, goal_cases)
  case (1 mission lead)
  let ?P = "\<lambda>s. is_assignment s (as_id lead)"
  have keep: "keeps ?P (assignment_if j)" for j
    by (rule keeps_work[OF work_lookups(12)]) (simp add: same_work_def)
  have upd: "keeps ?P (upd assignments_update Q (\<lambda>r. r\<lparr>as_supervisor := None, as_updated_at := t\<rparr>))" for Q t
    by (rule keeps_stmt) (simp add: key_of_update_where)
  have rest: "store.safe (thn (upd missions_update (\<lambda>q. ms_id q = ms_id mission)
       (\<lambda>q. q\<lparr>ms_lead := Some (as_id lead),
              ms_state := (if ms_state q = Mission_BLOCKED then Mission_RUNNING else ms_state q),
              ms_version := ms_version q + 1, ms_updated_at := t\<rparr>))
     (thn (appendEvent (ms_id mission) ty actor x y p) (snapshot (ms_id mission))))" for t ty x y p
    by (intro store.safe_rules store_safe promote_mission_safe)
  show ?case
  proof (intro store.safe_thn_guard store.safe_if, rule store.weaken, rule store_safe,
      rule store.safe_bnd_keep[OF store.weaken keep], rule store_safe,
      rule store.safe_bnd_keep[OF store.safe_now keeps_host(1)], simp,
      rule store.safe_thn_keep[OF store.weaken[OF supervise_safe(2)] upd], rule store.safe_thn[OF _ rest], goal_cases)
    case (1 previous t)
    show ?case by (intro store.safe_case_option store.safe_ret store.safe_when_tx supervise_safe(1))
  qed
qed (use require_assignment_key in blast)

section \<open>Reassignment\<close>

lemma upsertPrincipal_key:
  "upsertPrincipal p s = Inr ((), t) \<Longrightarrow> is_principal t (pr_id p) \<and> attempts t = attempts s"
  by (auto simp: upsertPrincipal_def Let_def tx_simps getPrincipal_def key_of_def update_where_def
      image_Un image_image dest!: find_key_SomeD split: option.splits if_splits)

lemma retire_attempt_safe:
  "store.safe_when (\<lambda>s. \<forall>e. active = Some e \<longrightarrow> getAttempt (at_id e) s = Some e) (retire_attempt a active r t)"
  (is "store.safe_when ?P _")
proof -
  have stale: "store.safe_when (\<lambda>s. \<forall>x. Some e = Some x \<longrightarrow> getAttempt (at_id x) s = Some x)
      (upd attempts_update (\<lambda>r. at_id r = at_id e) (\<lambda>r. r\<lparr>at_state := Attempt_STALE, at_ended_at := d,
         at_failure_code := c, at_failure := f\<rparr>))"
    if "\<not> isTerminalAttemptState (at_state e)" for e d c f
    using store.strengthen[OF read_attempts[OF that], where P = "\<lambda>s. \<forall>x. Some e = Some x \<longrightarrow> getAttempt (at_id x) s = Some x"]
    by simp
  show ?thesis
    unfolding retire_attempt_def
    by (intro store.safe_case_option store.safe_ret store.safe_when_tx; hypsubst)
      (intro store.safe_thn stale store.safe_rules insert_outbox_safe pending_outbox_state; assumption)
qed

lemma retire_attempt_keeps: "keeps (\<lambda>s. is_principal s p) (retire_attempt a active r t)"
proof (cases active)
  case None
  then show ?thesis by (simp add: retire_attempt_def keeps_stmt)
next
  case (Some e)
  show ?thesis
    unfolding retire_attempt_def insert_outbox_or_ignore_def Some option.case
    by (intro keeps_thn keeps_bnd keeps_when keeps_stmt keeps_insert keeps_host) simp_all
qed

lemma reassign_row_safe:
  "store.safe_when (\<lambda>s. is_principal s p) (upd assignments_update Q
     (\<lambda>r. r\<lparr>as_assignee := p, as_active_attempt := x, as_state := y, as_completed_at := z, as_updated_at := t\<rparr>))"
  by (rule upd_assignments) (simp add: assignment_change_def)

lemma reopen_task_safe [store_safe]: "store.safe (reopen_task i t)"
  unfolding reopen_task_def by (intro store.safe_rules plain_tasks) simp_all

lemma reassign_safe [store_safe]: "store.safe (reassign input)"
  unfolding reassign_def
proof (rule store.safe_bnd, rule store_safe, rule store.safe_thn_guard,
    rule store.safe_bnd_post[where Q = "\<lambda>active s. \<forall>e. active = Some e \<longrightarrow> getAttempt (at_id e) s = Some e"],
    rule store_safe, goal_cases)
  case (1 a active)
  let ?P = "\<lambda>s. \<forall>e. active = Some e \<longrightarrow> getAttempt (at_id e) s = Some e"
  have owned: "keeps ?P (cancelOwnedContinuations x y z)" for x y z
    by (rule keeps_work[OF work_cancelOwned]) (simp add: getAttempt_def same_work_def)
  have host: "keeps ?P now" "keeps ?P (fresh q)" for q
    by (rule keeps_host; simp add: getAttempt_def)+
  have free: "store.safe_when ?P (case ai_principalId (ri'_assignee input) of Some p \<Rightarrow> ret p | None \<Rightarrow> fresh q)"
    "keeps ?P (case ai_principalId (ri'_assignee input) of Some p \<Rightarrow> ret p | None \<Rightarrow> fresh q)" for q
    using host(2) by (auto intro: store.safe_ret store.safe_fresh simp: keeps_stmt split: option.split)
  show ?case
  proof (rule store.safe_bnd_keep[OF store.weaken owned], rule store_safe,
      rule store.safe_bnd_keep[OF store.safe_now host(1)], rule store.safe_bnd_keep[OF free], goal_cases)
    case (1 x t p)
    show ?case
    proof (rule safe_thn_post[where Q = "\<lambda>s. ?P s \<and> is_principal s p"], rule store.weaken, rule store_safe, goal_cases)
      case (1 s s')
      then show ?case using upsertPrincipal_key[OF 1(2)] by (simp add: getAttempt_def)
    next
      case 2
      show ?case
      proof (rule safe_thn_post[where Q = "\<lambda>s. is_principal s p"], rule store.strengthen[OF retire_attempt_safe], simp, goal_cases)
        case (1 s s')
        then show ?case using keepsD[OF retire_attempt_keeps] by blast
      next
        case 2
        show ?case
          unfolding insert_attempt_def
          by (rule store.safe_bnd_keep[OF store.safe_reads keeps_stmt(3)],
              rule store.safe_bnd_keep[OF store.safe_fresh keeps_host(2)], simp,
              rule store.safe_thn_keep[OF store.weaken[OF insert_safe(3)[unfolded insert_attempt_def]] keeps_insert(1)], simp,
              rule store.safe_thn[OF reassign_row_safe])
            (intro store.safe_rules store_safe insert_outbox_safe pending_outbox_state)
      qed
    qed
  qed
qed (use attempt_if_row in blast)

section \<open>Mission states\<close>

lemma setMissionState_safe [store_safe]: "store.safe (setMissionState i st actor r)"
proof -
  have upd: "store.safe_when (\<lambda>s. True \<and> getMission i s = Some m)
      (upd missions_update (\<lambda>q. ms_id q = i) (\<lambda>q. q\<lparr>ms_state := st,
         ms_version := ms_version q + 1, ms_updated_at := t, ms_completed_at := d\<rparr>))"
    if "assertMissionTransition (ms_state m) st = Inr ()" for m t d
    using that by (intro upd_missions) (auto simp: mission_change_def assertMissionTransition_def
        dest: the_row(1) split: if_splits)
  show ?thesis
    unfolding setMissionState_def requireMission_def[of i]
    by (rule store.safe_bnd_require, rule store.safe_if, rule store.safe_ret, rule safe_transition,
        rule store.safe_bnd_keep[OF store.safe_now keeps_host(1)], simp add: getMission_def,
        rule store.safe_thn, erule upd)
      (intro store.safe_rules store_safe)
qed

lemma reconcileMissions_safe [store_safe]: "store.safe reconcileMissionsWithoutActiveAssignments"
  unfolding reconcileMissionsWithoutActiveAssignments_def
  by (intro store.safe_rules store_safe)

section \<open>Creation\<close>

lemma createMission_safe [store_safe]: "store.safe (createMission input)"
  unfolding createMission_def Let_def
  by (intro store.safe_rules store_safe insert_mission_safe) simp_all

section \<open>Delegation\<close>

text \<open>The dependencies inserted by a delegation all start from the task it inserted last.\<close>

abbreviation newest_task :: "string \<Rightarrow> fab \<Rightarrow> bool" where
  "newest_task i s \<equiv> tasks s \<noteq> [] \<and> tk_id (last (tasks s)) = i"

lemma safe_each_keep:
  assumes "\<And>x. x \<in> set xs \<Longrightarrow> store.safe_when P (f x)" and "\<And>x. keeps P (f x)"
  shows "store.safe_when P (each_tx f xs)"
  using assms(1) by (induction xs) (auto intro: store.safe_ret store.safe_thn_keep assms(2))

lemma dependency_safe:
  "store.safe_when (newest_task i) (insert_dependency \<lparr>dp_task = i, dp_on = d, dp_created_at = t\<rparr>)"
  by (auto simp: store.safe_when_def insert_dependency_def insert_row_run table_eqs
      intro!: run_step step_dependency)

lemma insert_delegation_safe [store_safe]:
  "store.safe (insert_delegation input mission supervisor deps ready t taskId assignmentId attemptId principalId)"
  unfolding insert_delegation_def
proof (rule store.safe_thn, rule store_safe, rule safe_thn_post[where Q = "newest_task taskId"], rule store_safe, goal_cases)
  case (1 s s')
  then show ?case by (auto simp: insert_task_def insert_row_run new_task_def)
next
  case 2
  show ?case
    by (rule store.safe_thn, rule safe_each_keep[OF dependency_safe], unfold insert_dependency_def,
        rule keeps_insert, simp)
      (intro store.safe_rules store_safe insert_outbox_safe pending_outbox_state)
qed

lemma delegation_parts_safe [store_safe]:
  "store.safe (assertCapacity m)" "store.safe (delegateResult i b)" "store.safe (dependency_guard g)"
  "store.safe (delegation_guard input)" "store.safe (warn_overlap input m a x y)"
proof -
  show cap: "store.safe (assertCapacity m)" for m
    unfolding assertCapacity_def by (intro store.safe_rules)
  show "store.safe (delegateResult i b)"
    unfolding delegateResult_def by (intro store.safe_rules store_safe)
  show "store.safe (dependency_guard g)"
    unfolding dependency_guard_def by (auto intro: store.safe_ret store.safe_failure split: sum.split dependency_error.split)
  show "store.safe (delegation_guard input)"
    unfolding delegation_guard_def by (intro store.safe_rules store_safe cap)
  show "store.safe (warn_overlap input m a x y)"
    unfolding warn_overlap_def Let_def by (intro store.safe_rules store_safe)
qed

lemma delegateOne_safe [store_safe]: "store.safe (delegateOne input)"
  unfolding delegateOne_def Let_def by (intro store.safe_rules store_safe)

lemma delegate_safe [store_safe]: "store.safe (delegate input)"
  unfolding delegate_def by (rule store_safe)

lemma delegate_ordered_safe [store_safe]: "store.safe (delegate_ordered inputs ns results)"
proof (induction ns arbitrary: results)
  case Nil
  show ?case unfolding delegate_ordered.simps by (rule store.safe_ret)
next
  case (Cons n ns)
  show ?case unfolding delegate_ordered.simps Let_def by (intro store.safe_rules store_safe Cons.IH)
qed

lemma delegateMany_safe [store_safe]: "store.safe (delegateMany inputs)"
proof (cases "batch_order inputs")
  case (Inl k)
  then show ?thesis unfolding delegateMany_def Inl sum.case by (intro store.safe_rules)
next
  case (Inr order)
  then show ?thesis unfolding delegateMany_def Inr sum.case by (intro store.safe_rules store_safe)
qed

section \<open>Durable waits\<close>

lemma arm_safe [store_safe]:
  "store.safe (condition_guard m c)" "store.safe (arm_guard input)" "store.safe (arm_new input)"
  "store.safe (armContinuation input)"
proof -
  show cond: "store.safe (condition_guard m c)" for m c
    unfolding condition_guard_def by (cases c) (auto intro: store.safe_when_tx lookup_safe)
  show guard: "store.safe (arm_guard input)"
    unfolding arm_guard_def by (intro store.safe_rules store_safe cond)
  show new: "store.safe (arm_new input)"
    unfolding arm_new_def Let_def
    by (intro store.safe_rules store_safe guard insert_continuation_safe) simp
  show "store.safe (armContinuation input)"
    unfolding armContinuation_def by (intro store.safe_rules store_safe new)
qed

lemma consumeContinuation_safe [store_safe]: "store.safe (consumeContinuation i a e)"
  unfolding consumeContinuation_def Let_def by (intro store.safe_rules store_safe)

lemma due_safe [store_safe]: "store.safe (listPendingResumeIntents n)" "store.safe (listPendingOutbox n)"
  unfolding listPendingResumeIntents_def listPendingOutbox_def by (intro store.safe_rules)+

section \<open>The outbox\<close>

lemma outbox_safe [store_safe]:
  "store.safe (markOutboxProcessing i)" "store.safe (completeOutbox i)"
  "store.safe (retryOutbox i e d)" "store.safe (failOutbox i e)" "store.safe recoverInterruptedOutbox"
  unfolding markOutboxProcessing_def completeOutbox_def retryOutbox_def failOutbox_def
    recoverInterruptedOutbox_def
  by (intro store.safe_rules upd_outbox upd_outbox_count; simp add: outbox_change_def)+

section \<open>Retention\<close>

lemma delete_missions_cong:
  assumes "\<And>m. m \<in> set (missions s) \<Longrightarrow> P m = Q m"
  shows "delete_missions P s = delete_missions Q s"
proof -
  have "filter P (missions s) = filter Q (missions s)" using assms by (rule filter_cong[OF refl])
  then have "deletion_of P s = deletion_of Q s" unfolding deletion_of_def gone_def by (simp only:)
  then show ?thesis unfolding delete_missions_def by (simp only:)
qed

lemma move_purge: "store_step s t \<Longrightarrow> store_move True s t"
proof (induction rule: store_move.induct)
  case (step_delete P)
  then show ?case by simp
qed (rule store_move.intros; assumption)+

lemma run_moves: "store_run s t \<Longrightarrow> (store_move True)\<^sup>*\<^sup>* s t"
  by (induction rule: rtranclp_induct) (auto dest: move_purge)

text \<open>The operations that delete are related by the steps with deletion.\<close>

interpretation moves: tx_relation "(store_move True)\<^sup>*\<^sup>*" fab_inv
proof
  show "(store_move True)\<^sup>*\<^sup>* s s" for s by simp
  show "(store_move True)\<^sup>*\<^sup>* s u" if "(store_move True)\<^sup>*\<^sup>* s t" "(store_move True)\<^sup>*\<^sup>* t u" for s t u
    using that by simp
  show "fab_inv t" if "fab_inv s" "(store_move True)\<^sup>*\<^sup>* s t" for s t using that fab_inv_run by blast
  show "(store_move True)\<^sup>*\<^sup>* s (s\<lparr>fab_host := h\<rparr>)" if "host_tick (fab_host s) h" for s h
    using step_host[OF that] by blast
qed

lemma safe_moves: "store.safe m \<Longrightarrow> moves.safe m"
  by (auto simp: store.safe_when_def moves.safe_when_def run_moves)

lemma delete_missions_step:
  assumes "\<And>m. m \<in> set (missions s) \<Longrightarrow> P m \<Longrightarrow> ms_deleted_at m \<noteq> None"
  shows "store_move True s (delete_missions P s)"
proof -
  have "delete_missions P s = delete_missions (\<lambda>m. P m \<and> ms_deleted_at m \<noteq> None) s"
    using assms by (intro delete_missions_cong) blast
  then show ?thesis using step_delete[of True "\<lambda>m. P m \<and> ms_deleted_at m \<noteq> None"] by simp
qed

lemma purge_moves: "moves.safe (purgeExpiredTrashedMissions d)"
proof -
  have "moves.safe (change (delete_missions (expired_trash c)))" for c
    by (rule moves.safe_whenI)
      (auto simp: tx_simps expired_trash_def intro!: r_into_rtranclp delete_missions_step split: option.splits)
  then show ?thesis
    unfolding purgeExpiredTrashedMissions_def Let_def by (intro moves.safe_rules)
qed

lemma listMissions_moves: "moves.safe (listMissions n)" "moves.safe (listDeletedMissions n)"
  unfolding listMissions_def listDeletedMissions_def by (intro moves.safe_rules purge_moves)+

lemma trash_safe [store_safe]: "store.safe (trashMission i)" "store.safe (restoreMission i)"
proof -
  have read: "getMission i s = Some m \<Longrightarrow> getMission (ms_id m) s = Some m" for s m
    using getMission_id[of i s m] by simp
  have now: "keeps (\<lambda>s. True \<and> getMission i s = Some m) now" for m
    by (rule keeps_host) (simp add: getMission_def)
  show "store.safe (trashMission i)"
    unfolding trashMission_def requireMission_def[of i]
    by (rule store.safe_bnd_require, rule store.safe_thn_guard, rule store.safe_if, rule store.safe_ret,
        rule store.safe_bnd_keep[OF store.safe_now now], rule store.safe_thn, rule read_missions)
      (auto simp: mission_change_def intro: read store_safe)
  show "store.safe (restoreMission i)"
    unfolding restoreMission_def requireMission_def[of i]
    by (rule store.safe_bnd_require, rule store.safe_if, rule store.safe_ret,
        rule store.safe_bnd_keep[OF store.safe_now now], rule store.safe_thn, rule read_missions)
      (auto simp: mission_change_def intro: read store_safe)
qed

lemma deletePermanently_moves: "moves.safe (deleteMissionPermanently i)"
proof -
  have "moves.safe_when (\<lambda>s. True \<and> getMission i s = Some m) (change (delete_missions (\<lambda>r. ms_id r = ms_id m)))"
    if "ms_deleted_at m \<noteq> None" for m
  proof (rule moves.safe_whenI)
    fix s x t
    assume inv: "fab_inv s" and read: "True \<and> getMission i s = Some m"
      and run: "change (delete_missions (\<lambda>r. ms_id r = ms_id m)) s = Inr (x, t)"
    have "ms_deleted_at r \<noteq> None" if "r \<in> set (missions s)" "ms_id r = ms_id m" for r
      using the_row(1)[OF inv _ that] read getMission_id[of i s m] \<open>ms_deleted_at m \<noteq> None\<close> by auto
    then show "(store_move True)\<^sup>*\<^sup>* s t"
      using run by (auto simp: tx_simps intro!: r_into_rtranclp delete_missions_step)
  qed
  then show ?thesis
    unfolding deleteMissionPermanently_def requireMission_def
    by (intro moves.safe_bnd_require moves.safe_thn_guard)
qed

end
