(* ===== verification/Fabric_Service.thy ===== *)
theory Fabric_Service
  imports Fabric_Control
begin

text \<open>
  The store as its callers see it: \<open>store_call\<close> names the public operations of
  \<open>MissionRepository\<close> that run statements, \<open>perform\<close> runs one, and \<open>store_reach\<close> holds the
  databases any sequence of calls from an empty database can reach. Every call refines the
  abstract steps, so every reachable database has the invariant.
\<close>

section \<open>Calls\<close>

definition discard :: "'a tx \<Rightarrow> unit tx" where
  "discard m = bnd m (\<lambda>_. ret ())"

datatype store_call =
    Call_Create_mission create_mission_input
  | Call_Delegate delegate_input
  | Call_Delegate_many "delegate_input list"
  | Call_Bind_runtime string string binding_input
  | Call_Rebind_runtime string binding_input
  | Call_Mark_starting string
  | Call_Create_retry string "string option"
  | Call_Request_revision revision_input
  | Call_Create_message message_input
  | Call_Create_request create_request_input
  | Call_Resolve_request resolve_input
  | Call_Record_incident incident_input
  | Call_Record_artifacts string string "string option" "artifact_input list"
  | Call_List_inbox string inbox_query
  | Call_Mark_read string "string list"
  | Call_Mark_delivered string "string list"
  | Call_Mark_delivery_failed string "string list" string
  | Call_Arm_continuation arm_input
  | Call_Consume_continuation string string string
  | Call_Pending_intents int
  | Call_Intent_processing string "string option"
  | Call_Intent_delivered string
  | Call_Retry_intent string string int
  | Call_Recover_continuations
  | Call_Record_progress progress_input
  | Call_Record_heartbeat string string "int option"
  | Call_Complete_attempt complete_input
  | Call_Fail_attempt string string json
  | Call_Pause_assignment string bool "string option"
  | Call_Cancel_assignment string "string option" string
  | Call_Promote_lead string string "string option" string
  | Call_Reassign reassign_input
  | Call_Renew_lease string int
  | Call_Orphan_attempt string string "(string \<times> json) list"
  | Call_Set_mission_state string mission_state "string option" string
  | Call_Upsert_session string string string runtime_transport "string option" "string option" runtime_session_state string "json option"
  | Call_Update_session string runtime_session_state
  | Call_Append_runtime_event string string string "json option"
  | Call_Read_snapshot string
  | Call_Reconcile_missions
  | Call_Pending_outbox int
  | Call_Outbox_processing string
  | Call_Complete_outbox string
  | Call_Retry_outbox string string int
  | Call_Fail_outbox string string
  | Call_Recover_outbox
  | Call_Trash_mission string
  | Call_Restore_mission string
  | Call_List_missions int
  | Call_List_deleted int
  | Call_Delete_mission string
  | Call_Purge_trash int

fun perform :: "store_call \<Rightarrow> unit tx" where
  "perform (Call_Create_mission a) = discard (createMission a)"
| "perform (Call_Delegate a) = discard (delegate a)"
| "perform (Call_Delegate_many a) = discard (delegateMany a)"
| "perform (Call_Bind_runtime a b c) = discard (bindRuntime a b c)"
| "perform (Call_Rebind_runtime a b) = discard (rebindActiveRuntime a b)"
| "perform (Call_Mark_starting a) = discard (markAttemptStarting a)"
| "perform (Call_Create_retry a b) = discard (createRetry a b)"
| "perform (Call_Request_revision a) = discard (requestRevision a)"
| "perform (Call_Create_message a) = discard (createMessage a)"
| "perform (Call_Create_request a) = discard (createActionRequest a)"
| "perform (Call_Resolve_request a) = discard (resolveActionRequest a)"
| "perform (Call_Record_incident a) = discard (recordIncident a)"
| "perform (Call_Record_artifacts a b c d) = discard (recordArtifacts a b c d)"
| "perform (Call_List_inbox a b) = discard (listInbox a b)"
| "perform (Call_Mark_read a b) = markMessagesRead a b"
| "perform (Call_Mark_delivered a b) = markMessagesDelivered a b"
| "perform (Call_Mark_delivery_failed a b c) = markMessageDeliveryFailed a b c"
| "perform (Call_Arm_continuation a) = discard (armContinuation a)"
| "perform (Call_Consume_continuation a b c) = discard (consumeContinuation a b c)"
| "perform (Call_Pending_intents a) = discard (listPendingResumeIntents a)"
| "perform (Call_Intent_processing a b) = discard (markResumeIntentProcessing a b)"
| "perform (Call_Intent_delivered a) = discard (markResumeIntentDelivered a)"
| "perform (Call_Retry_intent a b c) = retryResumeIntent a b c"
| "perform Call_Recover_continuations = discard recoverAndReconcileContinuations"
| "perform (Call_Record_progress a) = discard (recordProgress a)"
| "perform (Call_Record_heartbeat a b c) = discard (recordHeartbeat a b c)"
| "perform (Call_Complete_attempt a) = discard (completeAttempt a)"
| "perform (Call_Fail_attempt a b c) = discard (failAttemptFromRuntime a b c)"
| "perform (Call_Pause_assignment a b c) = discard (pauseAssignment a b c)"
| "perform (Call_Cancel_assignment a b c) = discard (cancelAssignment a b c)"
| "perform (Call_Promote_lead a b c d) = discard (promoteLead a b c d)"
| "perform (Call_Reassign a) = discard (reassign a)"
| "perform (Call_Renew_lease a b) = discard (renewAttemptLease a b)"
| "perform (Call_Orphan_attempt a b c) = discard (orphanAttemptFromRuntime a b c)"
| "perform (Call_Set_mission_state a b c d) = discard (setMissionState a b c d)"
| "perform (Call_Upsert_session a b c d e f g h i) = discard (upsertRuntimeSession a b c d e f g h i)"
| "perform (Call_Update_session a b) = discard (updateRuntimeSessionState a b)"
| "perform (Call_Append_runtime_event a b c d) = discard (appendRuntimeEvent a b c d)"
| "perform (Call_Read_snapshot a) = discard (snapshot a)"
| "perform Call_Reconcile_missions = discard reconcileMissionsWithoutActiveAssignments"
| "perform (Call_Pending_outbox a) = discard (listPendingOutbox a)"
| "perform (Call_Outbox_processing a) = discard (markOutboxProcessing a)"
| "perform (Call_Complete_outbox a) = completeOutbox a"
| "perform (Call_Retry_outbox a b c) = retryOutbox a b c"
| "perform (Call_Fail_outbox a b) = failOutbox a b"
| "perform Call_Recover_outbox = discard recoverInterruptedOutbox"
| "perform (Call_Trash_mission a) = discard (trashMission a)"
| "perform (Call_Restore_mission a) = discard (restoreMission a)"
| "perform (Call_List_missions a) = discard (listMissions a)"
| "perform (Call_List_deleted a) = discard (listDeletedMissions a)"
| "perform (Call_Delete_mission a) = deleteMissionPermanently a"
| "perform (Call_Purge_trash a) = discard (purgeExpiredTrashedMissions a)"

text \<open>The calls that delete Missions.\<close>

fun deletes :: "store_call \<Rightarrow> bool" where
  "deletes (Call_List_missions a) \<longleftrightarrow> True"
| "deletes (Call_List_deleted a) \<longleftrightarrow> True"
| "deletes (Call_Delete_mission a) \<longleftrightarrow> True"
| "deletes (Call_Purge_trash a) \<longleftrightarrow> True"
| "deletes _ \<longleftrightarrow> False"

lemma discard_safe: "store.safe m \<Longrightarrow> store.safe (discard m)" "moves.safe m' \<Longrightarrow> moves.safe (discard m')"
  unfolding discard_def by (rule store.safe_bnd moves.safe_bnd, assumption, rule store.safe_ret moves.safe_ret)+

lemma perform_safe: "\<not> deletes c \<Longrightarrow> store.safe (perform c)"
  by (cases c) (simp_all only: perform.simps deletes.simps not_True_eq_False discard_safe(1) store_safe)

lemma perform_moves: "moves.safe (perform c)"
proof (cases "deletes c")
  case False
  then show ?thesis by (rule safe_moves[OF perform_safe])
next
  case True
  then show ?thesis
    by (cases c) (simp_all only: perform.simps deletes.simps discard_safe(2) listMissions_moves
        deletePermanently_moves purge_moves)
qed

section \<open>Reachable databases\<close>

text \<open>A new database: the workspaces and Sessions are rows of other parts of the program.\<close>

definition empty_store :: "host \<Rightarrow> string list \<Rightarrow> string list \<Rightarrow> fab" where
  "empty_store h ws ts =
     \<lparr> missions = [], tasks = [], dependencies = [], principals = [], assignments = [],
       attempts = [], messages = [], message_seq = 0, events = [], outbox = [], artifacts = [],
       runtime_sessions = [], runtime_events = [], deliveries = [], continuations = [],
       targets = [], intents = [], conversations = [], participants = [], requests = [],
       resolutions = [], incidents = [], workspaces = ws, session_tasks = ts, fab_host = h \<rparr>"

text \<open>One call. A call that fails is rolled back; the identifiers and the clock it took stay
  taken. \<open>purge\<close>: whether the call may be one that deletes.\<close>

inductive service_step :: "bool \<Rightarrow> fab \<Rightarrow> fab \<Rightarrow> bool" for purge :: bool where
  service_call: "perform c s = Inr ((), t) \<Longrightarrow> (deletes c \<Longrightarrow> purge) \<Longrightarrow> service_step purge s t"
| service_failed: "perform c s = Inl e \<Longrightarrow> host_tick (fab_host s) h \<Longrightarrow>
    service_step purge s (s\<lparr>fab_host := h\<rparr>)"

inductive store_reach :: "host \<Rightarrow> fab \<Rightarrow> bool" for h :: host where
  reach_empty: "store_reach h (empty_store h ws ts)"
| reach_step: "store_reach h s \<Longrightarrow> service_step True s t \<Longrightarrow> store_reach h t"

inductive_cases service_stepE: "service_step purge s t"

lemma fab_inv_empty: "host_ok h \<Longrightarrow> fab_inv (empty_store h ws ts)"
  by (simp add: fab_inv_def empty_store_def inv_keys_def inv_refs_def refs_at_def inv_dag_def
      inv_events_def mission_sequences_def dense_def inv_messages_def inv_intents_def inv_waits_def
      wait_state_def WAIT_STATES_def)

lemma service_step_moves: "service_step p s t \<Longrightarrow> fab_inv s \<Longrightarrow> (store_move p)\<^sup>*\<^sup>* s t"
proof (erule service_stepE)
  fix c
  assume "fab_inv s" and run: "perform c s = Inr ((), t)" and "deletes c \<Longrightarrow> p"
  show "(store_move p)\<^sup>*\<^sup>* s t"
  proof (cases p)
    case True
    show ?thesis using moves.safe_whenD[OF perform_moves \<open>fab_inv s\<close> TrueI run] True by simp
  next
    case False
    then have "\<not> deletes c" using \<open>deletes c \<Longrightarrow> p\<close> by blast
    then show ?thesis using store.safe_whenD[OF perform_safe \<open>fab_inv s\<close> TrueI run] False by simp
  qed
qed (auto intro: step_host)

lemma service_run_moves:
  "(service_step p)\<^sup>*\<^sup>* s t \<Longrightarrow> fab_inv s \<Longrightarrow> (store_move p)\<^sup>*\<^sup>* s t"
proof (induction rule: rtranclp_induct)
  case (step t u)
  then have "fab_inv t" using fab_inv_run by blast
  with step show ?case using service_step_moves by (meson rtranclp_trans)
qed simp

lemma fab_inv_reach: "store_reach h s \<Longrightarrow> host_ok h \<Longrightarrow> fab_inv s"
  by (induction rule: store_reach.induct)
    (auto intro: fab_inv_empty fab_inv_run dest: service_step_moves)

end
