(* ===== verification/Fabric_History.thy ===== *)
theory Fabric_History
  imports Fabric_Service
begin

text \<open>
  What a sequence of calls leaves of the past. Without deletion every table keeps its rows in
  place: \<open>extends Q xs ys\<close> says that \<open>ys\<close> begins with the rows of \<open>xs\<close>, each changed along \<open>Q\<close>.
\<close>

section \<open>Extended tables\<close>

definition extends :: "('r \<Rightarrow> 'r \<Rightarrow> bool) \<Rightarrow> 'r list \<Rightarrow> 'r list \<Rightarrow> bool" where
  "extends Q xs ys \<longleftrightarrow> (\<exists>us vs. ys = us @ vs \<and> list_all2 Q xs us)"

lemma extends_refl: "(\<And>r. Q r r) \<Longrightarrow> extends Q xs xs"
  unfolding extends_def by (intro exI[of _ xs] exI[of _ "[]"]) (simp add: list.rel_refl)

lemma extends_snoc: "(\<And>r. Q r r) \<Longrightarrow> extends Q xs (xs @ zs)"
  unfolding extends_def by (intro exI[of _ xs] exI[of _ zs]) (simp add: list.rel_refl)

lemma extends_change: "list_all2 Q xs ys \<Longrightarrow> extends Q xs ys"
  unfolding extends_def by (intro exI[of _ ys] exI[of _ "[]"]) simp

lemma extends_trans:
  assumes "extends Q xs ys" and "extends Q ys zs" and "\<And>a b c. Q a b \<Longrightarrow> Q b c \<Longrightarrow> Q a c"
  shows "extends Q xs zs"
proof -
  obtain us vs where ys: "ys = us @ vs" "list_all2 Q xs us" using assms(1) by (auto simp: extends_def)
  obtain ws rs where zs: "zs = ws @ rs" "list_all2 Q ys ws" using assms(2) by (auto simp: extends_def)
  then obtain ps qs where "ws = ps @ qs" "list_all2 Q us ps" using ys by (auto simp: list_all2_append1)
  moreover have "list_all2 Q xs ps"
    using ys(2) \<open>list_all2 Q us ps\<close> by (rule list_all2_trans[rotated]) (use assms(3) in blast)
  ultimately show ?thesis using zs(1) by (auto simp: extends_def)
qed

lemma extends_find:
  assumes "extends Q xs ys" and "\<And>a b. Q a b \<Longrightarrow> k b = k a" and "find (\<lambda>r. k r = i) xs = Some r"
  shows "\<exists>r'. find (\<lambda>r. k r = i) ys = Some r' \<and> Q r r'"
proof -
  obtain us vs where ys: "ys = us @ vs" "list_all2 Q xs us" using assms(1) by (auto simp: extends_def)
  have "rel_option Q (find (\<lambda>r. k r = i) xs) (find (\<lambda>r. k r = i) us)"
    by (rule list_all2_find[OF ys(2)]) (rule assms(2))
  then obtain r' where "find (\<lambda>r. k r = i) us = Some r'" "Q r r'"
    using assms(3) by (auto simp: option_rel_Some1)
  then show ?thesis using ys(1) by (simp add: find_append)
qed

section \<open>Rows over time\<close>

definition mission_life :: "mission_row \<Rightarrow> mission_row \<Rightarrow> bool" where
  "mission_life r r' \<longleftrightarrow> ms_id r' = ms_id r \<and> ms_created_at r' = ms_created_at r \<and>
     ms_version r \<le> ms_version r' \<and>
     (ms_state r, ms_state r') \<in> {(a, b). b \<in> set (MISSION_TRANSITIONS a)}\<^sup>*"

definition attempt_life :: "attempt_row \<Rightarrow> attempt_row \<Rightarrow> bool" where
  "attempt_life r r' \<longleftrightarrow> at_id r' = at_id r \<and> at_assignment r' = at_assignment r \<and>
     at_ordinal r' = at_ordinal r \<and> at_runtime r' = at_runtime r \<and> at_model r' = at_model r \<and>
     (isTerminalAttemptState (at_state r) \<longrightarrow> r' = r) \<and>
     (at_state r \<noteq> Attempt_PLANNED \<longrightarrow> at_state r' \<noteq> Attempt_PLANNED)"

definition message_life :: "message_row \<Rightarrow> message_row \<Rightarrow> bool" where
  "message_life r r' \<longleftrightarrow>
     r'\<lparr>mg_delivered_at := mg_delivered_at r, mg_read_at := mg_read_at r\<rparr> = r \<and>
     (mg_delivered_at r \<noteq> None \<longrightarrow> mg_delivered_at r' = mg_delivered_at r) \<and>
     (mg_read_at r \<noteq> None \<longrightarrow> mg_read_at r' = mg_read_at r)"

lemma life_refl [simp]: "mission_life r1 r1" "attempt_life r2 r2" "message_life r3 r3"
  by (simp_all add: mission_life_def attempt_life_def message_life_def)

lemma mission_change_life: "mission_change r r' \<Longrightarrow> mission_life r r'"
  by (auto simp: mission_change_def mission_life_def)

lemma attempt_change_life: "attempt_change r r' \<Longrightarrow> attempt_life r r'"
  by (auto simp: attempt_change_def attempt_life_def)

lemma message_change_life: "message_change r r' \<Longrightarrow> message_life r r'"
  by (cases r) (auto simp: message_change_def message_life_def coalesce_def split: option.splits)

lemma mission_life_trans: "mission_life a b \<Longrightarrow> mission_life b c \<Longrightarrow> mission_life a c"
  by (auto simp: mission_life_def)

lemma attempt_life_trans: "attempt_life a b \<Longrightarrow> attempt_life b c \<Longrightarrow> attempt_life a c"
  by (auto simp: attempt_life_def)

lemma message_life_trans: "message_life a b \<Longrightarrow> message_life b c \<Longrightarrow> message_life a c"
  by (cases a, cases b, cases c) (auto simp: message_life_def)

definition history :: "fab \<Rightarrow> fab \<Rightarrow> bool" where
  "history s t \<longleftrightarrow> extends mission_life (missions s) (missions t) \<and>
     extends attempt_life (attempts s) (attempts t) \<and>
     extends message_life (messages s) (messages t) \<and>
     extends (=) (events s) (events t)"

lemma history_refl [simp]: "history s s"
  by (auto simp: history_def intro: extends_refl)

lemma history_trans: "history s t \<Longrightarrow> history t u \<Longrightarrow> history s u"
  unfolding history_def
  by (blast intro: extends_trans mission_life_trans attempt_life_trans message_life_trans trans)

lemma extends_changed:
  "list_all2 Q xs ys \<Longrightarrow> (\<And>a b. Q a b \<Longrightarrow> P a b) \<Longrightarrow> extends P xs ys"
  by (rule extends_change) (rule list_all2_mono)

lemma step_history: "store_step s t \<Longrightarrow> history s t"
  unfolding history_def
  by (induction rule: store_move.induct)
    (auto intro: extends_refl extends_snoc extends_changed mission_change_life attempt_change_life
      message_change_life)

lemma run_history: "store_run s t \<Longrightarrow> history s t"
  by (induction rule: rtranclp_induct) (auto intro: history_trans step_history)

lemma service_history: "(service_step False)\<^sup>*\<^sup>* s t \<Longrightarrow> fab_inv s \<Longrightarrow> history s t"
  by (rule run_history) (rule service_run_moves)

section \<open>One wait per Attempt\<close>

definition active_attempts :: "continuation_row list \<Rightarrow> string list" where
  "active_attempts cs = map cn_attempt (filter (\<lambda>c. active_continuation (cn_state c)) cs)"

definition inv_active :: "fab \<Rightarrow> bool" where
  "inv_active s \<longleftrightarrow> distinct (active_attempts (continuations s))"

text \<open>A continuation that changes keeps its Attempt and does not become active.\<close>

definition stays_settled :: "continuation_row \<Rightarrow> continuation_row \<Rightarrow> bool" where
  "stays_settled c c' \<longleftrightarrow> cn_attempt c' = cn_attempt c \<and>
     (active_continuation (cn_state c') \<longrightarrow> active_continuation (cn_state c))"

lemma active_attempts_subset:
  "list_all2 stays_settled cs cs' \<Longrightarrow> set (active_attempts cs') \<subseteq> set (active_attempts cs)"
  by (induction rule: list_all2_induct) (auto simp: active_attempts_def stays_settled_def)

lemma settled_distinct:
  "list_all2 stays_settled cs cs' \<Longrightarrow> distinct (active_attempts cs) \<Longrightarrow> distinct (active_attempts cs')"
proof (induction rule: list_all2_induct)
  case (Cons c cs c' cs')
  have sub: "set (active_attempts cs') \<subseteq> set (active_attempts cs)"
    using Cons.hyps(2) by (rule active_attempts_subset)
  have "distinct (active_attempts cs')"
    using Cons.IH Cons.prems by (simp add: active_attempts_def split: if_splits)
  moreover have "cn_attempt c' \<notin> set (active_attempts cs')" if "active_continuation (cn_state c')"
  proof -
    have "active_continuation (cn_state c)" "cn_attempt c' = cn_attempt c"
      using Cons.hyps(1) that by (auto simp: stays_settled_def)
    then have "cn_attempt c' \<notin> set (active_attempts cs)" using Cons.prems by (simp add: active_attempts_def)
    then show ?thesis using sub by blast
  qed
  ultimately show ?case by (simp add: active_attempts_def)
qed simp

lemma keys_settled:
  assumes "list_all2 continuation_change cs cs'" and "distinct (map cn_id cs)"
    and "\<And>c c'. c \<in> set cs \<Longrightarrow> c' \<in> set cs' \<Longrightarrow> cn_id c' = cn_id c \<Longrightarrow>
      find (\<lambda>c. cn_id c = cn_id c') cs = Some c \<Longrightarrow> find (\<lambda>c. cn_id c = cn_id c') cs' = Some c' \<Longrightarrow>
      active_continuation (cn_state c') \<Longrightarrow> active_continuation (cn_state c)"
  shows "list_all2 stays_settled cs cs'"
  unfolding list_all2_conv_all_nth
proof (intro conjI allI impI)
  show len: "length cs = length cs'" using assms(1) by (rule list_all2_lengthD)
  fix n assume n: "n < length cs"
  have keys: "map cn_id cs' = map cn_id cs"
    by (rule list_all2_map_eq[OF assms(1)]) (simp add: continuation_change_def)
  have change: "continuation_change (cs ! n) (cs' ! n)" using assms(1) n by (rule list_all2_nthD)
  then have id: "cn_id (cs' ! n) = cn_id (cs ! n)" and "cn_attempt (cs' ! n) = cn_attempt (cs ! n)"
    by (simp_all add: continuation_change_def)
  moreover have "find (\<lambda>c. cn_id c = cn_id (cs' ! n)) cs = Some (cs ! n)"
    unfolding id using assms(2) n by (intro find_key_distinct) simp_all
  moreover have "find (\<lambda>c. cn_id c = cn_id (cs' ! n)) cs' = Some (cs' ! n)"
    using assms(2) n len by (intro find_key_distinct) (simp_all add: keys)
  ultimately show "stays_settled (cs ! n) (cs' ! n)"
    using assms(3)[of "cs ! n" "cs' ! n"] n len by (simp add: stays_settled_def)
qed

lemma moves_settled:
  assumes "((Some a, x), (Some b, y)) \<in> set WAIT_MOVES \<or> b = a" and "active_continuation b"
  shows "active_continuation a"
  using assms by (auto simp: WAIT_MOVES_def active_continuation_def)

lemma inv_active_step:
  assumes "store_move p s t" and "inv_active s" and "inv_keys s"
  shows "inv_active t"
  using assms(1)
proof (cases rule: store_move.cases)
  case (step_arm r)
  then show ?thesis
    using assms(2) by (auto simp: inv_active_def active_attempts_def continuation_unique_def active_continuation_def)
next
  case (step_wake cs r c)
  have "list_all2 stays_settled (continuations s) cs"
  proof (rule keys_settled[OF step_wake(2)])
    show "distinct (map cn_id (continuations s))" using assms(3) by (simp add: inv_keys_def)
    fix c1 c2
    assume c1: "c1 \<in> set (continuations s)" "cn_id c2 = cn_id c1"
      and at: "find (\<lambda>c. cn_id c = cn_id c2) (continuations s) = Some c1"
        "find (\<lambda>c. cn_id c = cn_id c2) cs = Some c2" and "active_continuation (cn_state c2)"
    have st: "wait_state cs (intents s @ [r]) (cn_id c2) =
       (if cn_id c2 = ri_continuation r then (Some Cont_READY, Some Intent_PENDING)
        else wait_state (continuations s) (intents s) (cn_id c2))"
      using step_wake by blast
    show "active_continuation (cn_state c1)"
    proof (cases "cn_id c2 = ri_continuation r")
      case True
      then have "cn_id c1 = cn_id c" using step_wake c1(2) by (simp add: intent_of_def)
      moreover have "distinct (map cn_id (continuations s))" using assms(3) by (simp add: inv_keys_def)
      ultimately have "c1 = c" using c1(1) step_wake by (meson distinct_map inj_on_def)
      then show ?thesis using step_wake by (simp add: active_continuation_def)
    next
      case False
      then show ?thesis using st at \<open>active_continuation (cn_state c2)\<close> by (simp add: wait_state_def)
    qed
  qed
  then show ?thesis using assms(2) step_wake by (auto simp: inv_active_def dest: settled_distinct)
next
  case (step_waits cs js)
  have "list_all2 stays_settled (continuations s) cs"
  proof (rule keys_settled[OF step_waits(2)])
    show "distinct (map cn_id (continuations s))" using assms(3) by (simp add: inv_keys_def)
    fix c1 c2
    assume at: "find (\<lambda>c. cn_id c = cn_id c2) (continuations s) = Some c1"
        "find (\<lambda>c. cn_id c = cn_id c2) cs = Some c2" and active: "active_continuation (cn_state c2)"
    have "wait_state cs js (cn_id c2) = wait_state (continuations s) (intents s) (cn_id c2) \<or>
       (wait_state (continuations s) (intents s) (cn_id c2), wait_state cs js (cn_id c2)) \<in> set WAIT_MOVES"
      using step_waits(4) by (simp add: wait_moves_def)
    then show "active_continuation (cn_state c1)"
      using at active by (intro moves_settled[of "cn_state c1" _ "cn_state c2"]) (auto simp: wait_state_def)
  qed
  then show ?thesis using assms(2) step_waits by (auto simp: inv_active_def dest: settled_distinct)
next
  case (step_delete P)
  have "distinct (active_attempts (filter Q cs))" if "distinct (active_attempts cs)" for Q cs
  proof -
    have "active_attempts (filter Q cs) =
        map cn_attempt (filter Q (filter (\<lambda>c. active_continuation (cn_state c)) cs))"
      by (simp add: active_attempts_def conj_commute)
    then show ?thesis using that by (simp only: active_attempts_def distinct_map_filter)
  qed
  then show ?thesis
    using assms(2) by (simp add: inv_active_def step_delete delete_missions_tables)
qed (use assms(2) in \<open>simp_all add: inv_active_def\<close>)

lemma inv_active_run: "(store_move p)\<^sup>*\<^sup>* s t \<Longrightarrow> inv_active s \<Longrightarrow> fab_inv s \<Longrightarrow> inv_active t"
proof (induction rule: rtranclp_induct)
  case (step t u)
  moreover from step have "fab_inv t" using fab_inv_run by blast
  ultimately show ?case using inv_active_step by (auto simp: fab_inv_def)
qed

lemma inv_active_reach: "store_reach h s \<Longrightarrow> host_ok h \<Longrightarrow> inv_active s"
proof (induction rule: store_reach.induct)
  case (reach_empty ws ts)
  show ?case by (simp add: inv_active_def active_attempts_def empty_store_def)
next
  case (reach_step s t)
  then show ?case
    using inv_active_run[OF service_step_moves[OF reach_step(2)]] fab_inv_reach by blast
qed

end
