(* ===== verification/Fabric_Wakeup.thy ===== *)
theory Fabric_Wakeup
  imports Fabric_Waits
begin

text \<open>
  No wake-up is lost: when the conditions of an armed continuation hold, reconciling it makes it
  ready. The loop over its targets changes only the targets, so what holds at the start holds for
  each target in turn.
\<close>

section \<open>Conditions\<close>

definition message_for :: "continuation_row \<Rightarrow> target_row \<Rightarrow> message_row \<Rightarrow> bool" where
  "message_for c t m \<longleftrightarrow> mg_mission m = cn_mission c \<and> mg_to m = Some (cn_owner c) \<and>
     mg_suppressed_at m = None \<and> cn_cursor c < mg_sequence m \<and> message_matches t m"

text \<open>What the target waits for has happened.\<close>

definition condition_holds :: "fab \<Rightarrow> continuation_row \<Rightarrow> target_row \<Rightarrow> bool" where
  "condition_holds s c t \<longleftrightarrow> ct_satisfied_at t \<noteq> None \<or>
     (if ct_kind t = Target_assignment_terminal
      then truthy (ct_target t) \<and> (case getAssignment (the (ct_target t)) s of None \<Rightarrow> False
             | Some a \<Rightarrow> as_state a \<in> set (or_else [] (ct_terminal_states t)))
      else list_ex (message_for c t) (messages s))"

definition targets_of :: "string \<Rightarrow> fab \<Rightarrow> target_row list" where
  "targets_of i s = filter (\<lambda>t. ct_continuation t = i) (targets s)"

definition wait_over :: "fab \<Rightarrow> continuation_row \<Rightarrow> bool" where
  "wait_over s c \<longleftrightarrow>
     (if cn_mode c = Mode_all then list_all (condition_holds s c) (targets_of (cn_id c) s)
      else list_ex (condition_holds s c) (targets_of (cn_id c) s))"

section \<open>The loop over the targets\<close>

definition only_targets :: "fab \<Rightarrow> fab \<Rightarrow> bool" where
  "only_targets s t \<longleftrightarrow> continuations t = continuations s \<and> intents t = intents s \<and>
     messages t = messages s \<and> assignments t = assignments s \<and>
     list_all2 target_change (targets s) (targets t)"

lemma target_change_trans: "target_change a b \<Longrightarrow> target_change b c \<Longrightarrow> target_change a c"
  by (auto simp: target_change_def)

interpretation satisfying: tx_relation only_targets "\<lambda>_. True"
proof
  show "only_targets s u" if "only_targets s t" "only_targets t u" for s t u
    using that by (auto simp: only_targets_def intro: list_all2_trans[OF target_change_trans])
qed (auto simp: only_targets_def list.rel_refl)

lemma satisfied_change:
  "ct_satisfied_at r = None \<Longrightarrow>
   target_change r (r\<lparr>ct_satisfied_by := b, ct_satisfied_payload := p, ct_satisfied_at := Some t\<rparr>)"
  unfolding target_change_def by blast

lemma satisfying_satisfy: "satisfying.safe (satisfyContinuationTarget i b p)"
  unfolding satisfyContinuationTarget_def
  by (intro satisfying.safe_rules satisfying.safe_upd_count)
    (auto simp: only_targets_def intro!: list_all2_update_where satisfied_change)

lemma satisfying_reconcile: "satisfying.safe (reconcile_target c t)"
  unfolding reconcile_target_def by (intro satisfying.safe_rules satisfying_satisfy)

definition satisfied_in :: "fab \<Rightarrow> string \<Rightarrow> bool" where
  "satisfied_in s i \<longleftrightarrow> (\<forall>r\<in>set (targets s). ct_id r = i \<longrightarrow> ct_satisfied_at r \<noteq> None)"

lemma target_change_satisfied:
  "target_change r r' \<Longrightarrow> ct_id r' = ct_id r \<and> (ct_satisfied_at r \<noteq> None \<longrightarrow> ct_satisfied_at r' \<noteq> None)"
  by (auto simp: target_change_def)

lemma satisfied_in_later: "only_targets s t \<Longrightarrow> satisfied_in s i \<Longrightarrow> satisfied_in t i"
proof (unfold satisfied_in_def, intro ballI impI)
  fix r' assume "only_targets s t" and sat: "\<forall>r\<in>set (targets s). ct_id r = i \<longrightarrow> ct_satisfied_at r \<noteq> None"
    and r': "r' \<in> set (targets t)" "ct_id r' = i"
  then obtain r where "r \<in> set (targets s)" "target_change r r'"
    using list_all2_set[of target_change "targets s" "targets t" r'] by (auto simp: only_targets_def)
  then show "ct_satisfied_at r' \<noteq> None" using sat r'(2) target_change_satisfied[of r r'] by auto
qed

lemma satisfy_satisfies:
  assumes run: "satisfyContinuationTarget i b p s = Inr (x, t)"
    and armed: "\<forall>r\<in>set (targets s). ct_id r = i \<longrightarrow> is_armed s (ct_continuation r)"
  shows "satisfied_in t i"
proof -
  let ?P = "\<lambda>r. ct_id r = i \<and> ct_satisfied_at r = None \<and> is_armed s (ct_continuation r)"
  let ?h = "snd (timestamp (fab_host s))"
  define f :: "target_row \<Rightarrow> target_row" where "f = (\<lambda>r. r\<lparr> ct_satisfied_by := Some b,
    ct_satisfied_payload := Some (JObj p), ct_satisfied_at := Some (fst (timestamp (fab_host s))) \<rparr>)"
  have "is_armed (s\<lparr>fab_host := ?h\<rparr>) = is_armed s" by (simp add: is_armed_def fun_eq_iff)
  then have t: "targets t = update_where ?P f (targets s)"
    using run by (auto simp: satisfyContinuationTarget_def bnd_run now_run tx_simps f_def)
  have "ct_satisfied_at r \<noteq> None" if r: "r \<in> set (targets t)" "ct_id r = i" for r
  proof -
    obtain q where q: "q \<in> set (targets s)" "r = (if ?P q then f q else q)"
      using r(1) unfolding t set_update_where by blast
    have "ct_id r = ct_id q" unfolding q(2) by (simp add: f_def)
    then have id: "ct_id q = i" using r(2) by simp
    then have "is_armed s (ct_continuation q)" using armed q(1) by blast
    then show ?thesis unfolding q(2) using id by (simp add: f_def)
  qed
  then show ?thesis unfolding satisfied_in_def by blast
qed

text \<open>The target as it was read, against the rows the loop has left.\<close>

definition row_read :: "fab \<Rightarrow> continuation_row \<Rightarrow> target_row \<Rightarrow> bool" where
  "row_read s c x \<longleftrightarrow> (ct_satisfied_at x \<noteq> None \<longrightarrow> satisfied_in s (ct_id x)) \<and>
     (\<forall>r\<in>set (targets s). ct_id r = ct_id x \<longrightarrow> ct_continuation r = cn_id c)"

lemma row_read_later:
  assumes "only_targets s t" and "row_read s c x"
  shows "row_read t c x"
  unfolding row_read_def
proof (intro conjI impI ballI)
  show "satisfied_in t (ct_id x)" if "ct_satisfied_at x \<noteq> None"
    using assms satisfied_in_later that by (auto simp: row_read_def)
  fix r' assume r': "r' \<in> set (targets t)" "ct_id r' = ct_id x"
  then obtain r where "r \<in> set (targets s)" "target_change r r'"
    using assms(1) list_all2_set[of target_change "targets s" "targets t" r'] by (auto simp: only_targets_def)
  then show "ct_continuation r' = cn_id c"
    using assms(2) r'(2) by (auto simp: row_read_def target_change_def)
qed

text \<open>What a reconciled target waits for has happened, then it is satisfied.\<close>

lemma reconcile_satisfies:
  assumes run: "reconcile_target c x s = Inr ((), t)" and holds: "condition_holds s c x"
    and row: "row_read s c x" and armed: "is_armed s (cn_id c)"
  shows "satisfied_in t (ct_id x)"
proof (cases "ct_satisfied_at x = None")
  case False
  then have "satisfied_in s (ct_id x)" using row by (simp add: row_read_def)
  then show ?thesis
    using satisfying.safe_whenD[OF satisfying_reconcile TrueI TrueI run] satisfied_in_later by blast
next
  case True
  have all: "\<forall>r\<in>set (targets s). ct_id r = ct_id x \<longrightarrow> is_armed s (ct_continuation r)"
    using row armed by (auto simp: row_read_def)
  have "\<exists>y b p. satisfyContinuationTarget (ct_id x) b p s = Inr (y, t)"
  proof (cases "ct_kind x = Target_assignment_terminal")
    case terminal: True
    then show ?thesis
      using run holds True
      by (auto simp: reconcile_target_def condition_holds_def bnd_run tx_simps when_tx_def split: option.splits)
  next
    case False
    then obtain m where "m \<in> set (messages s)" "message_for c x m"
      using holds True by (auto simp: condition_holds_def list_ex_iff)
    then obtain m' where "find (\<lambda>m. mg_mission m = cn_mission c \<and> mg_to m = Some (cn_owner c) \<and>
        mg_suppressed_at m = None \<and> cn_cursor c < mg_sequence m \<and> message_matches x m) (messages s) = Some m'"
      by (cases "find (\<lambda>m. mg_mission m = cn_mission c \<and> mg_to m = Some (cn_owner c) \<and>
        mg_suppressed_at m = None \<and> cn_cursor c < mg_sequence m \<and> message_matches x m) (messages s)")
        (auto simp: find_None_iff message_for_def)
    then show ?thesis using run False True by (auto simp: reconcile_target_def bnd_run tx_simps)
  qed
  then obtain y b p where "satisfyContinuationTarget (ct_id x) b p s = Inr (y, t)" by blast
  then show ?thesis using all by (rule satisfy_satisfies)
qed

lemma only_targets_holds:
  "only_targets s t \<Longrightarrow> condition_holds t c x = condition_holds s c x \<and> is_armed t i = is_armed s i"
  by (simp add: only_targets_def condition_holds_def getAssignment_def is_armed_def)

lemma reconcile_each:
  assumes "each_tx (reconcile_target c) ts s = Inr ((), t)"
    and "\<forall>x\<in>set ts. row_read s c x" and "is_armed s (cn_id c)"
    and "x \<in> set ts" and "condition_holds s c x"
  shows "satisfied_in t (ct_id x)"
  using assms
proof (induction ts arbitrary: s)
  case (Cons a ts)
  then obtain u where run: "reconcile_target c a s = Inr ((), u)" "each_tx (reconcile_target c) ts u = Inr ((), t)"
    by (auto simp: thn_run)
  have su: "only_targets s u" by (rule satisfying.safe_whenD[OF satisfying_reconcile TrueI TrueI run(1)])
  have ut: "only_targets u t"
    using satisfying.safe_whenD[OF satisfying.safe_each[OF satisfying_reconcile] TrueI TrueI run(2)] .
  show ?case
  proof (cases "x = a")
    case True
    then have "satisfied_in u (ct_id x)" using reconcile_satisfies[OF run(1)] Cons.prems by auto
    then show ?thesis using satisfied_in_later[OF ut] by blast
  next
    case False
    show ?thesis
    proof (rule Cons.IH[OF run(2)])
      show "\<forall>x\<in>set ts. row_read u c x" using Cons.prems(2) row_read_later[OF su] by simp
      show "is_armed u (cn_id c)" "condition_holds u c x"
        using Cons.prems only_targets_holds[OF su] by auto
      show "x \<in> set ts" using Cons.prems(4) False by simp
    qed
  qed
qed simp

section \<open>The reconciled continuation\<close>

lemma ready_wakes:
  assumes inv: "fab_inv s" and c: "getContinuation i s = Some c" "cn_state c = Cont_ARMED"
    and run: "readyContinuation i p s = Inr (b, t)"
  shows "wait_state (continuations t) (intents t) i = (Some Cont_READY, Some Intent_PENDING)"
proof -
  have one: "changes (\<lambda>r. cn_id r = i \<and> cn_state r = Cont_ARMED) (continuations s) = 1"
    using c inv by (intro changes_one) (auto simp: getContinuation_def fab_inv_def inv_keys_def)
  have "b"
    using run c one
    by (auto simp: readyContinuation_def bnd_run thn_run now_run requireContinuation_def tx_simps Let_def)
  show ?thesis
    using inv run
  proof (cases rule: readyContinuation_run)
    case idle
    then show ?thesis using \<open>b\<close> by simp
  next
    case (woken h u d attempt payload j t')
    then have "d = c" using c(1) by simp
    have id: "cn_id c = i" using c(1) by (auto simp: getContinuation_def dest: find_key_SomeD)
    have "store_run s u" using step_host[OF woken(1)] woken(2) by (meson r_into_rtranclp rtranclp.simps)
    then have inv': "fab_inv u" using fab_inv_run inv by blast
    let ?r = "resume_intent j c attempt t' payload"
    have "?r \<in> set (intents u)" using woken(6) \<open>d = c\<close> by simp
    moreover have "distinct (map ri_continuation (intents u))" using inv' by (simp add: fab_inv_def inv_keys_def)
    ultimately have "find (\<lambda>r. ri_continuation r = ri_continuation ?r) (intents u) = Some ?r"
      by (rule find_key_distinct[rotated])
    then have "snd (wait_state (continuations u) (intents u) i) = Some Intent_PENDING"
      by (simp add: wait_state_def resume_intent_def id)
    moreover have "wait_state (continuations u) (intents u) i \<in> set WAIT_STATES"
      using inv' by (simp add: fab_inv_def inv_waits_def)
    ultimately have "wait_state (continuations u) (intents u) i = (Some Cont_READY, Some Intent_PENDING)"
      by (auto simp: WAIT_STATES_def)
    moreover obtain h' r where "t = u\<lparr>fab_host := h', events := events u @ [r]\<rparr>"
      using woken(7) by (rule appendEvent_run)
    ultimately show ?thesis by simp
  qed
qed

lemma bundle_run:
  "continuationBundle i s = Inr (b, t) \<longleftrightarrow> t = s \<and> (\<exists>c. getContinuation i s = Some c \<and>
     b = \<lparr>bd_continuation = c, bd_targets = targets_of i s, bd_intent = find (\<lambda>r. ri_continuation r = i) (intents s)\<rparr>)"
  by (auto simp: continuationBundle_def requireContinuation_def bnd_run tx_simps targets_of_def)

lemma list_all2_set_left: "list_all2 Q xs ys \<Longrightarrow> x \<in> set xs \<Longrightarrow> \<exists>y\<in>set ys. Q x y"
  by (induction rule: list_all2_induct) auto

lemma wait_over_ready:
  assumes over: "wait_over s c" and sat: "\<forall>x\<in>set (targets_of (cn_id c) s). condition_holds s c x \<longrightarrow> satisfied_in t (ct_id x)"
    and later: "only_targets s t"
  shows "conditions_ready (cn_mode c) (targets_of (cn_id c) t)"
proof -
  have l2: "list_all2 target_change (targets s) (targets t)" using later by (simp add: only_targets_def)
  have source: "\<exists>x\<in>set (targets_of (cn_id c) s). ct_id x = ct_id y" if "y \<in> set (targets_of (cn_id c) t)" for y
  proof -
    have "y \<in> set (targets t)" "ct_continuation y = cn_id c" using that by (simp_all add: targets_of_def)
    then obtain x where "x \<in> set (targets s)" "target_change x y" using list_all2_set[OF l2] by blast
    then show ?thesis using \<open>ct_continuation y = cn_id c\<close> by (auto simp: targets_of_def target_change_def)
  qed
  have forth: "\<exists>y\<in>set (targets_of (cn_id c) t). ct_id y = ct_id x" if "x \<in> set (targets_of (cn_id c) s)" for x
  proof -
    have "x \<in> set (targets s)" "ct_continuation x = cn_id c" using that by (simp_all add: targets_of_def)
    then obtain y where "y \<in> set (targets t)" "target_change x y"
      using list_all2_set_left[OF l2] by blast
    then show ?thesis using \<open>ct_continuation x = cn_id c\<close> by (auto simp: targets_of_def target_change_def)
  qed
  have marked: "ct_satisfied_at y \<noteq> None"
    if "y \<in> set (targets_of (cn_id c) t)" "x \<in> set (targets_of (cn_id c) s)" "ct_id x = ct_id y" "condition_holds s c x" for x y
    using sat that by (auto simp: satisfied_in_def targets_of_def)
  show ?thesis
  proof (cases "cn_mode c = Mode_all")
    case True
    then have "\<forall>x\<in>set (targets_of (cn_id c) s). condition_holds s c x" using over by (simp add: wait_over_def list_all_iff)
    then have "\<forall>y\<in>set (targets_of (cn_id c) t). ct_satisfied_at y \<noteq> None" using source marked by metis
    then have "filter (\<lambda>t. ct_satisfied_at t \<noteq> None) (targets_of (cn_id c) t) = targets_of (cn_id c) t" by simp
    then show ?thesis using True unfolding conditions_ready_def Let_def by simp
  next
    case False
    then obtain x where x: "x \<in> set (targets_of (cn_id c) s)" "condition_holds s c x"
      using over by (auto simp: wait_over_def list_ex_iff)
    then obtain y where "y \<in> set (targets_of (cn_id c) t)" "ct_satisfied_at y \<noteq> None"
      using forth marked by metis
    then have "filter (\<lambda>t. ct_satisfied_at t \<noteq> None) (targets_of (cn_id c) t) \<noteq> []" by (auto simp: filter_empty_conv)
    then show ?thesis using False by (simp add: conditions_ready_def)
  qed
qed

lemma reconcile_wakes:
  assumes inv: "fab_inv s" and c: "getContinuation i s = Some c" "cn_state c = Cont_ARMED"
    and over: "wait_over s c" and run: "reconcileContinuation i s = Inr (b, t)"
  shows "wait_state (continuations t) (intents t) i = (Some Cont_READY, Some Intent_PENDING)"
proof -
  have id: "cn_id c = i" using c(1) by (auto simp: getContinuation_def dest: find_key_SomeD)
  let ?ts = "targets_of i s"
  from run obtain u where loop: "each_tx (reconcile_target c) ?ts s = Inr ((), u)"
    and rest: "\<exists>d x p. getContinuation i u = Some d \<and>
      (conditions_ready (cn_mode d) (targets_of i u) \<longrightarrow> readyContinuation i p u = Inr (x, t))"
    using c by (auto simp: reconcileContinuation_def bnd_run thn_run bundle_run Let_def tx_simps split: if_splits)
  have su: "only_targets s u"
    using satisfying.safe_whenD[OF satisfying.safe_each[OF satisfying_reconcile] TrueI TrueI loop] .
  then have get: "getContinuation i u = Some c" using c(1) by (simp add: only_targets_def getContinuation_def)
  have inv': "fab_inv u"
    using store.safe_whenD[OF store.safe_each[OF reconcile_safe(1)] inv TrueI loop] fab_inv_run inv by blast
  have keys: "distinct (map ct_id (targets s))" using inv by (simp add: fab_inv_def inv_keys_def)
  have read: "row_read s c x" if "x \<in> set ?ts" for x
  proof -
    have "r = x" if "r \<in> set (targets s)" "ct_id r = ct_id x" for r
      using keys that \<open>x \<in> set ?ts\<close> by (auto simp: targets_of_def distinct_map dest: inj_onD)
    then show ?thesis using that id by (auto simp: row_read_def satisfied_in_def targets_of_def)
  qed
  have "c \<in> set (continuations s)" using c(1) by (auto simp: getContinuation_def dest: find_key_SomeD)
  then have armed: "is_armed s (cn_id c)" using c(2) by (auto simp: is_armed_def)
  have "satisfied_in u (ct_id x)" if "x \<in> set ?ts" "condition_holds s c x" for x
    using reconcile_each[OF loop _ armed that] read by blast
  then have "conditions_ready (cn_mode c) (targets_of i u)"
    using wait_over_ready[OF over _ su] id by simp
  then obtain x p where "readyContinuation i p u = Inr (x, t)" using rest get by auto
  then show ?thesis using ready_wakes[OF inv' get c(2)] by blast
qed

section \<open>The calls return\<close>

lemma appendEvent_returns:
  assumes inv: "fab_inv s" and refs: "is_mission s m" "opt_assignment s a" "opt_attempt s e"
  shows "\<exists>t. appendEvent m ty actor a e p s = Inr ((), t)"
proof -
  let ?id = "fst (newId ''mevent'' (fab_host s))"
  have "ev_id r \<noteq> ?id" if "r \<in> set (events s)" for r
    using inv that newId_fresh[of "fab_host s" "ev_id r" "''mevent''"] by (fastforce simp: fab_inv_def inv_intents_def)
  then have ids: "?id \<notin> ev_id ` set (events s)" by force
  have "next_event_sequence m s \<noteq> ev_sequence r" if "r \<in> set (events s)" "ev_mission r = m" for r
  proof -
    have "ev_sequence r \<le> Max (insert 0 (ev_sequence ` set (filter (\<lambda>e. ev_mission e = m) (events s))))"
      using that by (intro Max_ge) auto
    then show ?thesis by (simp add: next_event_sequence_def)
  qed
  then have numbers: "(m, next_event_sequence m s) \<notin> (\<lambda>e. (ev_mission e, ev_sequence e)) ` set (events s)"
    by force
  have actor: "opt_key_of pr_id (principals s)
      (if truthy actor \<and> getPrincipal (the actor) s \<noteq> None then actor else None)"
    by (auto simp: opt_key_of_def truthy_def getPrincipal_def dest: find_key_SomeD split: option.splits)
  show ?thesis
    using refs ids numbers actor
    by (simp add: appendEvent_def bnd_def fresh_def now_def reads_def insert_event_def insert_row_def
        split_beta Let_def event_unique_def event_refs_def new_key_def)
qed

lemma insert_intent_run:
  assumes "intent_unique (intents s) r" and "intent_refs s r"
  shows "insert_intent_or_ignore r s = Inr ((), s\<lparr>intents := intents s @ [r]\<rparr>)"
  using assms by (simp add: insert_intent_or_ignore_def insert_or_ignore_def table_eqs)

lemma readyContinuation_returns:
  assumes inv: "fab_inv s" and c: "getContinuation i s = Some c"
  shows "\<exists>b t. readyContinuation i p s = Inr (b, t)"
proof (cases "cn_state c = Cont_ARMED")
  case False
  then have "readyContinuation i p s = Inr (False, s)"
    using c by (simp add: readyContinuation_def requireContinuation_def bnd_def require_row_def ret_def)
  then show ?thesis by blast
next
  case True
  define now' where "now' = fst (timestamp (fab_host s))"
  define h1 where "h1 = snd (timestamp (fab_host s))"
  define j where "j = fst (newId ''resume_intent'' h1)"
  define h2 where "h2 = snd (newId ''resume_intent'' h1)"
  have tick: "host_tick (fab_host s) h2"
    unfolding h2_def h1_def by (rule host_tick_trans[OF host_tick_timestamp host_tick_newId])
  define v where "v = s\<lparr>fab_host := h2\<rparr>"
  have inv': "fab_inv v" unfolding v_def using fab_inv_step[OF step_host[OF tick] inv] .
  have c': "getContinuation i v = Some c" using c by (simp add: v_def getContinuation_def)
  have one: "changes (\<lambda>r. cn_id r = i \<and> cn_state r = Cont_ARMED) (continuations s) = 1"
    using c True inv by (intro changes_one) (auto simp: getContinuation_def fab_inv_def inv_keys_def)
  have fresh_id: "\<forall>r\<in>set (intents v). ri_id r \<noteq> j"
  proof
    fix r assume "r \<in> set (intents v)"
    then have "issued_id h1 (ri_id r)" and "host_ok h1"
      using inv unfolding v_def h1_def by (simp_all add: fab_inv_def inv_intents_def)
    then show "ri_id r \<noteq> j" unfolding j_def using newId_fresh[of h1 "ri_id r" "''resume_intent''"] by metis
  qed
  define f :: "continuation_row \<Rightarrow> continuation_row" where "f = (\<lambda>r. r\<lparr> cn_state := Cont_READY,
    cn_ready_at := coalesce (cn_ready_at r) (Some now'), cn_updated_at := now' \<rparr>)"
  define payload where "payload = [(''continuationId'', JStr (cn_id c)), (''reason'', JStr (cn_reason c)),
    (''trigger'', JObj p), (''deliveryContract'', JStr CONFIRMED_RESUME_DELIVERY_CONTRACT)]"
  have "is_attempt s (cn_attempt c)" using ready_refs[OF inv c] by simp
  then obtain attempt where attempt: "getAttempt (cn_attempt c) s = Some attempt"
    by (cases "getAttempt (cn_attempt c) s") (auto simp: getAttempt_def key_of_def find_None_iff)
  let ?r = "resume_intent j c attempt now' payload"
  let ?P = "\<lambda>r. cn_id r = i \<and> cn_state r = Cont_ARMED"
  define u where "u = s\<lparr>continuations := update_where ?P f (continuations s), fab_host := h2\<rparr>"
  define w where "w = v\<lparr>continuations := update_where ?P f (continuations v), intents := intents v @ [?r]\<rparr>"
  have uniq: "intent_unique (intents v) ?r" by (rule resume_intent_unique[OF inv' c' True fresh_id])
  have refs: "intent_refs v ?r" using ready_refs[OF inv' c'] by (simp add: intent_refs_def resume_intent_def)
  have "store_step v w"
    unfolding w_def
  proof (rule wake_step[OF inv' c' True _ _ uniq refs])
    show "issued_id (fab_host v) (ri_id ?r)" by (simp add: v_def resume_intent_def h2_def j_def newId_issued)
  qed (simp_all add: f_def continuation_change_def resume_intent_def intent_of_def)
  then have inv_w: "fab_inv w" using fab_inv_step inv' by blast
  have "intent_unique (intents u) ?r" using uniq by (simp add: u_def v_def)
  moreover have "key_of cn_id (continuations u) (cn_id c)"
    using ready_refs[OF inv c] by (simp add: u_def key_of_update_where f_def)
  then have "intent_refs u ?r" using refs by (simp add: u_def v_def intent_refs_def resume_intent_def)
  ultimately have ins: "insert_intent_or_ignore ?r u = Inr ((), w)"
    using insert_intent_run by (simp add: u_def v_def w_def)
  have "is_mission w (cn_mission c)" "opt_assignment w (Some (cn_owner c))" "opt_attempt w (Some (cn_attempt c))"
    using ready_refs[OF inv' c'] by (simp_all add: w_def opt_key_of_def key_of_def)
  then obtain t where "appendEvent (cn_mission c) ''continuation.ready'' None (Some (cn_owner c))
      (Some (cn_attempt c)) payload w = Inr ((), t)"
    using appendEvent_returns[OF inv_w] by blast
  then have "readyContinuation i p s = Inr (True, t)"
    using c True one attempt ins
    by (simp add: readyContinuation_def requireContinuation_def requireAttempt_def bnd_def thn_def require_row_def
        ret_def now_def fresh_def split_beta Let_def upd_count_def reads_def upd_def change_def where_eqs
        resume_intent_def payload_def f_def u_def h1_def h2_def j_def now'_def getAttempt_def)
  then show ?thesis by blast
qed

lemma satisfy_returns: "\<exists>b t. satisfyContinuationTarget i y p s = Inr (b, t)"
  by (simp add: satisfyContinuationTarget_def bnd_def now_def reads_def upd_count_def thn_def upd_def
      change_def ret_def split_beta Let_def)

lemma reconcile_target_returns: "\<exists>t. reconcile_target c x s = Inr ((), t)"
proof -
  have ret: "\<exists>t. ret () s = Inr ((), t)" for s by (simp add: ret_def)
  have bnd: "\<exists>t. bnd (satisfyContinuationTarget i y p) (\<lambda>_. ret ()) s = Inr ((), t)" for i y p
    using satisfy_returns[of i y p s] by (auto simp: bnd_def ret_def)
  show ?thesis
    unfolding reconcile_target_def by (auto simp: ret bnd when_tx_def split: option.split)
qed

lemma each_returns: "(\<And>x s. \<exists>t. f x s = Inr ((), t)) \<Longrightarrow> \<exists>t. each_tx f xs s = Inr ((), t)"
proof (induction xs arbitrary: s)
  case (Cons x xs)
  obtain u where "f x s = Inr ((), u)" using Cons.prems by blast
  moreover obtain t where "each_tx f xs u = Inr ((), t)" using Cons by blast
  ultimately show ?case by (auto simp: thn_def bnd_def)
qed (simp add: ret_def)

lemma reconcile_returns:
  assumes inv: "fab_inv s" and c: "getContinuation i s = Some c"
  shows "\<exists>b t. reconcileContinuation i s = Inr (b, t)"
proof -
  have read: "\<exists>b. continuationBundle i u = Inr (b, u) \<and> bd_continuation b = d \<and> bd_targets b = targets_of i u"
    if "getContinuation i u = Some d" for u d
    using that bundle_run[of i u _ u] by auto
  obtain b where b: "continuationBundle i s = Inr (b, s)" "bd_continuation b = c" "bd_targets b = targets_of i s"
    using read[OF c] by blast
  show ?thesis
  proof (cases "cn_state c = Cont_ARMED")
    case False
    then show ?thesis using b by (simp add: reconcileContinuation_def bnd_def ret_def)
  next
    case True
    obtain u where loop: "each_tx (reconcile_target c) (targets_of i s) s = Inr ((), u)"
      using each_returns[of "reconcile_target c"] reconcile_target_returns by blast
    have su: "only_targets s u"
      using satisfying.safe_whenD[OF satisfying.safe_each[OF satisfying_reconcile] TrueI TrueI loop] .
    have inv_u: "fab_inv u"
      using store.safe_whenD[OF store.safe_each[OF reconcile_safe(1)] inv TrueI loop] fab_inv_run inv by blast
    have get: "getContinuation i u = Some c" using su c by (simp add: only_targets_def getContinuation_def)
    obtain b' where b': "continuationBundle i u = Inr (b', u)" "bd_continuation b' = c"
      using read[OF get] by blast
    have ready_row: "\<exists>d. getContinuation i v = Some d" if run: "readyContinuation i p w = Inr (x, v)" and w: "fab_inv w"
        "getContinuation i w = Some c" for p w x v
      using ready_wakes[OF w True run] by (auto simp: wait_state_def getContinuation_def)
    have settle: "\<exists>b t. bnd (readyContinuation i p) (\<lambda>_. ret ()) w = Inr ((), t) \<and> continuationBundle i t = Inr (b, t)"
      if w: "fab_inv w" "getContinuation i w = Some c" for p w
    proof -
      obtain x v where v: "readyContinuation i p w = Inr (x, v)" using readyContinuation_returns[OF w] by blast
      then obtain d where "getContinuation i v = Some d" using ready_row[OF v w] by blast
      then show ?thesis using v read by (fastforce simp: bnd_def ret_def)
    qed
    define uh where "uh = u\<lparr>fab_host := snd (timestamp (fab_host u))\<rparr>"
    have uh: "fab_inv uh" "getContinuation i uh = Some c"
      using fab_inv_step[OF step_host[OF host_tick_timestamp] inv_u] get by (simp_all add: uh_def getContinuation_def)
    have now: "now u = Inr (fst (timestamp (fab_host u)), uh)" by (simp add: now_def uh_def split_beta Let_def)
    define tail where "tail = (\<lambda>ts. if conditions_ready (cn_mode c) ts
      then bnd (readyContinuation i [(''kind'', JStr ''conditions''), (''satisfiedTargetIds'', satisfied_ids ts)])
             (\<lambda>_. ret ())
      else (case cn_deadline c of None \<Rightarrow> ret () | Some d \<Rightarrow> bnd now (\<lambda>t. when_tx (d \<le> t)
             (bnd (readyContinuation i [(''kind'', JStr ''deadline''), (''timedOut'', JBool True),
                (''deadlineAt'', JNum d), (''satisfiedTargetIds'', satisfied_ids ts)]) (\<lambda>_. ret ())))))"
    have "\<exists>b t. tail ts u = Inr ((), t) \<and> continuationBundle i t = Inr (b, t)" for ts
    proof (cases "conditions_ready (cn_mode c) ts")
      case True
      then show ?thesis unfolding tail_def using settle[OF inv_u get] by simp
    next
      case waiting: False
      show ?thesis
      proof (cases "cn_deadline c")
        case None
        then show ?thesis unfolding tail_def using waiting b'(1) by (simp add: ret_def)
      next
        case (Some d)
        show ?thesis
        proof (cases "d \<le> fst (timestamp (fab_host u))")
          case True
          then show ?thesis
            unfolding tail_def using waiting Some settle[OF uh] now by (simp add: bnd_def[of now] when_tx_def)
        next
          case False
          then show ?thesis
            unfolding tail_def using waiting Some read[OF uh(2)] now
            by (auto simp: bnd_def[of now] when_tx_def ret_def)
        qed
      qed
    qed
    then obtain b2 t where t: "tail (bd_targets b') u = Inr ((), t)" "continuationBundle i t = Inr (b2, t)" by blast
    have "reconcileContinuation i s = thn (tail (bd_targets b')) (continuationBundle i) u"
      using b True loop b' by (simp add: reconcileContinuation_def bnd_def thn_def Let_def tail_def)
    then have "reconcileContinuation i s = Inr (b2, t)"
      using t by (simp add: thn_def bnd_def)
    then show ?thesis by blast
  qed
qed

end
