(* ===== verification/Fabric_Claims.thy ===== *)
theory Fabric_Claims
  imports Fabric_Control
begin

text \<open>
  The two queues of the store, the runtime outbox and the resume intents, are claimed the same
  way: an \<open>UPDATE ... WHERE state = 'pending'\<close> whose number of changes tells the caller whether it
  won. \<open>claim_queue\<close> is that interface and holds the consequence for any number of dispatchers.
\<close>

definition first_claims :: "(string \<Rightarrow> bool) \<Rightarrow> string list \<Rightarrow> bool list" where
  "first_claims P is = map (\<lambda>n. P (is ! n) \<and> is ! n \<notin> set (take n is)) [0..<length is]"

lemma first_claims_Cons:
  "first_claims P (i # is) = P i # first_claims (\<lambda>j. P j \<and> j \<noteq> i) is"
proof -
  have "[0..<length (i # is)] = 0 # map Suc [0..<length is]" by (simp add: map_Suc_upt upt_conv_Cons del: upt_Suc)
  then show ?thesis unfolding first_claims_def by (auto simp: comp_def)
qed

locale claim_queue =
  fixes pending :: "fab \<Rightarrow> string \<Rightarrow> bool"
    and claim :: "string \<Rightarrow> bool tx"
  assumes claim_run: "fab_inv s \<Longrightarrow> \<exists>t. claim i s = Inr (pending s i, t) \<and> fab_inv t \<and>
    (\<forall>j. pending t j \<longleftrightarrow> pending s j \<and> j \<noteq> i)"
begin

lemma claims_first:
  "fab_inv s \<Longrightarrow> \<exists>t. collect_tx claim is s = Inr (first_claims (pending s) is, t)"
proof (induction "is" arbitrary: s)
  case Nil
  show ?case by (simp add: ret_def first_claims_def)
next
  case (Cons i "is")
  obtain t where t: "claim i s = Inr (pending s i, t)" "fab_inv t" "\<forall>j. pending t j \<longleftrightarrow> pending s j \<and> j \<noteq> i"
    using claim_run[OF Cons.prems] by blast
  obtain u where "collect_tx claim is t = Inr (first_claims (pending t) is, u)" using Cons.IH[OF t(2)] by blast
  moreover have "pending t = (\<lambda>j. pending s j \<and> j \<noteq> i)" using t(3) by auto
  ultimately show ?case using t(1) by (simp add: bnd_def ret_def first_claims_Cons)
qed

lemma claimed_at_most_once:
  assumes "collect_tx claim is s = Inr (bs, t)" and "fab_inv s" and "n < length is" and "bs ! n"
  shows "pending s (is ! n) \<and> (\<forall>k < length is. bs ! k \<and> is ! k = is ! n \<longrightarrow> k = n)"
proof -
  have bs: "bs = first_claims (pending s) is" using claims_first[OF assms(2), of "is"] assms(1) by auto
  have at: "bs ! k \<longleftrightarrow> pending s (is ! k) \<and> is ! k \<notin> set (take k is)" if "k < length is" for k
    using that by (simp add: bs first_claims_def)
  have "k = n" if k: "k < length is" "bs ! k" "is ! k = is ! n" for k
  proof (rule ccontr)
    assume "k \<noteq> n"
    then consider "k < n" | "n < k" by linarith
    then show False
    proof cases
      case 1
      then have "is ! k \<in> set (take n is)" using assms(3) by (auto simp: in_set_conv_nth)
      then show False using at[OF assms(3)] assms(4) k(3) by simp
    next
      case 2
      then have "is ! n \<in> set (take k is)" using k(1) by (auto simp: in_set_conv_nth)
      then show False using at[OF k(1)] k by simp
    qed
  qed
  then show ?thesis using at[OF assms(3)] assms(4) by blast
qed

end

section \<open>The two queues\<close>

definition outbox_pending :: "fab \<Rightarrow> string \<Rightarrow> bool" where
  "outbox_pending s i \<longleftrightarrow> list_ex (\<lambda>b. ob_id b = i \<and> ob_state b = Outbox_PENDING) (outbox s)"

definition intent_pending :: "fab \<Rightarrow> string \<Rightarrow> bool" where
  "intent_pending s i \<longleftrightarrow> list_ex (\<lambda>r. ri_id r = i \<and> ri_state r = Intent_PENDING) (intents s)"

lemma changes_pending:
  assumes "distinct (map k rows)"
  shows "changes (\<lambda>r. k r = i \<and> P r) rows = 1 \<longleftrightarrow> list_ex (\<lambda>r. k r = i \<and> P r) rows"
    and "changes (\<lambda>r. k r = i \<and> P r) rows \<noteq> 1 \<longleftrightarrow> changes (\<lambda>r. k r = i \<and> P r) rows = 0"
proof -
  have "changes (\<lambda>r. k r = i \<and> P r) rows \<le> 1" using assms by (intro changes_le_one)
  moreover have "changes (\<lambda>r. k r = i \<and> P r) rows = 0 \<longleftrightarrow> \<not> list_ex (\<lambda>r. k r = i \<and> P r) rows"
    by (auto simp: changes_def filter_empty_conv list_ex_iff)
  ultimately show "changes (\<lambda>r. k r = i \<and> P r) rows = 1 \<longleftrightarrow> list_ex (\<lambda>r. k r = i \<and> P r) rows"
    "changes (\<lambda>r. k r = i \<and> P r) rows \<noteq> 1 \<longleftrightarrow> changes (\<lambda>r. k r = i \<and> P r) rows = 0" by linarith+
qed

lemma claimed_rows:
  assumes "\<And>r. P r \<Longrightarrow> \<not> P (f r)" and "\<And>r. k (f r) = k r"
  shows "list_ex (\<lambda>r. k r = j \<and> P r) (update_where (\<lambda>r. k r = i \<and> P r) f rows) \<longleftrightarrow>
    list_ex (\<lambda>r. k r = j \<and> P r) rows \<and> j \<noteq> i"
  using assms by (induction rows) auto

interpretation outbox_queue: claim_queue outbox_pending markOutboxProcessing
proof
  fix s i assume inv: "fab_inv s"
  let ?P = "\<lambda>b. ob_id b = i \<and> ob_state b = Outbox_PENDING"
  let ?f = "\<lambda>b. b\<lparr>ob_state := Outbox_PROCESSING, ob_attempts := ob_attempts b + 1\<rparr>"
  let ?t = "outbox_update (update_where ?P ?f) s"
  have keys: "distinct (map ob_id (outbox s))" using inv by (simp add: fab_inv_def inv_keys_def)
  have run: "markOutboxProcessing i s = Inr (outbox_pending s i, ?t)"
    using changes_pending(1)[OF keys, of i "\<lambda>b. ob_state b = Outbox_PENDING"]
    by (simp add: markOutboxProcessing_def outbox_pending_def upd_count_def upd_def change_def thn_def bnd_def
        reads_def ret_def)
  moreover have "fab_inv ?t" using store.safe_whenD[OF outbox_safe(1) inv TrueI run] fab_inv_run inv by blast
  moreover have "outbox_pending ?t j \<longleftrightarrow> outbox_pending s j \<and> j \<noteq> i" for j
    using claimed_rows[of "\<lambda>b. ob_state b = Outbox_PENDING" ?f ob_id j i "outbox s"] by (simp add: outbox_pending_def)
  ultimately show "\<exists>t. markOutboxProcessing i s = Inr (outbox_pending s i, t) \<and> fab_inv t \<and>
      (\<forall>j. outbox_pending t j \<longleftrightarrow> outbox_pending s j \<and> j \<noteq> i)" by blast
qed

interpretation intent_queue: claim_queue intent_pending "\<lambda>i. markResumeIntentProcessing i q" for q
proof
  fix s i assume inv: "fab_inv s"
  let ?now = "fst (timestamp (fab_host s))" and ?h = "snd (timestamp (fab_host s))"
  let ?P = "\<lambda>r. ri_id r = i \<and> ri_state r = Intent_PENDING"
  define f :: "intent_row \<Rightarrow> intent_row" where "f = (\<lambda>r. r\<lparr>ri_state := Intent_PROCESSING, ri_session := q,
    ri_attempts := ri_attempts r + 1, ri_updated_at := ?now, ri_last_error := None\<rparr>)"
  have keys: "distinct (map ri_id (intents s))" using inv by (simp add: fab_inv_def inv_keys_def)
  have "\<exists>t. markResumeIntentProcessing i q s = Inr (intent_pending s i, t) \<and> intents t = update_where ?P f (intents s)"
    using changes_pending(1)[OF keys, of i "\<lambda>r. ri_state r = Intent_PENDING"]
    by (cases "intent_pending s i")
      (simp_all add: markResumeIntentProcessing_def intent_pending_def f_def upd_count_def upd_def change_def
        thn_def bnd_def reads_def ret_def now_def split_beta Let_def move_continuation_of_def)
  then obtain t where run: "markResumeIntentProcessing i q s = Inr (intent_pending s i, t)"
    and t: "intents t = update_where ?P f (intents s)" by blast
  have "fab_inv t" using store.safe_whenD[OF markProcessing_safe inv TrueI run] fab_inv_run inv by blast
  moreover have "intent_pending t j \<longleftrightarrow> intent_pending s j \<and> j \<noteq> i" for j
    using claimed_rows[of "\<lambda>r. ri_state r = Intent_PENDING" f ri_id j i "intents s"]
    by (simp add: intent_pending_def t f_def)
  ultimately show "\<exists>t. markResumeIntentProcessing i q s = Inr (intent_pending s i, t) \<and> fab_inv t \<and>
      (\<forall>j. intent_pending t j \<longleftrightarrow> intent_pending s j \<and> j \<noteq> i)" using run by blast
qed

end
