(* ===== verification/Fabric_Samples.thy ===== *)
theory Fabric_Samples
  imports Fabric_History Fabric_Wakeup Fabric_Claims
begin

text \<open>
  Concrete databases for the witnesses: \<open>sample_store\<close> holds one Mission whose Lead runs.
\<close>

definition sample_lead :: lead_input where
  "sample_lead = \<lparr> li_principalId = ''lead'', li_kind = Managed_agent, li_provider = None,
     li_externalIdentity = None, li_displayName = ''Lead'', li_runtimeSessionId = ''rt'',
     li_terminalId = None, li_requestedRuntime = ''managed'', li_requestedModel = None \<rparr>"

definition sample_mission :: create_mission_input where
  "sample_mission = \<lparr> cm_workspaceId = ''w'', cm_workspaceRoot = ''/r'', cm_originTask = None,
     cm_title = ''T'', cm_goal = ''G'', cm_acceptance = None, cm_policy = None,
     cm_lead = sample_lead \<rparr>"

definition sample_empty :: fab where
  "sample_empty = empty_store sample_host [''w''] []"

text \<open>The database after a call that succeeds.\<close>

definition called :: "store_call \<Rightarrow> fab \<Rightarrow> fab" where
  "called c s = (case perform c s of Inl _ \<Rightarrow> s | Inr (_, t) \<Rightarrow> t)"

definition succeeds :: "store_call \<Rightarrow> fab \<Rightarrow> bool" where
  "succeeds c s = (case perform c s of Inl _ \<Rightarrow> False | Inr _ \<Rightarrow> True)"

lemma called_step: "succeeds c s \<Longrightarrow> (deletes c \<Longrightarrow> p) \<Longrightarrow> service_step p s (called c s)"
  by (auto simp: succeeds_def called_def intro: service_call split: sum.splits)

definition sample_store :: fab where
  "sample_store =
   \<lparr> missions =
       [\<lparr> ms_id = ''mission_'', ms_workspace_id = ''w'', ms_origin_task = None,
          ms_title = ''T'', ms_goal = ''G'', ms_acceptance = [],
          ms_policy = defaultMissionExecutionPolicy ''/r'',
          ms_state = Mission_RUNNING, ms_lead = Some ''assign_xx'', ms_version = 1,
          ms_created_at = 1000, ms_updated_at = 1000, ms_completed_at = None, ms_deleted_at = None \<rparr>],
     tasks = [new_task ''mtask_x'' ''mission_'' ''T'' ''G'' [] Shared_write Task_RUNNING 1000],
     dependencies = [],
     principals =
       [\<lparr> pr_id = ''lead'', pr_kind = Managed_agent, pr_provider = None, pr_external = None,
          pr_name = ''Lead'', pr_state = Principal_active, pr_created_at = 1000,
          pr_last_seen_at = Some 1000 \<rparr>,
        \<lparr> pr_id = ''user'', pr_kind = User_kind, pr_provider = None, pr_external = None,
          pr_name = ''You'', pr_state = Principal_active, pr_created_at = 1000,
          pr_last_seen_at = Some 1000 \<rparr>],
     assignments =
       [new_assignment ''assign_xx'' ''mission_'' ''mtask_x'' None ''lead'' ''attempt_xxx'' Assignment_ACTIVE 1000],
     attempts =
       [(planned_attempt ''attempt_xxx'' ''assign_xx'' 1 ''managed'' None)
          \<lparr> at_session := Some ''rt'', at_state := Attempt_RUNNING, at_started_at := Some 1000,
            at_heartbeat := Some 1000 \<rparr>],
     messages = [], message_seq = 0,
     events =
       [\<lparr> ev_id = ''mevent_xxxx'', ev_mission = ''mission_'', ev_sequence = 1,
          ev_type = ''mission.created'', ev_actor = Some ''lead'', ev_assignment = Some ''assign_xx'',
          ev_attempt = Some ''attempt_xxx'',
          ev_payload = JObj [(''originConversationTaskId'', JNull)], ev_created_at = 1001 \<rparr>],
     outbox = [], artifacts = [], runtime_sessions = [], runtime_events = [], deliveries = [],
     continuations = [], targets = [], intents = [], conversations = [], participants = [],
     requests = [], resolutions = [], incidents = [], workspaces = [''w''], session_tasks = [],
     fab_host = sample_host\<lparr> uuid_ctr := 5, clock_ctr := 2 \<rparr> \<rparr>"

text \<open>Two databases agree in every table and in the counters of their host.\<close>

definition same_contents :: "fab \<Rightarrow> fab \<Rightarrow> bool" where
  "same_contents s t \<longleftrightarrow>
     missions s = missions t \<and> tasks s = tasks t \<and> dependencies s = dependencies t \<and>
     principals s = principals t \<and> assignments s = assignments t \<and> attempts s = attempts t \<and>
     messages s = messages t \<and> message_seq s = message_seq t \<and> events s = events t \<and>
     outbox s = outbox t \<and> artifacts s = artifacts t \<and> runtime_sessions s = runtime_sessions t \<and>
     runtime_events s = runtime_events t \<and> deliveries s = deliveries t \<and>
     continuations s = continuations t \<and> targets s = targets t \<and> intents s = intents t \<and>
     conversations s = conversations t \<and> participants s = participants t \<and>
     requests s = requests t \<and> resolutions s = resolutions t \<and> incidents s = incidents t \<and>
     workspaces s = workspaces t \<and> session_tasks s = session_tasks t \<and>
     uuid_ctr (fab_host s) = uuid_ctr (fab_host t) \<and> clock_ctr (fab_host s) = clock_ctr (fab_host t)"

lemma same_contents_equal:
  assumes "same_contents s t" and "uuid_src (fab_host s) = uuid_src (fab_host t)"
    and "clock_src (fab_host s) = clock_src (fab_host t)"
  shows "s = t"
  by (rule fab.equality) (use assms in \<open>simp_all add: same_contents_def\<close>)

lemma moves_host:
  assumes "(store_move p)\<^sup>*\<^sup>* s t"
  shows "uuid_src (fab_host t) = uuid_src (fab_host s) \<and> clock_src (fab_host t) = clock_src (fab_host s)"
  using assms
proof (induction rule: rtranclp_induct)
  case (step t u)
  from step(2) show ?case using step(3) by (induction rule: store_move.induct) (auto simp: host_tick_def delete_missions_tables)
qed simp

lemma sample_empty_inv: "fab_inv sample_empty"
  unfolding sample_empty_def by (rule fab_inv_empty[OF sample_host_ok])

lemma sample_created:
  "case createMission sample_mission sample_empty of Inl _ \<Rightarrow> False | Inr (_, t) \<Rightarrow> same_contents t sample_store"
  by code_simp

lemma sample_step: "service_step p sample_empty sample_store"
proof -
  obtain r t where run: "createMission sample_mission sample_empty = Inr (r, t)"
    and same: "same_contents t sample_store"
    using sample_created by (auto split: sum.splits)
  have step: "service_step p sample_empty t"
    by (rule service_call[where c = "Call_Create_mission sample_mission"]) (simp_all add: run discard_def bnd_def ret_def)
  have "uuid_src (fab_host t) = uuid_src sample_host \<and> clock_src (fab_host t) = clock_src sample_host"
    using moves_host[OF service_step_moves[OF step sample_empty_inv]]
    by (simp add: sample_empty_def empty_store_def)
  then have "t = sample_store"
    by (intro same_contents_equal[OF same]) (simp_all add: sample_store_def)
  then show ?thesis using step by simp
qed

lemma sample_inv: "fab_inv sample_store"
  using fab_inv_run[OF service_step_moves[OF sample_step sample_empty_inv] sample_empty_inv] .

lemma sample_reach: "store_reach sample_host sample_store"
proof (rule reach_step)
  show "store_reach sample_host sample_empty" unfolding sample_empty_def by (rule reach_empty)
qed (rule sample_step)

lemma sample_mission_row: "map_option ms_state (getMission ''mission_'' sample_store) = Some Mission_RUNNING"
  by code_simp

lemma sample_attempt_row: "map_option at_state (getAttempt ''attempt_xxx'' sample_store) = Some Attempt_RUNNING"
  by code_simp

section \<open>A wait whose condition holds\<close>

text \<open>The Lead waits until its own Assignment is paused, and is paused.\<close>

definition sample_arm :: arm_input where
  "sample_arm = \<lparr> ar_mission = ''mission_'', ar_owner = ''assign_xx'', ar_attempt = ''attempt_xxx'',
     ar_mode = Mode_all, ar_conditions = [Terminal_condition ''assign_xx'' (Some [Assignment_PAUSED])],
     ar_reason = ''r'', ar_cursor = None, ar_deadline = None, ar_key = ''k'' \<rparr>"

definition sample_armed :: fab where
  "sample_armed = called (Call_Arm_continuation sample_arm) sample_store"

definition sample_paused :: fab where
  "sample_paused = called (Call_Pause_assignment ''assign_xx'' True None) sample_armed"

lemma sample_armed_ok: "succeeds (Call_Arm_continuation sample_arm) sample_store"
  by code_simp

lemma sample_paused_ok: "succeeds (Call_Pause_assignment ''assign_xx'' True None) sample_armed"
  by code_simp

lemma sample_paused_reach: "store_reach sample_host sample_paused"
  unfolding sample_paused_def sample_armed_def
  by (rule reach_step, rule reach_step, rule sample_reach, rule called_step, rule sample_armed_ok, simp,
      rule called_step, rule sample_paused_ok[unfolded sample_armed_def], simp)

section \<open>Delegated work\<close>

definition sample_entry :: "string \<Rightarrow> string option \<Rightarrow> string list \<Rightarrow> delegate_input" where
  "sample_entry key batch needs = \<lparr> di_mission = ''mission_'', di_supervisor = ''assign_xx'', di_actor = ''lead'',
     di_goal = ''g'', di_title = None, di_acceptance = [], di_dependencies = None,
     di_expectedArtifacts = None, di_runtime = ''managed'', di_model = None, di_workMode = Read_only,
     di_writeScope = None, di_reason = ''r'', di_key = key, di_batchKey = batch,
     di_dependsOnKeys = Some needs \<rparr>"

text \<open>The first entry depends on the second.\<close>

definition sample_batch :: "delegate_input list" where
  "sample_batch = [sample_entry ''k1'' (Some ''b'') [''a''], sample_entry ''k2'' (Some ''a'') []]"

lemma sample_delegation:
  "\<exists>r t. delegate (sample_entry ''k'' None []) sample_store = Inr (r, t) \<and> fab_inv t \<and>
     outbox_pending t ''outbox_xxxxxxxxx'' \<and> \<not> outbox_pending t ''no''"
proof -
  have "case delegate (sample_entry ''k'' None []) sample_store of Inl _ \<Rightarrow> False
    | Inr (_, t) \<Rightarrow> outbox_pending t ''outbox_xxxxxxxxx'' \<and> \<not> outbox_pending t ''no''" by code_simp
  then obtain r t where run: "delegate (sample_entry ''k'' None []) sample_store = Inr (r, t)"
    and pending: "outbox_pending t ''outbox_xxxxxxxxx''" "\<not> outbox_pending t ''no''"
    by (auto split: sum.splits)
  have "service_step False sample_store t"
    by (rule service_call[where c = "Call_Delegate (sample_entry ''k'' None [])"])
      (simp_all add: run discard_def bnd_def ret_def)
  then have "fab_inv t" using fab_inv_run[OF service_step_moves sample_inv] sample_inv by blast
  then show ?thesis using run pending by blast
qed

text \<open>The Lead reports that its own work is complete.\<close>

definition sample_complete :: complete_input where
  "sample_complete = \<lparr> ci_attempt = ''attempt_xxx'', ci_principal = ''lead'',
     ci_success = True, ci_summary = ''s'', ci_result = None, ci_artifacts = None,
     ci_verification = None, ci_filesModified = None \<rparr>"

end
