(* ===== verification/Fabric_Effects.thy ===== *)
theory Fabric_Effects
  imports Fabric_Wakeup Fabric_Control
begin

text \<open>
  The effect of single operations: a report without authority, a repeated delegation, the
  promotion of tasks, an explicit Mission state and the retention of Missions.
\<close>

section \<open>Suppressed messages\<close>

definition same_waits :: "fab \<Rightarrow> fab \<Rightarrow> bool" where
  "same_waits s t \<longleftrightarrow> continuations t = continuations s \<and> intents t = intents s \<and>
     targets t = targets s \<and> messages t = messages s"

interpretation quiet: tx_relation same_waits "\<lambda>_. True"
  by unfold_locales (auto simp: same_waits_def)

lemma quiet_statements:
  "quiet.safe (insert_conversation r1)" "quiet.safe (insert_delivery r2)"
  "quiet.safe (upd conversations_update Q1 f1)" "quiet.safe (upd participants_update Q2 f2)"
  "quiet.safe (change (participants_update g))"
  "quiet.safe (requireConversation i)" "quiet.safe (requireAssignment i)" "quiet.safe (assignment_if j)"
  by (auto simp: quiet.safe_when_def insert_conversation_def insert_delivery_def insert_row_run tx_simps
      same_waits_def requireConversation_def requireAssignment_def assignment_if_def bnd_run
      split: option.splits if_splits)

lemma quiet_message_parts:
  "quiet.safe (ensureConversation m r topic c th)" "quiet.safe (add_message_end v a t)"
  unfolding ensureConversation_def add_message_end_def addConversationParticipant_def
  by (intro quiet.safe_rules quiet_statements)+

lemma insert_message_row_run:
  assumes "insert_message_row r s = Inr ((), t)"
  shows "t = s\<lparr>messages := messages s @ [r\<lparr>mg_sequence := Suc (message_seq s)\<rparr>], message_seq := Suc (message_seq s)\<rparr> \<and>
    mg_id r \<notin> mg_id ` set (messages s)"
  using assms by (auto simp: insert_message_row_def insert_row_run thn_run tx_simps new_key_def)

lemma insertMessage_suppressed:
  assumes run: "insertMessage input (Some r) s = Inr (m, t)" and "r \<noteq> []"
  shows "same_work s t \<and> continuations t = continuations s \<and> intents t = intents s \<and>
    targets t = targets s \<and> mg_suppressed_at m \<noteq> None \<and> mg_suppression_reason m = Some r"
proof -
  have truth: "truthy (Some r)" using assms(2) by (simp add: truthy_def)
  obtain i s1 t0 s2 creator s3 conversation s4 s5 s6 s7 s8 where
    fresh: "fresh ''message'' s = Inr (i, s1)" and clock: "now s1 = Inr (t0, s2)"
    and creator: "assignment_if (mi_from input) s2 = Inr (creator, s3)"
    and conv: "ensureConversation (mi_mission input) (mi_conversation input) (mi_subject input)
      (map_option as_assignee creator) (mi_thread input) s3 = Inr (conversation, s4)"
    and row: "insert_message_row
            \<lparr> mg_id = i, mg_mission = mi_mission input, mg_conversation = Some (cv_id conversation),
              mg_request = mi_request input, mg_from = mi_from input, mg_to = mi_to input,
              mg_thread = mi_thread input, mg_attempt = mi_attempt input, mg_type = mi_type input,
              mg_priority = or_else Prio_normal (mi_priority input), mg_subject = mi_subject input,
              mg_body = or_else [] (mi_body input), mg_payload = map_option JObj (mi_payload input),
              mg_sequence = 0, mg_created_at = t0, mg_delivered_at = None, mg_read_at = None,
              mg_suppressed_at = Some t0, mg_suppression_reason = Some r \<rparr> s4 = Inr ((), s5)"
    and ends: "add_message_end (cv_id conversation) (mi_from input) t0 s5 = Inr ((), s6)"
      "add_message_end (cv_id conversation) (mi_to input) t0 s6 = Inr ((), s7)"
    and touch: "upd conversations_update (\<lambda>c. cv_id c = cv_id conversation) (\<lambda>c. c\<lparr>cv_updated_at := t0\<rparr>) s7 = Inr ((), s8)"
    and m: "getMessage i s8 = Some m" and t: "t = s8"
    using run unfolding insertMessage_def
    by (elim bnd_runE thn_runE) (auto simp: truth when_tx_def tx_simps)
  have "same_waits s s4"
    using quiet.compose[OF quiet.compose[OF quiet.compose[OF
        quiet.safe_whenD[OF quiet.safe_fresh TrueI TrueI fresh]
        quiet.safe_whenD[OF quiet.safe_now TrueI TrueI clock]]
        quiet.safe_whenD[OF quiet_statements(8) TrueI TrueI creator]]
        quiet.safe_whenD[OF quiet_message_parts(1) TrueI TrueI conv]] .
  note before = this
  have after: "same_waits s5 s8"
    using quiet.compose[OF quiet.compose[OF
        quiet.safe_whenD[OF quiet_message_parts(2) TrueI TrueI ends(1)]
        quiet.safe_whenD[OF quiet_message_parts(2) TrueI TrueI ends(2)]]
        quiet.safe_whenD[OF quiet_statements(3) TrueI TrueI touch]] .
  note written = insert_message_row_run[OF row]
  define q where "q = last (messages s5)"
  have q: "messages s5 = messages s4 @ [q]" "mg_id q = i" "mg_id q \<notin> mg_id ` set (messages s4)"
    "mg_suppressed_at q \<noteq> None" "mg_suppression_reason q = Some r"
    using written by (simp_all add: q_def)
  have waits: "continuations s5 = continuations s4" "intents s5 = intents s4" "targets s5 = targets s4"
    using written by simp_all
  have "find (\<lambda>r. mg_id r = i) (messages s4) = None" using q(3) unfolding q(2) find_None_iff by auto
  then have "find (\<lambda>r. mg_id r = i) (messages s4 @ [q]) = Some q" using q(2) by (simp add: find_append)
  then have "m = q" using m after q(1) by (simp add: getMessage_def same_waits_def)
  then show ?thesis
    using work.safe_whenD[OF work_insertMessage TrueI TrueI run] before after waits q(4,5) t
    by (simp add: same_waits_def)
qed

section \<open>Delegation\<close>

lemma delegateResult_run:
  "delegateResult i b s = Inr (r, t) \<longleftrightarrow> t = s \<and> (\<exists>a k e j. getAssignment i s = Some a \<and>
     find (\<lambda>k. tk_id k = as_task a) (tasks s) = Some k \<and> as_active_attempt a = Some j \<and>
     getAttempt j s = Some e \<and> r = \<lparr>dr_mission = as_mission a, dr_task = k, dr_assignment = a,
       dr_attempt = e, dr_reused = b, dr_batchKey = None\<rparr>)"
  by (auto simp: delegateResult_def requireAssignment_def requireTask_def requireAttempt_def bnd_run tx_simps
      split: option.splits)

lemma insert_delegation_outbox:
  assumes "insert_delegation input mission supervisor deps ready t taskId assignmentId attemptId principalId s
    = Inr ((), u)"
  shows "outbox_aggregate (ms_id mission) Start_runtime (di_key input) u = Some assignmentId"
proof -
  let ?K = "\<lambda>s'. outbox s' = outbox s"
  obtain s1 s2 s3 s4 s5 s6 i s7 ev where
    run: "upsertPrincipal ev s = Inr ((), s1)" and rest: "\<exists>k. insert_task k s1 = Inr ((), s2)"
      "each_tx (\<lambda>d. insert_dependency \<lparr> dp_task = taskId, dp_on = d, dp_created_at = t \<rparr>) deps s2 = Inr ((), s3)"
      "\<exists>a. insert_assignment a s3 = Inr ((), s4)" "\<exists>e. insert_attempt e s4 = Inr ((), s5)"
      "fresh ''outbox'' s5 = Inr (i, s6)"
    and ob: "insert_outbox (pending_outbox i (ms_id mission) Start_runtime assignmentId (di_key input)
            [(''assignmentId'', JStr assignmentId), (''attemptId'', JStr attemptId),
             (''reason'', JStr (di_reason input))] t) s6 = Inr ((), s7)"
    and event: "\<exists>ty a b c p. appendEvent (ms_id mission) ty a b c p s7 = Inr ((), u)"
    using assms unfolding insert_delegation_def by (elim bnd_runE thn_runE) blast
  let ?b = "pending_outbox i (ms_id mission) Start_runtime assignmentId (di_key input)
            [(''assignmentId'', JStr assignmentId), (''attemptId'', JStr attemptId),
             (''reason'', JStr (di_reason input))] t"
  have "outbox s7 = outbox s6 @ [?b]" "outbox_unique (outbox s6) ?b"
    using ob by (auto simp: insert_outbox_def insert_row_run)
  moreover have "outbox u = outbox s7" using event work_same(7)[OF work_appendEvent] by blast
  moreover have "find (\<lambda>b. ob_mission b = ms_id mission \<and> ob_operation b = Start_runtime \<and> ob_key b = di_key input)
      (outbox s6) = None"
    using \<open>outbox_unique (outbox s6) ?b\<close> unfolding find_None_iff
    by (force simp: outbox_unique_def new_key_def pending_outbox_def)
  ultimately show ?thesis by (simp add: outbox_aggregate_def find_append pending_outbox_def)
qed

lemma warn_overlap_outbox: "warn_overlap input m a i e s = Inr ((), u) \<Longrightarrow> outbox u = outbox s"
proof -
  have "work.safe (warn_overlap input m a i e)"
    unfolding warn_overlap_def Let_def by (intro work.safe_rules work_frame)
  then show "warn_overlap input m a i e s = Inr ((), u) \<Longrightarrow> outbox u = outbox s" by (rule work_same(7))
qed

lemma delegation_guard_mission:
  "delegation_guard input s = Inr ((m, a), t) \<Longrightarrow> ms_id m = di_mission input"
  by (auto simp: delegation_guard_def bnd_run thn_run requireMission_def requireAssignment_def tx_simps
      dest: getMission_id)

lemma delegateOne_result:
  assumes run: "delegateOne input s = Inr (r, t)"
  obtains i b where "outbox_aggregate (di_mission input) Start_runtime (di_key input) t = Some i"
    and "delegateResult i b t = Inr (r, t)"
proof (cases "outbox_aggregate (di_mission input) Start_runtime (di_key input) s")
  case (Some i)
  then have "delegateResult i True s = Inr (r, t)" using run by (simp add: delegateOne_def)
  moreover from this have "t = s" by (simp add: delegateResult_run)
  ultimately show thesis using that Some by blast
next
  case None
  obtain m a s1 u v i e ts tk pr d g where guard: "delegation_guard input s = Inr ((m, a), s1)"
    and ins: "insert_delegation input m a d g ts tk i e pr u = Inr ((), v)"
    and rest: "thn (warn_overlap input m a i e) (delegateResult i False) v = Inr (r, t)"
    using run None unfolding delegateOne_def Let_def
    by (simp only: bnd_reads option.case) (elim bnd_runE thn_runE, fastforce elim: bnd_runE thn_runE split: prod.splits)
  then obtain w where "warn_overlap input m a i e v = Inr ((), w)" "delegateResult i False w = Inr (r, t)"
    by (elim thn_runE)
  then have "t = w" "outbox w = outbox v" by (auto simp: delegateResult_run dest: warn_overlap_outbox)
  then have "outbox_aggregate (di_mission input) Start_runtime (di_key input) t = Some i"
    using insert_delegation_outbox[OF ins] delegation_guard_mission[OF guard] by (simp add: outbox_aggregate_def)
  then show thesis using that \<open>t = w\<close> \<open>delegateResult i False w = Inr (r, t)\<close> by blast
qed

lemma delegateOne_repeated:
  assumes run: "delegateOne input s = Inr (r, t)"
    and same: "di_mission input' = di_mission input" "di_key input' = di_key input"
  shows "delegateOne input' t = Inr (r\<lparr>dr_reused := True\<rparr>, t)"
proof -
  obtain i b where key: "outbox_aggregate (di_mission input) Start_runtime (di_key input) t = Some i"
    and res: "delegateResult i b t = Inr (r, t)"
    using run by (rule delegateOne_result)
  then have "delegateResult i True t = Inr (r\<lparr>dr_reused := True\<rparr>, t)" by (auto simp: delegateResult_run)
  then show ?thesis using key same by (simp add: delegateOne_def)
qed

section \<open>Promotion of tasks\<close>

definition ready_task :: "int \<Rightarrow> task_row \<Rightarrow> task_row" where
  "ready_task t k = k\<lparr> tk_state := Task_READY, tk_updated_at := t, tk_version := tk_version k + 1 \<rparr>"

text \<open>The tasks a completion releases: blocked, dependent on it, and nothing else incomplete.\<close>

definition released_by :: "string \<Rightarrow> string \<Rightarrow> fab \<Rightarrow> task_row \<Rightarrow> bool" where
  "released_by m c s k \<longleftrightarrow> tk_mission k = m \<and> tk_state k = Task_BLOCKED \<and>
     (\<exists>d\<in>set (dependencies s). dp_task d = tk_id k \<and> dp_on d = c) \<and>
     incomplete_dependencies (tk_id k) s = 0"

lemma incomplete_same:
  assumes "dependencies u = dependencies s"
    and "\<And>i. (\<exists>k\<in>set (tasks u). tk_id k = i \<and> tk_state k \<noteq> Task_COMPLETED) \<longleftrightarrow>
             (\<exists>k\<in>set (tasks s). tk_id k = i \<and> tk_state k \<noteq> Task_COMPLETED)"
  shows "incomplete_dependencies i u = incomplete_dependencies i s"
  unfolding incomplete_dependencies_def assms(1) assms(2) ..

lemma promote_candidate_run:
  assumes "promote_candidate m t k s = Inr ((), u)"
  shows "dependencies u = dependencies s \<and>
    tasks u = update_where (\<lambda>r. tk_id r = tk_id k \<and> incomplete_dependencies (tk_id r) s = 0) (ready_task t) (tasks s)"
proof (cases "incomplete_dependencies (tk_id k) s = 0")
  case False
  then have "u = s" using assms by (simp add: promote_candidate_def when_tx_def tx_simps)
  moreover have "update_where (\<lambda>r. tk_id r = tk_id k \<and> incomplete_dependencies (tk_id r) s = 0) (ready_task t) (tasks s) =
      tasks s"
    by (rule update_where_none) (use False in auto)
  ultimately show ?thesis by simp
next
  case True
  have ready: "ready_task t = (\<lambda>k. k\<lparr> tk_state := Task_READY, tk_updated_at := t, tk_version := tk_version k + 1 \<rparr>)"
    by (simp add: fun_eq_iff ready_task_def)
  obtain Q g ty p where app: "appendEvent m ty None None None p
      (outbox_update (update_where Q g) (tasks_update (update_where (\<lambda>r. tk_id r = tk_id k) (ready_task t)) s)) = Inr ((), u)"
    using assms True unfolding ready by (auto simp: promote_candidate_def when_tx_def bnd_run thn_run tx_simps)
  define v where "v = outbox_update (update_where Q g) (tasks_update (update_where (\<lambda>r. tk_id r = tk_id k) (ready_task t)) s)"
  have v: "dependencies v = dependencies s" "tasks v = update_where (\<lambda>r. tk_id r = tk_id k) (ready_task t) (tasks s)"
    by (simp_all add: v_def)
  have "update_where (\<lambda>r. tk_id r = tk_id k) (ready_task t) (tasks s) =
      update_where (\<lambda>r. tk_id r = tk_id k \<and> incomplete_dependencies (tk_id r) s = 0) (ready_task t) (tasks s)"
    using True by (auto simp: update_where_def)
  then show ?thesis using work_same(2,3)[OF work_appendEvent app] v unfolding v_def by simp
qed

lemma bex_update_where:
  "(\<And>r. r \<in> set rows \<Longrightarrow> P r \<Longrightarrow> Q (f r) = Q r) \<Longrightarrow> (\<exists>k\<in>set (update_where P f rows). Q k) \<longleftrightarrow> (\<exists>k\<in>set rows. Q k)"
  by (induction rows) auto

lemma promote_each:
  assumes "each_tx (promote_candidate m t) ks s = Inr ((), u)" and "distinct (map tk_id ks)"
    and "\<forall>r\<in>set (tasks s). tk_id r \<in> tk_id ` set ks \<longrightarrow> tk_state r = Task_BLOCKED"
  shows "tasks u = update_where (\<lambda>r. tk_id r \<in> tk_id ` set ks \<and> incomplete_dependencies (tk_id r) s = 0)
    (ready_task t) (tasks s)"
  using assms
proof (induction ks arbitrary: s)
  case Nil
  then show ?case by (simp add: tx_simps update_where_def)
next
  case (Cons k ks)
  then obtain v where run: "promote_candidate m t k s = Inr ((), v)" "each_tx (promote_candidate m t) ks v = Inr ((), u)"
    by (auto simp: thn_run)
  let ?P = "\<lambda>r. tk_id r = tk_id k \<and> incomplete_dependencies (tk_id r) s = 0"
  have v: "dependencies v = dependencies s" "tasks v = update_where ?P (ready_task t) (tasks s)"
    using promote_candidate_run[OF run(1)] by simp_all
  have inc: "incomplete_dependencies i v = incomplete_dependencies i s" for i
  proof (rule incomplete_same[OF v(1)])
    fix i
    show "(\<exists>k\<in>set (tasks v). tk_id k = i \<and> tk_state k \<noteq> Task_COMPLETED) \<longleftrightarrow>
        (\<exists>k\<in>set (tasks s). tk_id k = i \<and> tk_state k \<noteq> Task_COMPLETED)"
      unfolding v(2) by (rule bex_update_where) (use Cons.prems(3) in \<open>auto simp: ready_task_def\<close>)
  qed
  have blocked: "\<forall>r\<in>set (tasks v). tk_id r \<in> tk_id ` set ks \<longrightarrow> tk_state r = Task_BLOCKED"
    using Cons.prems(2,3) unfolding v(2) set_update_where by (auto simp: ready_task_def)
  have "tasks u = update_where (\<lambda>r. tk_id r \<in> tk_id ` set ks \<and> incomplete_dependencies (tk_id r) s = 0)
      (ready_task t) (update_where ?P (ready_task t) (tasks s))"
    using Cons.IH[OF run(2) _ blocked] Cons.prems(2) by (simp add: inc v(2))
  also have "\<dots> = update_where (\<lambda>r. tk_id r \<in> tk_id ` set (k # ks) \<and> incomplete_dependencies (tk_id r) s = 0)
      (ready_task t) (tasks s)"
    using Cons.prems(2) by (auto simp: update_where_def ready_task_def)
  finally show ?case .
qed

lemma promoteReady_tasks:
  assumes run: "promoteReadyTasks m c t s = Inr ((), u)" and inv: "fab_inv s"
  shows "tasks u = update_where (released_by m c s) (ready_task t) (tasks s)"
proof -
  let ?ks = "promotion_candidates m c s"
  have loop: "each_tx (promote_candidate m t) ?ks s = Inr ((), u)" using run by (simp add: promoteReadyTasks_def)
  have keys: "distinct (map tk_id (tasks s))" using inv by (simp add: fab_inv_def inv_keys_def)
  then have dist: "distinct (map tk_id ?ks)" by (simp add: promotion_candidates_def distinct_map_filter)
  have member: "tk_id r \<in> tk_id ` set ?ks \<longleftrightarrow> r \<in> set ?ks" if "r \<in> set (tasks s)" for r
    using keys that by (auto simp: promotion_candidates_def distinct_map dest: inj_onD)
  have "tasks u = update_where (\<lambda>r. tk_id r \<in> tk_id ` set ?ks \<and> incomplete_dependencies (tk_id r) s = 0)
      (ready_task t) (tasks s)"
    by (rule promote_each[OF loop dist]) (use member in \<open>auto simp: promotion_candidates_def\<close>)
  also have "\<dots> = update_where (released_by m c s) (ready_task t) (tasks s)"
    unfolding update_where_def using member
    by (auto simp: promotion_candidates_def released_by_def)
  finally show ?thesis .
qed

section \<open>Explicit Mission states\<close>

lemma requireMission_run: "requireMission i s = (case getMission i s of
    None \<Rightarrow> Inl (Fab_failure ''ORCHESTRATION_MISSION_NOT_FOUND'') | Some m \<Rightarrow> Inr (m, s))"
  by (simp add: requireMission_def require_row_def)

lemma update_mission_get:
  assumes "getMission i s = Some m" and "\<And>q. ms_id (f q) = ms_id q"
  shows "getMission i (missions_update (update_where (\<lambda>q. ms_id q = i) f) s) = Some (f m)"
proof -
  have "find (\<lambda>r. ms_id r = i) (update_where (\<lambda>q. ms_id q = i) f rows) = Some (f m)"
    if "find (\<lambda>r. ms_id r = i) rows = Some m" for rows
    using that assms(2) by (induction rows) (auto split: if_splits)
  then show ?thesis using assms(1) by (simp add: getMission_def)
qed

lemma setMissionState_moves:
  assumes inv: "fab_inv s" and m: "getMission i s = Some m" and "ms_state m \<noteq> st"
    and legal: "st \<in> set (MISSION_TRANSITIONS (ms_state m))"
  shows "\<exists>t m'. setMissionState i st actor r s = Inr (m', t) \<and> getMission i t = Some m' \<and> ms_state m' = st \<and>
    ms_version m' = ms_version m + 1 \<and> (ms_completed_at m' = None \<longleftrightarrow> st \<notin> set TERMINAL_MISSION_STATES)"
proof -
  define c where "c = fst (timestamp (fab_host s))"
  define h where "h = snd (timestamp (fab_host s))"
  define f :: "mission_row \<Rightarrow> mission_row" where "f = (\<lambda>m. m\<lparr> ms_state := st, ms_version := ms_version m + 1,
    ms_updated_at := c, ms_completed_at := (if st \<in> set TERMINAL_MISSION_STATES then Some c else None) \<rparr>)"
  define u where "u = missions_update (update_where (\<lambda>m. ms_id m = i) f) (s\<lparr>fab_host := h\<rparr>)"
  have get: "getMission i u = Some (f m)"
    unfolding u_def by (rule update_mission_get) (use m in \<open>simp_all add: getMission_def f_def\<close>)
  have inv_h: "fab_inv (s\<lparr>fab_host := h\<rparr>)"
    unfolding h_def using fab_inv_step[OF step_host[OF host_tick_timestamp] inv] .
  have same: "r = m" if "r \<in> set (missions s)" "ms_id r = i" for r using the_row(1)[OF inv m that] .
  have "store_step (s\<lparr>fab_host := h\<rparr>) u"
    unfolding u_def where_eqs
    by (rule step_missions, rule list_all2_update_where)
      (use same legal in \<open>auto simp: mission_change_def f_def\<close>)
  then have inv_u: "fab_inv u" using fab_inv_step inv_h by blast
  have "is_mission u i" using get by (auto simp: getMission_def key_of_def dest: find_key_SomeD)
  then obtain t where t: "appendEvent i (''mission.'' @ mission_state_text st) actor None None
      [(''reason'', JStr r)] u = Inr ((), t)"
    using appendEvent_returns[OF inv_u, of i None None] by (fastforce simp: opt_key_of_def)
  have "getMission i t = Some (f m)" using get work_same(1)[OF work_appendEvent t] by (simp add: getMission_def)
  moreover have "setMissionState i st actor r s = Inr (f m, t)"
    using m assms(3) legal t \<open>getMission i t = Some (f m)\<close>
    by (cases "st \<in> set TERMINAL_MISSION_STATES")
      (simp_all add: setMissionState_def bnd_def thn_def requireMission_run now_def split_beta Let_def upd_def change_def
        illegal_transition_guard_def assertMissionTransition_def assertAllowed_def ret_def u_def f_def c_def h_def)
  ultimately show ?thesis by (simp add: f_def)
qed

lemma setMissionState_error:
  assumes "getMission i s = Some m" and "ms_state m \<noteq> st" and "st \<notin> set (MISSION_TRANSITIONS (ms_state m))"
  shows "setMissionState i st actor r s = Inl (Fab_failure ''ORCHESTRATION_ILLEGAL_TRANSITION'')"
  using assms
  by (simp add: setMissionState_def bnd_def thn_def requireMission_run illegal_transition_guard_def
      assertMissionTransition_def assertAllowed_def failure_def throw_def)

section \<open>Retention\<close>

lemma deleted_missions:
  assumes "getMission i s = Some m"
  shows "set (del_missions (deletion_of (\<lambda>m. ms_id m = i) s)) = {i}"
  using assms find_key_SomeD[of ms_id i "missions s" m]
  by (auto simp: deletion_of_def gone_def getMission_def Let_def)

lemma deletion_leaves_nothing:
  assumes "getMission i s = Some m" and t: "t = delete_missions (\<lambda>m. ms_id m = i) s"
  shows "getMission i t = None" "\<forall>k\<in>set (tasks t). tk_mission k \<noteq> i" "\<forall>a\<in>set (assignments t). as_mission a \<noteq> i"
    "\<forall>r\<in>set (messages t). mg_mission r \<noteq> i" "\<forall>e\<in>set (events t). ev_mission e \<noteq> i"
    "\<forall>b\<in>set (outbox t). ob_mission b \<noteq> i" "\<forall>a\<in>set (artifacts t). af_mission a \<noteq> i"
    "\<forall>c\<in>set (continuations t). cn_mission c \<noteq> i" "\<forall>r\<in>set (intents t). ri_mission r \<noteq> i"
    "\<forall>c\<in>set (conversations t). cv_mission c \<noteq> i" "\<forall>r\<in>set (requests t). rq_mission r \<noteq> i"
    "\<forall>n\<in>set (incidents t). ic_mission n \<noteq> i"
    "missions t = filter (\<lambda>m. ms_id m \<noteq> i) (missions s)"
  using deleted_missions[OF assms(1)]
  by (auto simp: t delete_missions_tables getMission_def find_None_iff)

section \<open>Reports\<close>

definition unauthorised :: "assignment_row \<Rightarrow> attempt_row \<Rightarrow> string \<Rightarrow> bool" where
  "unauthorised a e p \<longleftrightarrow> as_assignee a \<noteq> p \<or> as_active_attempt a \<noteq> Some (at_id e) \<or>
     at_state e \<notin> {Attempt_STARTING, Attempt_RUNNING, Attempt_WAITING}"

lemma authority_reason:
  "(\<exists>r. lifecycleAuthority a e p = Some r \<and> r \<noteq> []) \<longleftrightarrow> unauthorised a e p"
  "lifecycleAuthority a e p = None \<longleftrightarrow> \<not> unauthorised a e p"
  by (auto simp: lifecycleAuthority_def unauthorised_def)

lemma report_unauthorised:
  assumes "lifecycle_report i p msg acc s = Inr (res, t)" and "getAttempt i s = Some e"
    and "getAssignment (at_assignment e) s = Some a" and "unauthorised a e p"
  shows "same_work s t \<and> continuations t = continuations s \<and> intents t = intents s \<and> targets t = targets s \<and>
    (\<exists>m r. res = Suppressed m r \<and> mg_suppression_reason m = Some r)"
proof -
  obtain r where r: "lifecycleAuthority a e p = Some r" "r \<noteq> []" using assms(4) authority_reason(1) by blast
  obtain m u where "insertMessage (msg a) (Some r) s = Inr (m, u)" "t = u" "res = Suppressed m r"
    using assms(1-3) r
    by (auto simp: lifecycle_report_def requireAttempt_def requireAssignment_def bnd_run tx_simps Let_def)
  then show ?thesis using insertMessage_suppressed[OF _ r(2)] by blast
qed

lemma report_accepted:
  assumes "lifecycle_report i p msg acc s = Inr (Accepted m a' k, t)" and "getAttempt i s = Some e"
    and "getAssignment (at_assignment e) s = Some a"
  shows "lifecycleAuthority a e p = None \<and>
    (\<exists>m' u. insertMessage (msg a) None s = Inr (m', u) \<and> acc e a m' u = Inr (Accepted m a' k, t))"
  using assms
  by (auto simp: lifecycle_report_def requireAttempt_def requireAssignment_def bnd_run tx_simps Let_def
      split: option.splits)

section \<open>Completion\<close>

text \<open>Everything after the task tables of a completion leaves them alone.\<close>

definition same_tasks :: "fab \<Rightarrow> fab \<Rightarrow> bool" where
  "same_tasks s t \<longleftrightarrow> tasks t = tasks s \<and> dependencies t = dependencies s"

interpretation tasked: tx_relation same_tasks "\<lambda>_. True"
  by unfold_locales (auto simp: same_tasks_def)

lemma work_tasked: "work.safe m \<Longrightarrow> tasked.safe m"
  by (auto simp: work.safe_when_def tasked.safe_when_def same_work_def same_tasks_def)

lemma tasked_updates:
  "tasked.safe (upd missions_update Q1 f1)" "tasked.safe (upd assignments_update Q2 f2)"
  "tasked.safe (upd attempts_update Q3 f3)" "tasked.safe (upd incidents_update Q4 f4)"
  by (auto simp: tasked.safe_when_def tx_simps same_tasks_def)

lemma completion_rest:
  "tasked.safe (reconcileMissionState m t)"
  unfolding reconcileMissionState_def
  by (intro tasked.safe_rules tasked_updates work_tasked[OF work_lookups(1)] work_tasked[OF work_appendEvent])

definition completed_task :: "complete_input \<Rightarrow> int \<Rightarrow> task_row \<Rightarrow> task_row" where
  "completed_task input t k = k\<lparr> tk_state := Task_COMPLETED, tk_result := Some (complete_result input),
     tk_version := tk_version k + 1, tk_updated_at := t, tk_completed_at := Some t \<rparr>"

lemma write_completion_tasks:
  assumes "write_completion input e a t s = Inr ((), u)" and "ci_success input"
  shows "tasks u = update_where (\<lambda>k. tk_id k = as_task a) (completed_task input t) (tasks s) \<and>
    dependencies u = dependencies s"
proof -
  have done': "completed_task input t = (\<lambda>k. k\<lparr> tk_state := Task_COMPLETED, tk_result := Some (complete_result input),
     tk_version := tk_version k + 1, tk_updated_at := t, tk_completed_at := Some t \<rparr>)"
    by (simp add: fun_eq_iff completed_task_def)
  obtain Q g R h xs where run: "collect_tx (insert_artifact_for (as_mission a) (as_id a) (Some (at_id e)) t)
      (completion_artifacts input) (tasks_update (update_where (\<lambda>k. tk_id k = as_task a) (completed_task input t))
        (assignments_update (update_where Q g) (attempts_update (update_where R h) s))) = Inr (xs, u)"
    using assms unfolding done'
    by (auto simp: write_completion_def Let_def thn_run bnd_run tx_simps)
  have art: "tasked.safe (collect_tx (insert_artifact_for (as_mission a) (as_id a) (Some (at_id e)) t) (completion_artifacts input))"
    by (intro tasked.safe_collect work_tasked[OF work_artifact])
  then show ?thesis using tasked.safe_whenD[OF art TrueI TrueI run] by (simp add: same_tasks_def)
qed

lemma completion_releases:
  assumes inv: "fab_inv s" and run: "completeAttempt input s = Inr (Accepted msg a' k', t)" and ok: "ci_success input"
    and e: "getAttempt (ci_attempt input) s = Some e" and a: "getAssignment (at_assignment e) s = Some a"
  shows "\<exists>u c. tasks u = update_where (\<lambda>k. tk_id k = as_task a) (completed_task input c) (tasks s) \<and>
    dependencies u = dependencies s \<and>
    tasks t = update_where (released_by (as_mission a) (as_task a) u) (ready_task c) (tasks u)"
proof -
  note accepted = report_accepted[OF run[unfolded completeAttempt_def] e a]
  then have live: "\<not> isTerminalAttemptState (at_state e)" using authority_live by blast
  obtain x u0 m where msg: "insertMessage x None s = Inr (m, u0)"
    and acc: "accept_completion input e a m u0 = Inr (Accepted msg a' k', t)" using accepted by blast
  define c where "c = fst (timestamp (fab_host u0))"
  define u1 where "u1 = u0\<lparr>fab_host := snd (timestamp (fab_host u0))\<rparr>"
  obtain u v where stored: "write_completion input e a c u1 = Inr ((), u)"
    and settle: "settle_completion input e a c u = Inr ((), v)"
    and rest: "tasks t = tasks v"
  proof -
    obtain u v v1 a1 v2 n v3 v4 k1 where run: "write_completion input e a c u1 = Inr ((), u)"
      "settle_completion input e a c u = Inr ((), v)"
      and event: "appendEvent (as_mission a) (if ci_success input then ''attempt.completed'' else ''attempt.failed'')
         (Some (ci_principal input)) (Some (as_id a)) (Some (at_id e)) [(''summary'', JStr (ci_summary input))] v =
         Inr ((), v1)"
      and a1: "requireAssignment (as_id a) v1 = Inr (a1, v2)"
      and cancel: "cancelOwnedContinuations (as_id a) (Some (at_id e)) ''owner_attempt_completed'' v2 = Inr (n, v3)"
      and satisfy: "satisfyContinuationsFromAssignment a1 v3 = Inr ((), v4)"
      and k1: "requireTask (as_task a) v4 = Inr (k1, t)"
      using acc unfolding accept_completion_def
      by (auto simp: bnd_run thn_run now_run c_def u1_def ret_def)
    have "tasks t = tasks v"
      using work_same(2)[OF work_appendEvent event] work_same(2)[OF work_lookups(4) a1]
        work_same(2)[OF work_cancelOwned cancel] work_same(2)[OF work_from_assignment satisfy]
        work_same(2)[OF work_lookups(2) k1] by simp
    with run show thesis by (rule that)
  qed
  have inv0: "fab_inv u0" using store.safe_whenD[OF insertMessage_safe inv TrueI msg] fab_inv_run inv by blast
  have inv1: "fab_inv u1" unfolding u1_def using fab_inv_step[OF step_host[OF host_tick_timestamp] inv0] .
  have "getAttempt (at_id e) u1 = Some e"
    using getAttempt_own[OF e] work_same(6)[OF work_insertMessage msg] by (simp add: u1_def getAttempt_def)
  then have inv_u: "fab_inv u"
    using store.safe_whenD[OF write_completion_safe[OF live] inv1 _ stored] fab_inv_run inv1 by blast
  have tasks0: "tasks u1 = tasks s" "dependencies u1 = dependencies s"
    using work_same(2,3)[OF work_insertMessage msg] by (simp_all add: u1_def)
  note written = write_completion_tasks[OF stored ok]
  obtain w y where w: "promoteReadyTasks (as_mission a) (as_task a) c u = Inr ((), w)"
    "reconcileMissionState (as_mission a) c w = Inr ((), y)" "tasks v = tasks y"
    using settle ok by (auto simp: settle_completion_def thn_run tx_simps)
  have "tasks y = tasks w" using tasked.safe_whenD[OF completion_rest TrueI TrueI w(2)] by (simp add: same_tasks_def)
  moreover have "tasks w = update_where (released_by (as_mission a) (as_task a) u) (ready_task c) (tasks u)"
    by (rule promoteReady_tasks[OF w(1) inv_u])
  ultimately show ?thesis using written tasks0 w(3) rest by metis
qed

end
