(* ===== verification/Fabric_Batch_Order.thy ===== *)
theory Fabric_Batch_Order
  imports Fabric_Batch Fabric_Invariant
begin

text \<open>
  The order in which \<open>delegateMany\<close> delegates its entries: the visit returns an order exactly when
  the request has no cyclic dependency, and then every entry comes once, after its siblings.
\<close>

definition entry_edges :: "delegate_input list \<Rightarrow> (nat \<times> nat) set" where
  "entry_edges inputs = {(n, p). p \<in> set (sibling_positions inputs n)}"

text \<open>Each entry of the order comes after the entries it depends on.\<close>

definition siblings_first :: "delegate_input list \<Rightarrow> nat list \<Rightarrow> bool" where
  "siblings_first inputs xs \<longleftrightarrow>
     (\<forall>us n vs. xs = us @ n # vs \<longrightarrow> set (sibling_positions inputs n) \<subseteq> set us)"

lemma siblings_first_Nil [simp]: "siblings_first inputs []"
  by (simp add: siblings_first_def)

lemma siblings_first_snoc:
  "siblings_first inputs xs \<Longrightarrow> set (sibling_positions inputs n) \<subseteq> set xs \<Longrightarrow> siblings_first inputs (xs @ [n])"
  unfolding siblings_first_def
proof (intro allI impI)
  fix us m vs
  assume xs: "\<forall>us n vs. xs = us @ n # vs \<longrightarrow> set (sibling_positions inputs n) \<subseteq> set us"
    and n: "set (sibling_positions inputs n) \<subseteq> set xs" and eq: "xs @ [n] = us @ m # vs"
  show "set (sibling_positions inputs m) \<subseteq> set us"
  proof (cases vs rule: rev_cases)
    case Nil
    then show ?thesis using eq n by simp
  next
    case (snoc ws w)
    then have "xs = us @ m # ws" using eq by simp
    then show ?thesis using xs by blast
  qed
qed

section \<open>A visit that returns\<close>

definition visited_ok :: "delegate_input list \<Rightarrow> string list \<Rightarrow> nat list \<Rightarrow> nat list \<Rightarrow> nat list \<Rightarrow> bool" where
  "visited_ok inputs path ns ordered ord \<longleftrightarrow>
     (\<exists>zs. ord = ordered @ zs \<and> (\<forall>m\<in>set zs. m \<in> set ns \<or> (\<exists>k. key_at inputs m = Some k)) \<and>
        (\<forall>m\<in>set zs. \<forall>k. key_at inputs m = Some k \<longrightarrow> k \<notin> set path) \<and>
        (\<forall>m\<in>set zs. m \<in> set ns \<or> m < length inputs)) \<and>
     set ns \<subseteq> set ord \<and> (distinct ordered \<longrightarrow> distinct ord) \<and>
     (siblings_first inputs ordered \<longrightarrow> siblings_first inputs ord)"

lemma visited_okD:
  assumes "visited_ok inputs path ns ordered ord"
  shows "set ns \<subseteq> set ord" "set ordered \<subseteq> set ord" "distinct ordered \<Longrightarrow> distinct ord"
    "siblings_first inputs ordered \<Longrightarrow> siblings_first inputs ord"
  using assms by (auto simp: visited_ok_def)

lemma visited_ok_step:
  assumes sub: "visited_ok inputs path' (sibling_positions inputs n) ordered ord"
    and rest: "visited_ok inputs path ns (ord @ [n]) ord'"
    and new: "n \<notin> set ordered" and path: "set path \<subseteq> set path'"
    and key: "key_at inputs n = None \<or> (\<exists>k. key_at inputs n = Some k \<and> k \<in> set path' \<and> k \<notin> set path)"
  shows "visited_ok inputs path (n # ns) ordered ord'"
proof -
  obtain zs where zs: "ord = ordered @ zs" "\<forall>m\<in>set zs. m \<in> set (sibling_positions inputs n) \<or> (\<exists>k. key_at inputs m = Some k)"
    "\<forall>m\<in>set zs. \<forall>k. key_at inputs m = Some k \<longrightarrow> k \<notin> set path'"
    "\<forall>m\<in>set zs. m \<in> set (sibling_positions inputs n) \<or> m < length inputs"
    using sub by (auto simp: visited_ok_def)
  obtain ws where ws: "ord' = (ord @ [n]) @ ws" "\<forall>m\<in>set ws. m \<in> set ns \<or> (\<exists>k. key_at inputs m = Some k)"
    "\<forall>m\<in>set ws. \<forall>k. key_at inputs m = Some k \<longrightarrow> k \<notin> set path"
    "\<forall>m\<in>set ws. m \<in> set ns \<or> m < length inputs"
    using rest by (auto simp: visited_ok_def)
  have keyed: "\<exists>k. key_at inputs m = Some k" if "m \<in> set zs" for m
    using zs(2) that sibling_keyed[of m inputs n] by auto
  have small: "m < length inputs" if "m \<in> set zs" for m
    using zs(4) that by (auto elim: sibling_positionsD)
  have "n \<notin> set zs"
  proof
    assume "n \<in> set zs"
    then obtain k where "key_at inputs n = Some k" "k \<notin> set path'" using keyed zs(3) by blast
    then show False using key by auto
  qed
  then have "n \<notin> set ord" using new zs(1) by simp
  have "set (sibling_positions inputs n) \<subseteq> set ord" using visited_okD(1)[OF sub] .
  then have first: "siblings_first inputs ordered \<Longrightarrow> siblings_first inputs ord'"
    using visited_okD(4)[OF rest] siblings_first_snoc visited_okD(4)[OF sub] by blast
  have dist: "distinct ordered \<Longrightarrow> distinct ord'"
    using visited_okD(3)[OF rest] visited_okD(3)[OF sub] \<open>n \<notin> set ord\<close> by simp
  have all: "ord' = ordered @ (zs @ n # ws)" using zs(1) ws(1) by simp
  show ?thesis
    unfolding visited_ok_def
  proof (intro conjI exI[of _ "zs @ n # ws"] ballI allI impI)
    show "ord' = ordered @ zs @ n # ws" by (rule all)
    show "m \<in> set (n # ns) \<or> (\<exists>k. key_at inputs m = Some k)" if "m \<in> set (zs @ n # ws)" for m
      using that keyed ws(2) by auto
    show "k \<notin> set path" if "m \<in> set (zs @ n # ws)" "key_at inputs m = Some k" for m k
      using that zs(3) ws(3) key path by auto
    show "m \<in> set (n # ns) \<or> m < length inputs" if "m \<in> set (zs @ n # ws)" for m
      using that small ws(4) by auto
    show "set (n # ns) \<subseteq> set ord'" using visited_okD(1,2)[OF rest] by auto
  qed (use first dist in blast)+
qed

lemma visit_ok: "visit inputs path ns ordered = Inr ord \<Longrightarrow> visited_ok inputs path ns ordered ord"
proof (induction inputs path ns ordered arbitrary: ord rule: visit.induct)
  case (1 inputs path ordered)
  then show ?case by (simp add: visited_ok_def)
next
  case (2 inputs path n ns ordered)
  show ?case
  proof (cases "n \<in> set ordered")
    case True
    then have "visited_ok inputs path ns ordered ord" using 2 by simp
    then show ?thesis using True by (auto simp: visited_ok_def)
  next
    case new: False
    show ?thesis
    proof (cases "key_at inputs n")
      case None
      then obtain o1 where o1: "visit inputs path (sibling_positions inputs n) ordered = Inr o1"
        and o2: "visit inputs path ns (o1 @ [n]) = Inr ord"
        using 2(6) new by (auto simp: and_then_Inr)
      show ?thesis
        using visited_ok_step[OF 2(2)[OF new None o1] 2(3)[OF new None o2] new] None by simp
    next
      case (Some k)
      then obtain o1 where fresh: "k \<notin> set path"
        and o1: "visit inputs (k # path) (sibling_positions inputs n) ordered = Inr o1"
        and o2: "visit inputs path ns (o1 @ [n]) = Inr ord"
        using 2(6) new by (auto simp: and_then_Inr split: if_splits)
      show ?thesis
        using visited_ok_step[OF 2(4)[OF new Some fresh o1] 2(5)[OF new Some fresh o2] new] Some fresh by auto
    qed
  qed
qed

section \<open>A visit that finds a cycle\<close>

text \<open>The positions being visited: each has the key of the path and depends on the one entered
  after it.\<close>

definition path_chain :: "delegate_input list \<Rightarrow> string list \<Rightarrow> nat list \<Rightarrow> bool" where
  "path_chain inputs path ns \<longleftrightarrow> (\<exists>ps. map (key_at inputs) ps = map Some path \<and>
     (\<forall>j. Suc j < length ps \<longrightarrow> (ps ! Suc j, ps ! j) \<in> entry_edges inputs) \<and>
     (ps \<noteq> [] \<longrightarrow> (\<forall>n\<in>set ns. (ps ! 0, n) \<in> entry_edges inputs)))"

lemma path_chain_Nil: "path_chain inputs [] ns"
  unfolding path_chain_def by (rule exI[of _ "[]"]) simp

lemma path_chain_tail: "path_chain inputs path (n # ns) \<Longrightarrow> path_chain inputs path ns"
  unfolding path_chain_def by auto

lemma path_chain_enter:
  assumes "path_chain inputs path (n # ns)" and "key_at inputs n = Some k"
  shows "path_chain inputs (k # path) (sibling_positions inputs n)"
proof -
  obtain ps where ps: "map (key_at inputs) ps = map Some path"
    "\<forall>j. Suc j < length ps \<longrightarrow> (ps ! Suc j, ps ! j) \<in> entry_edges inputs"
    "ps \<noteq> [] \<longrightarrow> (ps ! 0, n) \<in> entry_edges inputs"
    using assms(1) by (auto simp: path_chain_def)
  have "((n # ps) ! Suc j, (n # ps) ! j) \<in> entry_edges inputs" if "Suc j < length (n # ps)" for j
    using ps(2,3) that by (cases j) auto
  then show ?thesis
    unfolding path_chain_def using ps(1) assms(2)
    by (intro exI[of _ "n # ps"]) (auto simp: entry_edges_def)
qed

lemma chain_reaches:
  assumes "\<forall>j. Suc j < length ps \<longrightarrow> (ps ! Suc j, ps ! j) \<in> E" and "j < length ps"
  shows "(ps ! j, ps ! 0) \<in> E\<^sup>*"
  using assms(2)
proof (induction j)
  case (Suc j)
  then show ?case using assms(1) converse_rtrancl_into_rtrancl[of "ps ! Suc j" "ps ! j" E] by simp
qed simp

text \<open>Keys name one entry.\<close>

definition keys_unique :: "delegate_input list \<Rightarrow> bool" where
  "keys_unique inputs \<longleftrightarrow> (\<forall>m n k. key_at inputs m = Some k \<longrightarrow> key_at inputs n = Some k \<longrightarrow> m = n)"

lemma cycle_found:
  assumes unique: "keys_unique inputs" and chain: "path_chain inputs path (n # ns)"
    and key: "key_at inputs n = Some k" "k \<in> set path"
  shows "(n, n) \<in> (entry_edges inputs)\<^sup>+"
proof -
  obtain ps where ps: "map (key_at inputs) ps = map Some path"
    "\<forall>j. Suc j < length ps \<longrightarrow> (ps ! Suc j, ps ! j) \<in> entry_edges inputs"
    "ps \<noteq> [] \<longrightarrow> (ps ! 0, n) \<in> entry_edges inputs"
    using chain by (auto simp: path_chain_def)
  obtain j where j: "j < length path" "path ! j = k" using key(2) by (auto simp: in_set_conv_nth)
  have len: "length ps = length path" using ps(1) by (metis length_map)
  have "key_at inputs (ps ! j) = Some k" using ps(1) j len by (metis nth_map)
  then have "ps ! j = n" using unique key(1) by (auto simp: keys_unique_def)
  then have "(n, ps ! 0) \<in> (entry_edges inputs)\<^sup>*" using chain_reaches[OF ps(2), of j] j(1) len by simp
  moreover have "(ps ! 0, n) \<in> entry_edges inputs" using ps(3) j(1) len by auto
  ultimately show ?thesis by (rule rtrancl_into_trancl1)
qed

text \<open>Only a root of the visit has no key.\<close>

lemma unkeyed_root: "path_chain inputs path (n # ns) \<Longrightarrow> key_at inputs n = None \<Longrightarrow> path = []"
  by (auto simp: path_chain_def entry_edges_def dest: sibling_keyed)

lemma visit_cycle:
  assumes "keys_unique inputs" and "visit inputs path ns ordered = Inl k" and "path_chain inputs path ns"
  shows "\<exists>n. key_at inputs n = Some k \<and> (n, n) \<in> (entry_edges inputs)\<^sup>+"
  using assms
proof (induction inputs path ns ordered rule: visit.induct)
  case (2 inputs path n ns ordered)
  note tail = path_chain_tail[OF 2(8)]
  show ?case
  proof (cases "n \<in> set ordered")
    case True
    then show ?thesis using 2(1)[OF True 2(6) _ tail] 2(7) by simp
  next
    case new: False
    show ?thesis
    proof (cases "key_at inputs n")
      case None
      have "path = []" using unkeyed_root[OF 2(8) None] .
      then have sub: "path_chain inputs path (sibling_positions inputs n)" by (simp add: path_chain_Nil)
      show ?thesis
      proof (cases "visit inputs path (sibling_positions inputs n) ordered")
        case (Inl e)
        then show ?thesis using 2(2)[OF new None 2(6) _ sub] 2(7) new None by simp
      next
        case (Inr o1)
        then show ?thesis using 2(3)[OF new None 2(6) _ tail, of o1] 2(7) new None by simp
      qed
    next
      case (Some k')
      show ?thesis
      proof (cases "k' \<in> set path")
        case True
        then have "k = k'" using 2(7) new Some by simp
        then show ?thesis using cycle_found[OF 2(6,8)] Some True by auto
      next
        case fresh: False
        have sub: "path_chain inputs (k' # path) (sibling_positions inputs n)"
          by (rule path_chain_enter[OF 2(8) Some])
        show ?thesis
        proof (cases "visit inputs (k' # path) (sibling_positions inputs n) ordered")
          case (Inl e)
          then show ?thesis using 2(4)[OF new Some fresh 2(6) _ sub] 2(7) new Some fresh by simp
        next
          case (Inr o1)
          then show ?thesis using 2(5)[OF new Some fresh 2(6) _ tail, of o1] 2(7) new Some fresh by simp
        qed
      qed
    qed
  qed
qed simp

section \<open>The order of a batch\<close>

lemma duplicate_key_unique:
  assumes "\<not> duplicate_key seen is"
  shows "m < length is \<Longrightarrow> batch_key (is ! m) = Some k \<Longrightarrow> k \<notin> set seen \<and>
    (\<forall>n < length is. batch_key (is ! n) = Some k \<longrightarrow> n = m)"
  using assms
proof (induction seen "is" arbitrary: m rule: duplicate_key.induct)
  case (2 seen i "is")
  show ?case
  proof (cases "batch_key i")
    case None
    then obtain m' where m': "m = Suc m'" using 2(4) by (cases m) auto
    then have "m' < length is" "batch_key (is ! m') = Some k" "\<not> duplicate_key seen is"
      using 2(3,4,5) None by simp_all
    note IH = 2(1)[OF None this]
    show ?thesis
    proof (intro conjI allI impI)
      show "k \<notin> set seen" using IH by blast
      fix n assume "n < length (i # is)" "batch_key ((i # is) ! n) = Some k"
      then show "n = m" using IH None m' by (cases n) auto
    qed
  next
    case (Some j)
    then have new: "j \<notin> set seen" and rest: "\<not> duplicate_key (j # seen) is" using 2(5) by (simp_all split: if_splits)
    have IH: "k \<notin> set (j # seen) \<and> (\<forall>n < length is. batch_key (is ! n) = Some k \<longrightarrow> n = m')"
      if "m' < length is" "batch_key (is ! m') = Some k" for m'
      using 2(2)[OF Some new that rest] .
    show ?thesis
    proof (cases m)
      case 0
      then have "k = j" using 2(4) Some by simp
      show ?thesis
      proof (intro conjI allI impI)
        show "k \<notin> set seen" using new \<open>k = j\<close> by simp
        fix n assume n: "n < length (i # is)" "batch_key ((i # is) ! n) = Some k"
        show "n = m"
        proof (cases n)
          case (Suc n')
          then have "n' < length is" "batch_key (is ! n') = Some k" using n by simp_all
          then have "k \<notin> set (j # seen)" using IH by blast
          then show ?thesis using \<open>k = j\<close> by simp
        qed (use 0 in simp)
      qed
    next
      case (Suc m')
      then have "m' < length is" "batch_key (is ! m') = Some k" using 2(3,4) by simp_all
      then have m': "k \<notin> set (j # seen)" "\<forall>n < length is. batch_key (is ! n) = Some k \<longrightarrow> n = m'"
        using IH by blast+
      show ?thesis
      proof (intro conjI allI impI)
        show "k \<notin> set seen" using m'(1) by simp
        fix n assume n: "n < length (i # is)" "batch_key ((i # is) ! n) = Some k"
        then show "n = m" using m' Some Suc by (cases n) auto
      qed
    qed
  qed
qed simp

lemma unique_keys: "\<not> duplicate_key [] inputs \<Longrightarrow> keys_unique inputs"
  using duplicate_key_unique[of "[]" inputs]
  by (auto simp: keys_unique_def key_at_def split: if_splits)

lemma siblings_first_earlier:
  assumes "siblings_first inputs xs" and "n \<in> set xs" and "p \<in> set (sibling_positions inputs n)"
  shows "earlier xs p n"
proof -
  obtain us vs where "xs = us @ n # vs" using assms(2) by (auto simp: in_set_conv_decomp)
  then show ?thesis using assms(1,3) unfolding siblings_first_def earlier_def by blast
qed

lemma batch_order_sound:
  assumes "batch_order inputs = Inr order"
  shows "distinct order" "set order = {0..<length inputs}" "siblings_first inputs order"
    "acyclic (entry_edges inputs)"
proof -
  have ok: "visited_ok inputs [] [0..<length inputs] [] order"
    using assms visit_ok by (simp add: batch_order_def)
  show dist: "distinct order" and first: "siblings_first inputs order" using visited_okD(3,4)[OF ok] by simp_all
  show set: "set order = {0..<length inputs}"
    using visited_okD(1)[OF ok] ok by (auto simp: visited_ok_def)
  have "earlier order p n" if "(n, p) \<in> entry_edges inputs" for n p
  proof (rule siblings_first_earlier[OF first])
    show p: "p \<in> set (sibling_positions inputs n)" using that by (simp add: entry_edges_def)
    show "n \<in> set order" unfolding set using p by (auto elim: sibling_positionsD)
  qed
  then show "acyclic (entry_edges inputs)" using earlier_acyclic[OF dist] by blast
qed

lemma batch_order_cycle:
  assumes "batch_order inputs = Inl k" and "\<not> duplicate_key [] inputs"
  shows "\<exists>n. key_at inputs n = Some k \<and> (n, n) \<in> (entry_edges inputs)\<^sup>+"
  using visit_cycle[OF unique_keys[OF assms(2)] assms(1)[unfolded batch_order_def] path_chain_Nil] .

end
