(* ===== verification/Fabric_Properties.thy ===== *)
theory Fabric_Properties
  imports Fabric_Samples Fabric_Effects Fabric_Claims Fabric_Batch_Order
begin

text \<open>
  The properties of the Mission store: the refinement, the invariants of every reachable
  database and what a sequence of calls may change.
\<close>

section \<open>Refinement and invariants\<close>

text \<open>C3: A call on a database with the invariant takes only the row-level steps of the
  specification, those that delete only where the call may delete, and keeps the invariant.\<close>

theorem store_calls_refine:
  assumes "fab_inv s" and "service_step p s t"
  shows "(store_move p)\<^sup>*\<^sup>* s t \<and> fab_inv t"
  using service_step_moves[OF assms(2,1)] fab_inv_run assms(1) by blast

theorem store_calls_refine_witness:
  "(store_move False)\<^sup>*\<^sup>* sample_empty sample_store \<and> fab_inv sample_store"
  using store_calls_refine[OF sample_empty_inv sample_step] .

lemma reached_row:
  "distinct (map k rows) \<Longrightarrow> r \<in> set rows \<Longrightarrow> \<exists>q. find (\<lambda>q. k q = k r) rows = Some q \<and> q = r"
  using find_key_distinct[of k rows r] by blast

lemma key_found: "key_of k rows i \<Longrightarrow> \<exists>q. find (\<lambda>q. k q = i) rows = Some q"
  by (cases "find (\<lambda>q. k q = i) rows") (auto simp: key_of_def find_None_iff)

text \<open>C24: In every reachable database each key names one row and every reference resolves: an
  Assignment has its Mission and assignee, an Attempt its Assignment, an event its Mission, a
  continuation its owner and Attempt.\<close>

theorem store_references_resolve:
  assumes "store_reach h s" and "host_ok h"
  shows "(\<forall>a\<in>set (assignments s). getAssignment (as_id a) s = Some a \<and>
            (\<exists>m. getMission (as_mission a) s = Some m) \<and> (\<exists>p. getPrincipal (as_assignee a) s = Some p)) \<and>
         (\<forall>e\<in>set (attempts s). getAttempt (at_id e) s = Some e \<and>
            (\<exists>a. getAssignment (at_assignment e) s = Some a)) \<and>
         (\<forall>e\<in>set (events s). \<exists>m. getMission (ev_mission e) s = Some m) \<and>
         (\<forall>c\<in>set (continuations s). getContinuation (cn_id c) s = Some c \<and>
            (\<exists>a. getAssignment (cn_owner c) s = Some a) \<and> (\<exists>e. getAttempt (cn_attempt c) s = Some e)) \<and>
         inv_keys s \<and> refs_at s s"
proof -
  have inv: "inv_keys s" "refs_at s s"
    using fab_inv_reach[OF assms] by (simp_all add: fab_inv_def inv_refs_def)
  then show ?thesis
    unfolding inv_keys_def refs_at_def refs_defs getAssignment_def getMission_def getPrincipal_def
      getAttempt_def getContinuation_def
    by (auto intro!: key_found find_key_distinct)
qed

theorem store_references_resolve_witness:
  "\<exists>a\<in>set (assignments sample_store). \<exists>m. getMission (as_mission a) sample_store = Some m"
proof -
  have "getAssignment ''assign_xx'' sample_store \<noteq> None" by code_simp
  then obtain a where "a \<in> set (assignments sample_store)"
    by (auto simp: getAssignment_def dest: find_key_SomeD)
  then show ?thesis using store_references_resolve[OF sample_reach sample_host_ok] by blast
qed

text \<open>C25: In every reachable database the dependencies between Mission tasks have no cycle.\<close>

theorem store_tasks_acyclic:
  assumes "store_reach h s" and "host_ok h"
  shows "acyclic (dependency_edges s)"
  using fab_inv_reach[OF assms] by (intro inv_dag_acyclic) (simp_all add: fab_inv_def)

theorem store_tasks_acyclic_witness: "acyclic (dependency_edges sample_store)"
  using store_tasks_acyclic[OF sample_reach sample_host_ok] .

text \<open>C26: In every reachable database the events of a Mission are numbered 1, 2, 3, ... in the
  order they were appended, and the messages of the store have increasing sequence numbers.\<close>

theorem store_logs_ordered:
  assumes "store_reach h s" and "host_ok h"
  shows "map ev_sequence (filter (\<lambda>e. ev_mission e = m) (events s)) =
           [1..<Suc (length (filter (\<lambda>e. ev_mission e = m) (events s)))] \<and>
         sorted_wrt (<) (map mg_sequence (messages s))"
  using fab_inv_reach[OF assms]
  by (simp add: fab_inv_def inv_events_def dense_def mission_sequences_def inv_messages_def)

theorem store_logs_ordered_witness:
  "map ev_sequence (filter (\<lambda>e. ev_mission e = ''mission_'') (events sample_store)) = [1]"
proof -
  have "length (filter (\<lambda>e. ev_mission e = ''mission_'') (events sample_store)) = 1" by code_simp
  then show ?thesis using store_logs_ordered[OF sample_reach sample_host_ok, of "''mission_''"] by simp
qed

text \<open>C27: In every reachable database a continuation and its resume intent agree: an armed wait
  has no intent, a ready, delivering, delivered or consumed one has exactly the pending,
  processing, delivered or acknowledged intent, and an Attempt has at most one active wait.\<close>

theorem store_waits_paired:
  assumes "store_reach h s" and "host_ok h" and "c \<in> set (continuations s)"
  shows "(Some (cn_state c), map_option ri_state (find (\<lambda>r. ri_continuation r = cn_id c) (intents s)))
           \<in> set WAIT_STATES \<and>
         (\<forall>d\<in>set (continuations s). active_continuation (cn_state c) \<and> active_continuation (cn_state d) \<and>
            cn_attempt d = cn_attempt c \<longrightarrow> d = c)"
proof (intro conjI ballI impI)
  have inv: "fab_inv s" by (rule fab_inv_reach[OF assms(1,2)])
  then have "wait_state (continuations s) (intents s) (cn_id c) \<in> set WAIT_STATES"
    by (simp add: fab_inv_def inv_waits_def)
  moreover have "find (\<lambda>d. cn_id d = cn_id c) (continuations s) = Some c"
    using inv assms(3) by (intro find_key_distinct) (simp_all add: fab_inv_def inv_keys_def)
  ultimately show "(Some (cn_state c), map_option ri_state (find (\<lambda>r. ri_continuation r = cn_id c) (intents s)))
      \<in> set WAIT_STATES" by (simp add: wait_state_def)
  have "distinct (active_attempts (continuations s))"
    using inv_active_reach[OF assms(1,2)] by (simp add: inv_active_def)
  then have inj: "inj_on cn_attempt (set (filter (\<lambda>c. active_continuation (cn_state c)) (continuations s)))"
    by (simp add: active_attempts_def distinct_map)
  show "d = c" if "d \<in> set (continuations s)" "active_continuation (cn_state c) \<and>
      active_continuation (cn_state d) \<and> cn_attempt d = cn_attempt c" for d
    using inj_onD[OF inj, of d c] that assms(3) by simp
qed

theorem store_waits_paired_witness:
  "\<exists>c\<in>set (continuations sample_paused). cn_state c = Cont_ARMED \<and>
     find (\<lambda>r. ri_continuation r = cn_id c) (intents sample_paused) = None"
proof -
  have "list_ex (\<lambda>c. cn_state c = Cont_ARMED) (continuations sample_paused)" by code_simp
  then obtain c where c: "c \<in> set (continuations sample_paused)" "cn_state c = Cont_ARMED" by (auto simp: list_ex_iff)
  then show ?thesis
    using store_waits_paired[OF sample_paused_reach sample_host_ok c(1)]
    by (intro bexI[of _ c]) (auto simp: WAIT_STATES_def)
qed

text \<open>C2: No wake-up is lost. In every reachable database, when what an armed continuation waits
  for has happened (all or one of its conditions, by its mode), reconciling it returns and leaves
  it ready with a pending resume intent.\<close>

theorem no_lost_wakeup:
  assumes "store_reach h s" and "host_ok h" and "getContinuation i s = Some c"
    and "cn_state c = Cont_ARMED" and "wait_over s c"
  shows "\<exists>b t. reconcileContinuation i s = Inr (b, t) \<and>
           map_option cn_state (getContinuation i t) = Some Cont_READY \<and>
           map_option ri_state (find (\<lambda>r. ri_continuation r = i) (intents t)) = Some Intent_PENDING"
proof -
  have inv: "fab_inv s" by (rule fab_inv_reach[OF assms(1,2)])
  obtain b t where run: "reconcileContinuation i s = Inr (b, t)" using reconcile_returns[OF inv assms(3)] by blast
  then show ?thesis using reconcile_wakes[OF inv assms(3-5) run] by (auto simp: wait_state_def getContinuation_def)
qed

theorem no_lost_wakeup_witness:
  "\<exists>b t. reconcileContinuation ''continuation_xxxxx'' sample_paused = Inr (b, t) \<and>
     map_option cn_state (getContinuation ''continuation_xxxxx'' t) = Some Cont_READY"
proof -
  have "case getContinuation ''continuation_xxxxx'' sample_paused of None \<Rightarrow> False
    | Some c \<Rightarrow> cn_state c = Cont_ARMED \<and> wait_over sample_paused c" by code_simp
  then obtain c where "getContinuation ''continuation_xxxxx'' sample_paused = Some c"
    "cn_state c = Cont_ARMED" "wait_over sample_paused c" by (auto split: option.splits)
  then show ?thesis using no_lost_wakeup[OF sample_paused_reach sample_host_ok] by blast
qed

section \<open>What calls leave of the past\<close>



text \<open>C29: Over any sequence of calls without deletion the past is immutable: an Attempt that
  ended keeps its whole row, a message keeps everything but the delivery and read times, which
  are set at most once, and the event log only grows at its end.\<close>

theorem store_history_immutable:
  assumes "fab_inv s" and "(service_step False)\<^sup>*\<^sup>* s t"
  shows "(\<forall>e. getAttempt i s = Some e \<and> isTerminalAttemptState (at_state e) \<longrightarrow> getAttempt i t = Some e) \<and>
         (\<forall>m. getMessage i s = Some m \<longrightarrow> (\<exists>m'. getMessage i t = Some m' \<and> message_life m m')) \<and>
         take (length (events s)) (events t) = events s"
proof (intro conjI allI impI)
  have h: "extends attempt_life (attempts s) (attempts t)" "extends message_life (messages s) (messages t)"
    "extends (=) (events s) (events t)"
    using service_history[OF assms(2,1)] by (simp_all add: history_def)
  show "getAttempt i t = Some e" if "getAttempt i s = Some e \<and> isTerminalAttemptState (at_state e)" for e
    using extends_find[OF h(1), of at_id i e] that by (auto simp: getAttempt_def attempt_life_def)
  show "\<exists>m'. getMessage i t = Some m' \<and> message_life m m'" if "getMessage i s = Some m" for m
  proof -
    have "mg_id b = mg_id a" if "message_life a b" for a b
      using that by (cases a, cases b) (simp add: message_life_def)
    then show ?thesis using extends_find[OF h(2), of mg_id i m] that by (auto simp: getMessage_def)
  qed
  show "take (length (events s)) (events t) = events s"
    using h(3) by (auto simp: extends_def list.rel_eq)
qed

theorem store_history_immutable_witness:
  "take (length (events sample_empty)) (events sample_store) = events sample_empty \<and>
   take (length (events sample_store)) (events (called (Call_Create_mission sample_mission) sample_store)) =
     events sample_store"
proof -
  have "succeeds (Call_Create_mission sample_mission) sample_store" by code_simp
  then have "service_step False sample_store (called (Call_Create_mission sample_mission) sample_store)"
    by (rule called_step) simp
  then show ?thesis
    using store_history_immutable[OF sample_empty_inv r_into_rtranclp[where r = "service_step False", OF sample_step]]
      store_history_immutable[OF sample_inv r_into_rtranclp[where r = "service_step False"]] by blast
qed

section \<open>Single calls\<close>

text \<open>C4: A report (completion, progress or heartbeat) by a principal who is not the assignee, for
  an Attempt that is not the active one or no longer runs, changes no Mission, task, Assignment,
  Attempt, dispatch or wait: only a suppressed message is kept.\<close>

theorem unauthorised_report_suppressed:
  assumes "op = completeAttempt ci \<and> ci_attempt ci = i \<and> ci_principal ci = p \<or>
      op = recordProgress pi \<and> pi_attempt pi = i \<and> pi_principal pi = p \<or>
      op = recordHeartbeat i p lease"
    and "op s = Inr (res, t)" and "getAttempt i s = Some e"
    and "getAssignment (at_assignment e) s = Some a" and "unauthorised a e p"
  shows "same_work s t \<and> continuations t = continuations s \<and> intents t = intents s \<and> targets t = targets s \<and>
    (\<exists>m r. res = Suppressed m r \<and> mg_suppression_reason m = Some r)"
  using assms(1,2)
  by (elim disjE conjE)
    (simp_all only: completeAttempt_def recordProgress_def recordHeartbeat_def,
     (rule report_unauthorised[OF _ assms(3-5)], simp)+)

theorem unauthorised_report_suppressed_witness:
  "\<exists>res t. recordHeartbeat ''attempt_xxx'' ''mallory'' None sample_store = Inr (res, t) \<and>
     same_work sample_store t"
proof -
  have "case recordHeartbeat ''attempt_xxx'' ''mallory'' None sample_store of Inl _ \<Rightarrow> False | Inr _ \<Rightarrow> True"
    by code_simp
  then obtain res t where run: "recordHeartbeat ''attempt_xxx'' ''mallory'' None sample_store = Inr (res, t)"
    by (auto split: sum.splits)
  have "case getAttempt ''attempt_xxx'' sample_store of None \<Rightarrow> False | Some e \<Rightarrow>
      (case getAssignment (at_assignment e) sample_store of None \<Rightarrow> False | Some a \<Rightarrow> as_assignee a \<noteq> ''mallory'')"
    by code_simp
  then obtain e a where "getAttempt ''attempt_xxx'' sample_store = Some e"
    "getAssignment (at_assignment e) sample_store = Some a" "unauthorised a e ''mallory''"
    by (auto simp: unauthorised_def split: option.splits)
  then show ?thesis
    using unauthorised_report_suppressed[of "recordHeartbeat ''attempt_xxx'' ''mallory'' None", OF _ run] run by blast
qed

text \<open>C30: Delegation is idempotent: after a delegation, any delegation in the same Mission under
  the same key returns the same task, Assignment and Attempt as reused and changes nothing.\<close>

theorem delegate_idempotent:
  assumes "delegate input s = Inr (r, t)"
    and "di_mission input' = di_mission input" and "di_key input' = di_key input"
  shows "delegate input' t = Inr (r\<lparr>dr_reused := True\<rparr>, t)"
  using delegateOne_repeated assms unfolding delegate_def by blast

theorem delegate_idempotent_witness:
  "\<exists>r t. delegate (sample_entry ''k'' None []) sample_store = Inr (r, t) \<and>
     delegate (sample_entry ''k'' (Some ''b'') []) t = Inr (r\<lparr>dr_reused := True\<rparr>, t)"
proof -
  obtain r t where run: "delegate (sample_entry ''k'' None []) sample_store = Inr (r, t)"
    using sample_delegation by blast
  then show ?thesis using delegate_idempotent[OF run, of "sample_entry ''k'' (Some ''b'') []"]
    by (auto simp: sample_entry_def)
qed

text \<open>C31: However many dispatchers claim however many outbox entries or resume intents in whatever
  order, every claim returns, and a claim succeeds exactly when its entry was pending and no
  earlier claim took it.\<close>

theorem dispatch_claims_once:
  assumes "fab_inv s"
  shows "(\<exists>t. collect_tx markOutboxProcessing is s = Inr (first_claims (outbox_pending s) is, t)) \<and>
         (\<exists>t. collect_tx (\<lambda>i. markResumeIntentProcessing i q) is s = Inr (first_claims (intent_pending s) is, t))"
  using outbox_queue.claims_first[OF assms] intent_queue.claims_first[OF assms] by blast

theorem dispatch_claims_once_witness:
  "\<exists>r s t. delegate (sample_entry ''k'' None []) sample_store = Inr (r, s) \<and>
     collect_tx markOutboxProcessing [''outbox_xxxxxxxxx'', ''no'', ''outbox_xxxxxxxxx''] s =
       Inr ([True, False, False], t)"
proof -
  obtain r s where "delegate (sample_entry ''k'' None []) sample_store = Inr (r, s)" and inv: "fab_inv s"
    and "outbox_pending s ''outbox_xxxxxxxxx''" "\<not> outbox_pending s ''no''"
    using sample_delegation by blast
  then have "first_claims (outbox_pending s) [''outbox_xxxxxxxxx'', ''no'', ''outbox_xxxxxxxxx''] =
      [True, False, False]" by (simp add: first_claims_def upt_rec)
  then show ?thesis
    using dispatch_claims_once[OF inv, of "[''outbox_xxxxxxxxx'', ''no'', ''outbox_xxxxxxxxx'']"]
      \<open>delegate (sample_entry ''k'' None []) sample_store = Inr (r, s)\<close> by metis
qed

text \<open>C32: A successful completion marks the task of the Attempt complete and makes ready exactly
  the blocked tasks of the Mission that depend on it and have no other incomplete dependency; no
  other task changes.\<close>

theorem completion_releases_tasks:
  assumes "fab_inv s" and "completeAttempt input s = Inr (Accepted msg a' k', t)" and "ci_success input"
    and "getAttempt (ci_attempt input) s = Some e" and "getAssignment (at_assignment e) s = Some a"
  shows "\<exists>u c. tasks u = update_where (\<lambda>k. tk_id k = as_task a) (completed_task input c) (tasks s) \<and>
    dependencies u = dependencies s \<and>
    tasks t = update_where (released_by (as_mission a) (as_task a) u) (ready_task c) (tasks u)"
  using completion_releases[OF assms] .

theorem completion_releases_tasks_witness:
  "\<exists>res t u c. completeAttempt sample_complete sample_store = Inr (res, t) \<and>
     map tk_state (tasks t) = [Task_COMPLETED] \<and>
     tasks t = update_where (released_by ''mission_'' ''mtask_x'' u) (ready_task c) (tasks u)"
proof -
  have "case completeAttempt sample_complete sample_store of
      Inr (Accepted _ _ _, t) \<Rightarrow> map tk_state (tasks t) = [Task_COMPLETED] | _ \<Rightarrow> False" by code_simp
  then obtain res t where res: "completeAttempt sample_complete sample_store = Inr (res, t)"
    and accepted: "case res of Accepted _ _ _ \<Rightarrow> map tk_state (tasks t) = [Task_COMPLETED] | _ \<Rightarrow> False"
    by (cases "completeAttempt sample_complete sample_store") auto
  then obtain m a k where run: "completeAttempt sample_complete sample_store = Inr (Accepted m a k, t)"
    and states: "map tk_state (tasks t) = [Task_COMPLETED]"
    by (cases res) auto
  obtain e where e: "getAttempt ''attempt_xxx'' sample_store = Some e" "at_assignment e = ''assign_xx''"
    by (auto simp: getAttempt_def sample_store_def planned_attempt_def)
  obtain b where b: "getAssignment ''assign_xx'' sample_store = Some b"
    "as_mission b = ''mission_''" "as_task b = ''mtask_x''"
    by (auto simp: getAssignment_def sample_store_def new_assignment_def)
  show ?thesis
    using completion_releases_tasks[OF sample_inv run, of e b] run states e b
    by (auto simp: sample_complete_def)
qed

text \<open>C33: The visit of a batch always returns. It returns an order exactly when the entries have
  no cyclic dependency, and then the order lists every entry once, after the entries it depends
  on; otherwise it names the key of an entry on a cycle.\<close>

theorem batch_order_exact:
  assumes "\<not> duplicate_key [] inputs"
  shows "case batch_order inputs of
           Inl k \<Rightarrow> (\<exists>n. key_at inputs n = Some k \<and> (n, n) \<in> (entry_edges inputs)\<^sup>+)
         | Inr order \<Rightarrow> acyclic (entry_edges inputs) \<and> distinct order \<and> set order = {0..<length inputs} \<and>
             siblings_first inputs order"
  using batch_order_sound[of inputs] batch_order_cycle[OF _ assms] by (auto split: sum.split)

theorem batch_order_exact_witness:
  "batch_order sample_batch = Inr [1, 0] \<and> siblings_first sample_batch [1, 0]"
proof -
  have order: "batch_order sample_batch = Inr [1, 0]" by code_simp
  have "\<not> duplicate_key [] sample_batch" by code_simp
  then show ?thesis using batch_order_exact[of sample_batch] order by simp
qed

text \<open>C34: An explicit change of a Mission's state fails for an unknown Mission and for a move
  outside the transition table, changes nothing for the state it has, and otherwise returns the
  Mission in the new state with the next version, completed exactly in a terminal state.\<close>

theorem setMissionState_outcome:
  assumes "fab_inv s"
  shows "case getMission i s of
      None \<Rightarrow> setMissionState i st actor r s = Inl (Fab_failure ''ORCHESTRATION_MISSION_NOT_FOUND'')
    | Some m \<Rightarrow>
        if ms_state m = st then setMissionState i st actor r s = Inr (m, s)
        else if st \<notin> set (MISSION_TRANSITIONS (ms_state m))
        then setMissionState i st actor r s = Inl (Fab_failure ''ORCHESTRATION_ILLEGAL_TRANSITION'')
        else (\<exists>t m'. setMissionState i st actor r s = Inr (m', t) \<and> getMission i t = Some m' \<and>
               ms_state m' = st \<and> ms_version m' = ms_version m + 1 \<and>
               (ms_completed_at m' = None \<longleftrightarrow> st \<notin> set TERMINAL_MISSION_STATES))"
proof (cases "getMission i s")
  case None
  then show ?thesis by (simp add: setMissionState_def bnd_def requireMission_run)
next
  case (Some m)
  then have "setMissionState i st actor r s = Inr (m, s)" if "ms_state m = st"
    using that by (simp add: setMissionState_def bnd_def requireMission_run ret_def)
  then show ?thesis
    using Some setMissionState_error[OF Some] setMissionState_moves[OF assms Some] by simp
qed

theorem setMissionState_outcome_witness:
  "setMissionState ''mission_'' Mission_COMPLETED None [] sample_store =
     Inl (Fab_failure ''ORCHESTRATION_ILLEGAL_TRANSITION'')"
proof -
  obtain m where "getMission ''mission_'' sample_store = Some m" "ms_state m = Mission_RUNNING"
    using sample_mission_row by auto
  then show ?thesis using setMissionState_outcome[OF sample_inv, of "''mission_''" Mission_COMPLETED None "[]"] by simp
qed

text \<open>C35: A Mission is deleted for good only from the trash, and then nothing of it is left in any
  table, while every other Mission keeps its row.\<close>

theorem deletion_exact:
  assumes "fab_inv s"
  shows "case getMission i s of
      None \<Rightarrow> deleteMissionPermanently i s = Inl (Fab_failure ''ORCHESTRATION_MISSION_NOT_FOUND'')
    | Some m \<Rightarrow>
        if ms_deleted_at m = None
        then deleteMissionPermanently i s = Inl (Fab_failure ''ORCHESTRATION_MISSION_NOT_TRASHED'')
        else (\<exists>t. deleteMissionPermanently i s = Inr ((), t) \<and> fab_inv t \<and>
               missions t = filter (\<lambda>m. ms_id m \<noteq> i) (missions s) \<and>
               i \<notin> tk_mission ` set (tasks t) \<union> as_mission ` set (assignments t) \<union>
                   mg_mission ` set (messages t) \<union> ev_mission ` set (events t) \<union>
                   ob_mission ` set (outbox t) \<union> af_mission ` set (artifacts t) \<union>
                   cn_mission ` set (continuations t) \<union> ri_mission ` set (intents t) \<union>
                   cv_mission ` set (conversations t) \<union> rq_mission ` set (requests t) \<union>
                   ic_mission ` set (incidents t))"
proof (cases "getMission i s")
  case None
  then show ?thesis by (simp add: deleteMissionPermanently_def bnd_def requireMission_run)
next
  case (Some m)
  let ?t = "delete_missions (\<lambda>m. ms_id m = i) s"
  have run: "deleteMissionPermanently i s = (if ms_deleted_at m = None
      then Inl (Fab_failure ''ORCHESTRATION_MISSION_NOT_TRASHED'') else Inr ((), ?t))"
    using Some getMission_id[OF Some]
    by (simp add: deleteMissionPermanently_def bnd_def thn_def requireMission_run throw_if_def failure_def
        throw_def ret_def change_def)
  have "fab_inv ?t" if "ms_deleted_at m \<noteq> None"
    using moves.safe_whenD[OF deletePermanently_moves assms TrueI, of i "()" ?t] run that fab_inv_run assms by auto
  then show ?thesis using Some run deletion_leaves_nothing[OF Some refl] by auto
qed

theorem deletion_exact_witness:
  "deleteMissionPermanently ''mission_'' sample_store = Inl (Fab_failure ''ORCHESTRATION_MISSION_NOT_TRASHED'')"
proof -
  have "case getMission ''mission_'' sample_store of None \<Rightarrow> False | Some m \<Rightarrow> ms_deleted_at m = None" by code_simp
  then show ?thesis using deletion_exact[OF sample_inv, of "''mission_''"] by (auto split: option.splits)
qed

end
