(* ===== verification/Text_Codec.thy ===== *)
theory Text_Codec
  imports Foundation
begin

text \<open>
  UTF-8 as the file services use it: \<open>utf8_encode\<close> is \<open>Buffer.from(text, 'utf8')\<close> and
  \<open>utf8_decode\<close> is \<open>buffer.toString('utf8')\<close>, which puts U+FFFD for every maximal ill-formed
  part. \<open>decode_encode\<close> is the round trip; \<open>stripBom\<close> of \<open>change-service.ts\<close> and the mark the
  document store keeps aside are at the end.
\<close>

section \<open>Encoding\<close>

definition REPLACEMENT :: nat where "REPLACEMENT = 0xFFFD"

definition surrogate :: "nat \<Rightarrow> bool" where
  "surrogate c \<longleftrightarrow> 0xD800 \<le> c \<and> c \<le> 0xDFFF"

definition utf8_char :: "nat \<Rightarrow> bytes" where
  "utf8_char c =
     (if c < 0x80 then [c]
      else if c < 0x800 then [0xC0 + c div 64, 0x80 + c mod 64]
      else if surrogate c then [0xEF, 0xBF, 0xBD]
      else if c < 0x10000 then [0xE0 + c div 4096, 0x80 + c div 64 mod 64, 0x80 + c mod 64]
      else [0xF0 + c div 262144, 0x80 + c div 4096 mod 64, 0x80 + c div 64 mod 64, 0x80 + c mod 64])"

definition utf8_encode :: "utext \<Rightarrow> bytes" where
  "utf8_encode t = concat (map utf8_char t)"

section \<open>Decoding\<close>

definition trail :: "nat \<Rightarrow> bool" where
  "trail b \<longleftrightarrow> 0x80 \<le> b \<and> b \<le> 0xBF"

text \<open>The second byte of a sequence of three or four bytes has a narrower range after some leads.\<close>

definition second3 :: "nat \<Rightarrow> nat \<Rightarrow> bool" where
  "second3 b c \<longleftrightarrow> (if b = 0xE0 then 0xA0 else 0x80) \<le> c \<and> c \<le> (if b = 0xED then 0x9F else 0xBF)"

definition second4 :: "nat \<Rightarrow> nat \<Rightarrow> bool" where
  "second4 b c \<longleftrightarrow> (if b = 0xF0 then 0x90 else 0x80) \<le> c \<and> c \<le> (if b = 0xF4 then 0x8F else 0xBF)"

fun utf8_decode :: "bytes \<Rightarrow> utext" where
  "utf8_decode [] = []"
| "utf8_decode (b # bs) =
     (if b < 0x80 then b # utf8_decode bs
      else if 0xC2 \<le> b \<and> b \<le> 0xDF then
        (case bs of [] \<Rightarrow> [REPLACEMENT]
         | c # cs \<Rightarrow>
             if trail c then ((b - 0xC0) * 64 + (c - 0x80)) # utf8_decode cs
             else REPLACEMENT # utf8_decode bs)
      else if 0xE0 \<le> b \<and> b \<le> 0xEF then
        (case bs of [] \<Rightarrow> [REPLACEMENT]
         | c # cs \<Rightarrow>
             if \<not> second3 b c then REPLACEMENT # utf8_decode bs
             else (case cs of [] \<Rightarrow> [REPLACEMENT]
                | d # ds \<Rightarrow>
                    if trail d
                    then ((b - 0xE0) * 4096 + (c - 0x80) * 64 + (d - 0x80)) # utf8_decode ds
                    else REPLACEMENT # utf8_decode cs))
      else if 0xF0 \<le> b \<and> b \<le> 0xF4 then
        (case bs of [] \<Rightarrow> [REPLACEMENT]
         | c # cs \<Rightarrow>
             if \<not> second4 b c then REPLACEMENT # utf8_decode bs
             else (case cs of [] \<Rightarrow> [REPLACEMENT]
                | d # ds \<Rightarrow>
                    if \<not> trail d then REPLACEMENT # utf8_decode cs
                    else (case ds of [] \<Rightarrow> [REPLACEMENT]
                       | e # es \<Rightarrow>
                           if trail e
                           then ((b - 0xF0) * 262144 + (c - 0x80) * 4096 + (d - 0x80) * 64 + (e - 0x80))
                                  # utf8_decode es
                           else REPLACEMENT # utf8_decode ds)))
      else REPLACEMENT # utf8_decode bs)"

section \<open>Round trip\<close>

text \<open>Unicode scalar values: the code points of well-formed text.\<close>

definition scalar :: "nat \<Rightarrow> bool" where
  "scalar c \<longleftrightarrow> c < 0x110000 \<and> \<not> surrogate c"

lemma sextets:
  fixes c :: nat
  shows "c div 64 * 64 + c mod 64 = c"
    and "c div 4096 * 4096 + c div 64 mod 64 * 64 + c mod 64 = c"
    and "c div 262144 * 262144 + c div 4096 mod 64 * 4096 + c div 64 mod 64 * 64 + c mod 64 = c"
proof -
  have "c div 4096 = c div 64 div 64" "c div 262144 = c div 4096 div 64" by (simp_all add: div_mult2_eq[symmetric])
  then have "c div 64 = c div 4096 * 64 + c div 64 mod 64" "c div 4096 = c div 262144 * 64 + c div 4096 mod 64"
    by simp_all
  moreover show "c div 64 * 64 + c mod 64 = c" by simp
  ultimately show "c div 4096 * 4096 + c div 64 mod 64 * 64 + c mod 64 = c"
    and "c div 262144 * 262144 + c div 4096 mod 64 * 4096 + c div 64 mod 64 * 64 + c mod 64 = c" by linarith+
qed

lemma trail_sextet [simp]: "trail (128 + n mod 64)"
proof -
  have "n mod 64 < 64" by simp
  then show ?thesis unfolding trail_def by linarith
qed

lemma decode_two:
  assumes "0x80 \<le> c" and "c < 0x800"
  shows "utf8_decode (utf8_char c @ bs) = c # utf8_decode bs"
proof -
  define q where "q = c div 64"
  have "2 \<le> q" "q \<le> 31" using assms by (auto simp: q_def)
  moreover have "utf8_char c = [0xC0 + q, 0x80 + c mod 64]" using assms by (simp add: utf8_char_def q_def)
  moreover have "q * 64 + c mod 64 = c" using sextets(1)[of c] by (simp add: q_def)
  ultimately show ?thesis by simp
qed

lemma second3_scalar:
  assumes "0x800 \<le> c" and "c < 0x10000" and "\<not> surrogate c"
  shows "second3 (0xE0 + c div 4096) (0x80 + c div 64 mod 64)"
proof -
  have "c mod 64 < 64" "c div 64 mod 64 < 64" by simp_all
  moreover from this have "32 \<le> c div 64 mod 64" if "c div 4096 = 0"
    using assms(1) sextets(2)[of c] that by linarith
  moreover from calculation have "c div 64 mod 64 < 32" if "c div 4096 = 13"
    using assms(3) sextets(2)[of c] that unfolding surrogate_def by linarith
  ultimately show ?thesis by (auto simp: second3_def)
qed

lemma decode_three:
  assumes "0x800 \<le> c" and "c < 0x10000" and "\<not> surrogate c"
  shows "utf8_decode (utf8_char c @ bs) = c # utf8_decode bs"
proof -
  have "c div 4096 < 16" using assms by auto
  then show ?thesis
    using assms sextets(2)[of c] second3_scalar[OF assms] by (simp add: utf8_char_def)
qed

lemma second4_scalar:
  assumes "0x10000 \<le> c" and "c < 0x110000"
  shows "second4 (0xF0 + c div 262144) (0x80 + c div 4096 mod 64)"
proof -
  have "c mod 64 < 64" "c div 64 mod 64 < 64" "c div 4096 mod 64 < 64" by simp_all
  moreover from this have "16 \<le> c div 4096 mod 64" if "c div 262144 = 0"
    using assms(1) sextets(3)[of c] that by linarith
  moreover from calculation have "c div 4096 mod 64 < 16" if "c div 262144 = 4"
    using assms(2) sextets(3)[of c] that by linarith
  ultimately show ?thesis by (auto simp: second4_def)
qed

lemma decode_four:
  assumes "0x10000 \<le> c" and "c < 0x110000"
  shows "utf8_decode (utf8_char c @ bs) = c # utf8_decode bs"
proof -
  have "c div 262144 < 5" "\<not> surrogate c" using assms by (auto simp: surrogate_def)
  then show ?thesis
    using assms sextets(3)[of c] second4_scalar[OF assms] by (simp add: utf8_char_def)
qed

lemma decode_char:
  assumes "scalar c"
  shows "utf8_decode (utf8_char c @ bs) = c # utf8_decode bs"
proof -
  consider "c < 0x80" | "0x80 \<le> c" "c < 0x800" | "0x800 \<le> c" "c < 0x10000" | "0x10000 \<le> c" by linarith
  then show ?thesis
  proof cases
    case 1
    then show ?thesis by (simp add: utf8_char_def)
  next
    case 2
    then show ?thesis by (rule decode_two)
  next
    case 3
    then show ?thesis using assms decode_three by (simp add: scalar_def)
  next
    case 4
    then show ?thesis using assms decode_four by (simp add: scalar_def)
  qed
qed

lemma decode_encode: "list_all scalar t \<Longrightarrow> utf8_decode (utf8_encode t) = t"
  by (induction t) (simp_all add: utf8_encode_def decode_char)

section \<open>The byte order mark\<close>

definition BOM :: nat where "BOM = 0xFEFF"

definition starts_with_bom :: "utext \<Rightarrow> bool" where
  "starts_with_bom t \<longleftrightarrow> t \<noteq> [] \<and> hd t = BOM"

definition stripBom :: "utext \<Rightarrow> utext" where
  "stripBom t = (if starts_with_bom t then tl t else t)"

end
