(* ===== verification/File_System.thy ===== *)
theory File_System
  imports Text_Codec
begin

text \<open>
  The file system the file services run on, as far as they use it (\<open>node:fs\<close> on POSIX): a tree of
  files with their permission bits, directories and symbolic links. A path is the list of its
  segments from the file system root. \<open>realpath\<close> follows links with the limit of the platform;
  every operation returns the error the call rejects with. A directory is never renamed by the
  services, so \<open>rename\<close> covers files and links. The last section gives the operations on a
  tree without symbolic links (\<open>tidy\<close>).
\<close>

section \<open>The tree\<close>

datatype fs_error = ENOENT | ENOTDIR | EISDIR | EEXIST | ELOOP

datatype node = File bytes nat | Dir | Link string

type_synonym path = "string list"
type_synonym tree = "path \<Rightarrow> node option"

definition node_at :: "tree \<Rightarrow> path \<Rightarrow> node option" where
  "node_at fs p = (if p = [] then Some Dir else fs p)"

fun split_slash :: "string \<Rightarrow> string \<Rightarrow> string list" where
  "split_slash acc [] = [rev acc]"
| "split_slash acc (c # cs) =
     (if c = CHR ''/'' then rev acc # split_slash [] cs else split_slash (c # acc) cs)"

definition segments :: "string \<Rightarrow> string list" where
  "segments p = filter (\<lambda>s. s \<noteq> [] \<and> s \<noteq> ''.'') (split_slash [] p)"

definition isAbsolute :: "string \<Rightarrow> bool" where
  "isAbsolute p \<longleftrightarrow> p \<noteq> [] \<and> hd p = CHR ''/''"

definition SYMLOOP_MAX :: nat where "SYMLOOP_MAX = 40"

section \<open>Resolution of links\<close>

function walk :: "tree \<Rightarrow> nat \<Rightarrow> path \<Rightarrow> string list \<Rightarrow> fs_error + path" where
  "walk fs n pre [] = Inr pre"
| "walk fs n pre (s # rest) =
     (if s = ''..'' then walk fs n (butlast pre) rest
      else case node_at fs (pre @ [s]) of
        None \<Rightarrow> Inl ENOENT
      | Some Dir \<Rightarrow> walk fs n (pre @ [s]) rest
      | Some (File b m) \<Rightarrow> if rest = [] then Inr (pre @ [s]) else Inl ENOTDIR
      | Some (Link t) \<Rightarrow>
          if n = 0 then Inl ELOOP
          else walk fs (n - 1) (if isAbsolute t then [] else pre) (segments t @ rest))"
  by pat_completeness auto

termination
  by (relation "measures [\<lambda>(fs, n, pre, rest). n, \<lambda>(fs, n, pre, rest). length rest]") auto

definition realpath :: "tree \<Rightarrow> path \<Rightarrow> fs_error + path" where
  "realpath fs p = walk fs SYMLOOP_MAX [] p"

section \<open>Operations\<close>

definition readFile :: "tree \<Rightarrow> path \<Rightarrow> fs_error + bytes" where
  "readFile fs p = and_then (realpath fs p) (\<lambda>q.
     case node_at fs q of Some (File b m) \<Rightarrow> Inr b | _ \<Rightarrow> Inl EISDIR)"

definition DIRECTORY_MODE :: nat where "DIRECTORY_MODE = 493"

definition stat_mode :: "tree \<Rightarrow> path \<Rightarrow> fs_error + nat" where
  "stat_mode fs p = and_then (realpath fs p) (\<lambda>q.
     case node_at fs q of Some (File b m) \<Rightarrow> Inr m | _ \<Rightarrow> Inr DIRECTORY_MODE)"

definition accessible :: "tree \<Rightarrow> path \<Rightarrow> bool" where
  "accessible fs p \<longleftrightarrow> (case realpath fs p of Inl _ \<Rightarrow> False | Inr _ \<Rightarrow> True)"

text \<open>The directory entry a path names: its parent is resolved, its last segment is not.\<close>

definition entry :: "tree \<Rightarrow> path \<Rightarrow> fs_error + path" where
  "entry fs p =
     (if p = [] then Inl EISDIR
      else and_then (realpath fs (butlast p)) (\<lambda>q.
        if node_at fs q = Some Dir then Inr (q @ [last p]) else Inl ENOTDIR))"

text \<open>The entry that opening a path for writing creates or truncates: links are followed.\<close>

fun creat :: "tree \<Rightarrow> nat \<Rightarrow> path \<Rightarrow> fs_error + path" where
  "creat fs n p = and_then (entry fs p) (\<lambda>q.
     case fs q of
       Some (Link t) \<Rightarrow>
         (case n of 0 \<Rightarrow> Inl ELOOP
          | Suc k \<Rightarrow> creat fs k ((if isAbsolute t then [] else butlast q) @ segments t))
     | _ \<Rightarrow> Inr q)"

definition writeFile :: "nat \<Rightarrow> tree \<Rightarrow> path \<Rightarrow> bytes \<Rightarrow> fs_error + tree" where
  "writeFile newMode fs p content = and_then (creat fs SYMLOOP_MAX p) (\<lambda>q.
     case fs q of
       Some Dir \<Rightarrow> Inl EISDIR
     | Some (File b m) \<Rightarrow> Inr (fs(q \<mapsto> File content m))
     | _ \<Rightarrow> Inr (fs(q \<mapsto> File content newMode)))"

definition chmod :: "tree \<Rightarrow> path \<Rightarrow> nat \<Rightarrow> fs_error + tree" where
  "chmod fs p mode = and_then (realpath fs p) (\<lambda>q.
     case node_at fs q of Some (File b m) \<Rightarrow> Inr (fs(q \<mapsto> File b mode)) | _ \<Rightarrow> Inr fs)"

definition rename :: "tree \<Rightarrow> path \<Rightarrow> path \<Rightarrow> fs_error + tree" where
  "rename fs a b = and_then (entry fs a) (\<lambda>p. and_then (entry fs b) (\<lambda>q.
     case fs p of
       None \<Rightarrow> Inl ENOENT
     | Some Dir \<Rightarrow> Inl EISDIR
     | Some n \<Rightarrow> if fs q = Some Dir then Inl EISDIR else Inr ((fs(p := None))(q \<mapsto> n))))"

definition rm :: "bool \<Rightarrow> tree \<Rightarrow> path \<Rightarrow> fs_error + tree" where
  "rm force fs p =
     (case entry fs p of
        Inl e \<Rightarrow> if force \<and> e = ENOENT then Inr fs else Inl e
      | Inr q \<Rightarrow>
          (case fs q of
             None \<Rightarrow> if force then Inr fs else Inl ENOENT
           | Some Dir \<Rightarrow> Inl EISDIR
           | Some n \<Rightarrow> Inr (fs(q := None))))"

text \<open>\<open>mkdir\<close> with \<open>recursive: true\<close>. Nothing exists below the first missing segment, so an error
  leaves the tree as it was.\<close>

fun mkdir_from :: "tree \<Rightarrow> path \<Rightarrow> string list \<Rightarrow> fs_error + tree" where
  "mkdir_from fs pre [] = Inr fs"
| "mkdir_from fs pre (s # rest) =
     (case node_at fs (pre @ [s]) of
        None \<Rightarrow> mkdir_from (fs(pre @ [s] \<mapsto> Dir)) (pre @ [s]) rest
      | Some Dir \<Rightarrow> mkdir_from fs (pre @ [s]) rest
      | Some (File b m) \<Rightarrow> Inl (if rest = [] then EEXIST else ENOTDIR)
      | Some (Link t) \<Rightarrow>
          (case realpath fs (pre @ [s]) of
             Inl e \<Rightarrow> Inl EEXIST
           | Inr q \<Rightarrow> if node_at fs q = Some Dir then mkdir_from fs q rest
                      else Inl (if rest = [] then EEXIST else ENOTDIR)))"

definition mkdirp :: "tree \<Rightarrow> path \<Rightarrow> fs_error + tree" where
  "mkdirp fs p = mkdir_from fs [] p"

section \<open>Trees without links\<close>

definition plain :: "string list \<Rightarrow> bool" where
  "plain p \<longleftrightarrow> ''..'' \<notin> set p"

definition tidy :: "tree \<Rightarrow> bool" where
  "tidy fs \<longleftrightarrow> (\<forall>p n. fs p = Some n \<longrightarrow> p \<noteq> [] \<and> node_at fs (butlast p) = Some Dir \<and> (\<forall>t. n \<noteq> Link t))"

lemma tidyD:
  assumes "tidy fs" and "fs p = Some n"
  shows "p \<noteq> []" and "node_at fs (butlast p) = Some Dir" and "n \<noteq> Link t"
  using assms unfolding tidy_def by blast+

lemma plain_simps [simp]: "plain []" "plain (s # p) \<longleftrightarrow> s \<noteq> ''..'' \<and> plain p" "plain (p @ q) \<longleftrightarrow> plain p \<and> plain q"
  by (auto simp: plain_def)

lemma plain_butlast: "plain p \<Longrightarrow> plain (butlast p)"
  by (auto simp: plain_def dest: in_set_butlastD)

lemma node_at_simps [simp]: "node_at fs [] = Some Dir" "p \<noteq> [] \<Longrightarrow> node_at fs p = fs p"
  by (simp_all add: node_at_def)

lemma tidy_parent:
  assumes "tidy fs" and "node_at fs (p @ [s] @ r) \<noteq> None" and "r \<noteq> []"
  shows "node_at fs (p @ [s]) = Some Dir"
  using assms(2,3)
proof (induction r rule: rev_induct)
  case (snoc x r)
  have "node_at fs (butlast (p @ [s] @ r @ [x])) = Some Dir"
    using snoc.prems(1) tidyD(2)[OF assms(1)] by fastforce
  then have "node_at fs (p @ [s] @ r) = Some Dir" by (simp add: butlast_append)
  then show ?case using snoc.IH by (cases "r = []") simp_all
qed simp

lemma walk_tidy:
  assumes "tidy fs" and "plain r"
  shows "(node_at fs (p @ r) \<noteq> None \<longrightarrow> walk fs n p r = Inr (p @ r)) \<and>
         (node_at fs p = Some Dir \<longrightarrow> node_at fs (p @ r) = None \<longrightarrow>
            walk fs n p r = Inl ENOENT \<or> walk fs n p r = Inl ENOTDIR)"
  using assms(2)
proof (induction r arbitrary: p)
  case (Cons s r)
  have IH: "(node_at fs (p @ [s] @ r) \<noteq> None \<longrightarrow> walk fs n (p @ [s]) r = Inr (p @ [s] @ r)) \<and>
      (node_at fs (p @ [s]) = Some Dir \<longrightarrow> node_at fs (p @ [s] @ r) = None \<longrightarrow>
         walk fs n (p @ [s]) r = Inl ENOENT \<or> walk fs n (p @ [s]) r = Inl ENOTDIR)"
    using Cons.IH[of "p @ [s]"] Cons.prems by simp
  have up: "node_at fs (p @ [s]) = Some Dir" if "node_at fs (p @ [s] @ r) \<noteq> None" "r \<noteq> []"
    using tidy_parent[OF assms(1) that] .
  have nolink: "fs (p @ [s]) \<noteq> Some (Link t)" for t using tidyD(3)[OF assms(1)] by blast
  show ?case
  proof (cases "r = []")
    case True
    then show ?thesis using Cons.prems nolink by (auto split: option.split node.split)
  next
    case False
    then show ?thesis using IH up Cons.prems nolink by (auto split: option.split node.split)
  qed
qed simp

lemma walk_no_loop: "tidy fs \<Longrightarrow> walk fs n p r \<noteq> Inl ELOOP"
proof (induction r arbitrary: p)
  case (Cons s r)
  then have "node_at fs (p @ [s]) \<noteq> Some (Link t)" for t using tidyD(3)[of fs "p @ [s]"] by auto
  then show ?case using Cons by (auto split: option.split node.split)
qed simp

lemma realpath_tidy:
  assumes "tidy fs" and "plain p"
  shows "node_at fs p = Some n \<Longrightarrow> realpath fs p = Inr p"
    and "node_at fs p = None \<Longrightarrow> realpath fs p = Inl ENOENT \<or> realpath fs p = Inl ENOTDIR"
  using walk_tidy[OF assms, of "[]" SYMLOOP_MAX] by (simp_all add: realpath_def)

text \<open>The file a path names, if it names one.\<close>

definition file_at :: "tree \<Rightarrow> path \<Rightarrow> (bytes \<times> nat) option" where
  "file_at fs p = (case node_at fs p of Some (File b m) \<Rightarrow> Some (b, m) | _ \<Rightarrow> None)"

lemma readFile_tidy:
  assumes "tidy fs" and "plain p"
  shows "readFile fs p = Inr b \<longleftrightarrow> (\<exists>m. file_at fs p = Some (b, m))"
  using realpath_tidy[OF assms]
  by (cases "node_at fs p") (auto simp: readFile_def file_at_def split: node.split)

lemma stat_tidy:
  assumes "tidy fs" and "plain p" and "file_at fs p = Some (b, m)"
  shows "stat_mode fs p = Inr m"
  using assms realpath_tidy(1)[OF assms(1,2)]
  by (auto simp: stat_mode_def file_at_def split: option.splits node.splits)

lemma accessible_tidy:
  assumes "tidy fs" and "plain p"
  shows "accessible fs p \<longleftrightarrow> node_at fs p \<noteq> None"
  using realpath_tidy[OF assms] by (cases "node_at fs p") (auto simp: accessible_def)

lemma entry_tidy:
  assumes "tidy fs" and "plain p" and "p \<noteq> []"
  shows "node_at fs (butlast p) = Some Dir \<Longrightarrow> entry fs p = Inr p"
    and "node_at fs (butlast p) \<noteq> Some Dir \<Longrightarrow> \<exists>e. entry fs p = Inl e \<and> (e = ENOENT \<or> e = ENOTDIR)"
proof -
  note real = realpath_tidy[OF assms(1) plain_butlast[OF assms(2)]]
  show "entry fs p = Inr p" if "node_at fs (butlast p) = Some Dir"
    using real(1)[OF that] that assms(3) by (simp add: entry_def)
  show "\<exists>e. entry fs p = Inl e \<and> (e = ENOENT \<or> e = ENOTDIR)" if "node_at fs (butlast p) \<noteq> Some Dir"
    using real that assms(3) by (cases "node_at fs (butlast p)") (auto simp: entry_def)
qed

lemma tidy_insert:
  assumes "tidy fs" and "p \<noteq> []" and "node_at fs (butlast p) = Some Dir" and "fs p \<noteq> Some Dir"
    and "n \<noteq> Dir" and "\<forall>t. n \<noteq> Link t"
  shows "tidy (fs(p \<mapsto> n))"
proof -
  have "node_at (fs(p \<mapsto> n)) q = Some Dir" if "node_at fs q = Some Dir" for q
    using that assms(4) by (cases "q = []") auto
  then show ?thesis using assms unfolding tidy_def by auto
qed

lemma tidy_mkdir:
  assumes "tidy fs" and "p \<noteq> []" and "node_at fs (butlast p) = Some Dir" and "fs p = None"
  shows "tidy (fs(p \<mapsto> Dir))"
proof -
  have "node_at (fs(p \<mapsto> Dir)) q = Some Dir" if "node_at fs q = Some Dir" for q
    using that assms(4) by (cases "q = []") auto
  then show ?thesis using assms unfolding tidy_def by auto
qed

lemma tidy_remove:
  assumes "tidy fs" and "fs p \<noteq> Some Dir"
  shows "tidy (fs(p := None))"
proof -
  have "node_at (fs(p := None)) q = Some Dir" if "node_at fs q = Some Dir" for q
    using that assms(2) by (cases "q = []") auto
  then show ?thesis using assms unfolding tidy_def by auto
qed

section \<open>Operations on trees without links\<close>

text \<open>Directories on the way to a path appear, nothing else changes.\<close>

definition grown :: "path \<Rightarrow> tree \<Rightarrow> tree \<Rightarrow> bool" where
  "grown p fs fs' \<longleftrightarrow>
     (\<forall>q. fs' q = fs q \<or> fs q = None \<and> fs' q = Some Dir \<and> q \<noteq> [] \<and> (\<exists>r. p = q @ r))"

lemma grown_file: "grown p fs fs' \<Longrightarrow> file_at fs' q = file_at fs q"
  by (cases "q = []") (auto simp: grown_def file_at_def node_at_def dest!: spec[of _ q])

lemma grown_node: "grown p fs fs' \<Longrightarrow> fs q \<noteq> None \<Longrightarrow> fs' q = fs q"
  by (auto simp: grown_def dest!: spec[of _ q])

lemma grown_off: "grown p fs fs' \<Longrightarrow> (\<And>r. p \<noteq> q @ r) \<Longrightarrow> fs' q = fs q"
  unfolding grown_def by blast

lemma mkdir_grown:
  assumes "tidy fs" and "node_at fs p = Some Dir" and "mkdir_from fs p r = Inr fs'"
  shows "tidy fs' \<and> node_at fs' (p @ r) = Some Dir \<and> grown (p @ r) fs fs'"
  using assms
proof (induction r arbitrary: fs p)
  case Nil
  then show ?case by (simp add: grown_def)
next
  case (Cons s r)
  consider "fs (p @ [s]) = None" | "fs (p @ [s]) = Some Dir"
    using Cons.prems(3) tidyD(3)[OF Cons.prems(1)] by (auto split: option.splits node.splits)
  then show ?case
  proof cases
    case 1
    let ?fs = "fs(p @ [s] \<mapsto> Dir)"
    have tidy: "tidy ?fs" using tidy_mkdir[OF Cons.prems(1), of "p @ [s]"] Cons.prems(2) 1 by simp
    have dir: "node_at ?fs (p @ [s]) = Some Dir" by simp
    have run: "mkdir_from ?fs (p @ [s]) r = Inr fs'" using Cons.prems(3) 1 by simp
    have "tidy fs' \<and> node_at fs' (p @ s # r) = Some Dir \<and> grown (p @ s # r) ?fs fs'"
      using Cons.IH[OF tidy dir run] by (simp only: append.assoc append_Cons append_Nil)
    moreover have "grown (p @ s # r) fs fs'" if "grown (p @ s # r) ?fs fs'"
      using that 1 unfolding grown_def by (metis append.assoc append_Cons append_Nil fun_upd_apply snoc_eq_iff_butlast)
    ultimately show ?thesis by blast
  next
    case 2
    then show ?thesis using Cons.IH[of fs "p @ [s]"] Cons.prems by simp
  qed
qed

lemma mkdirp_grown:
  assumes "tidy fs" and "mkdirp fs p = Inr fs'"
  shows "tidy fs'" and "node_at fs' p = Some Dir" and "grown p fs fs'"
  using mkdir_grown[OF assms(1), of "[]" p fs'] assms(2) by (simp_all add: mkdirp_def)

text \<open>No file stands on the way to a path.\<close>

definition passable :: "tree \<Rightarrow> path \<Rightarrow> bool" where
  "passable fs p \<longleftrightarrow> (\<forall>q r. p = q @ r \<longrightarrow> file_at fs q = None)"

lemma passable_grown: "grown p fs fs' \<Longrightarrow> passable fs' q = passable fs q"
  by (simp add: passable_def grown_file)

lemma mkdir_passable:
  assumes "tidy fs" and "node_at fs p = Some Dir" and "passable fs (p @ r)"
  shows "\<exists>fs'. mkdir_from fs p r = Inr fs'"
  using assms
proof (induction r arbitrary: fs p)
  case (Cons s r)
  have "file_at fs (p @ [s]) = None"
    using Cons.prems(3) unfolding passable_def by (metis append.assoc append_Cons append_Nil)
  then consider "fs (p @ [s]) = None" | "fs (p @ [s]) = Some Dir"
    using tidyD(3)[OF Cons.prems(1), of "p @ [s]"]
    by (cases "fs (p @ [s])") (auto simp: file_at_def split: node.splits)
  then show ?case
  proof cases
    case 1
    let ?fs = "fs(p @ [s] \<mapsto> Dir)"
    have tidy: "tidy ?fs" using tidy_mkdir[OF Cons.prems(1), of "p @ [s]"] Cons.prems(2) 1 by simp
    have dir: "node_at ?fs (p @ [s]) = Some Dir" by simp
    have "file_at ?fs q = file_at fs q" for q using 1 by (simp add: file_at_def node_at_def)
    then have way: "passable ?fs ((p @ [s]) @ r)" using Cons.prems(3) by (simp add: passable_def)
    show ?thesis using Cons.IH[OF tidy dir way] 1 by (simp del: fun_upd_apply)
  next
    case 2
    then show ?thesis using Cons.IH[of fs "p @ [s]"] Cons.prems by simp
  qed
qed simp

lemma mkdirp_passable: "tidy fs \<Longrightarrow> passable fs p \<Longrightarrow> \<exists>fs'. mkdirp fs p = Inr fs'"
  using mkdir_passable[of fs "[]" p] by (simp add: mkdirp_def)

lemma walk_passable:
  assumes "tidy fs" and "plain r" and "node_at fs p = Some Dir" and "node_at fs (p @ r) = None"
    and "\<And>q x. r = q @ x \<Longrightarrow> file_at fs (p @ q) = None"
  shows "walk fs n p r = Inl ENOENT"
  using assms(2-5)
proof (induction r arbitrary: p)
  case (Cons s r)
  have here: "file_at fs (p @ [s]) = None" using Cons.prems(4)[of "[s]" r] by simp
  show ?case
  proof (cases "node_at fs (p @ [s])")
    case None
    then show ?thesis using Cons.prems(1) by simp
  next
    case (Some k)
    then have "k = Dir" using here tidyD(3)[OF assms(1), of "p @ [s]"] by (cases k) (auto simp: file_at_def)
    moreover have "walk fs n (p @ [s]) r = Inl ENOENT" if "k = Dir"
      using Cons.IH[of "p @ [s]"] Cons.prems(1,3) Cons.prems(4)[of "s # _"] Some that by simp
    ultimately show ?thesis using Some Cons.prems(1) by simp
  qed
qed simp

lemma realpath_passable:
  assumes "tidy fs" and "plain p" and "passable fs p" and "node_at fs p = None"
  shows "realpath fs p = Inl ENOENT"
  using walk_passable[OF assms(1,2), of "[]" SYMLOOP_MAX] assms(3,4) by (simp add: realpath_def passable_def)

lemma creat_tidy:
  assumes "tidy fs" and "plain p" and "p \<noteq> []" and "node_at fs (butlast p) = Some Dir"
  shows "creat fs n p = Inr p"
  using entry_tidy(1)[OF assms] tidyD(3)[OF assms(1), of p]
  by (cases n) (auto split: option.split node.split)

lemma writeFile_tidy:
  assumes "tidy fs" and "plain p" and "p \<noteq> []" and "node_at fs (butlast p) = Some Dir"
    and "fs p \<noteq> Some Dir"
  obtains m where "writeFile newMode fs p content = Inr (fs(p \<mapsto> File content m))"
    and "fs p = None \<Longrightarrow> m = newMode"
proof (cases "fs p")
  case None
  then show ?thesis using that[of newMode] creat_tidy[OF assms(1-4), of SYMLOOP_MAX]
    by (simp add: writeFile_def del: creat.simps)
next
  case (Some n)
  then obtain b m where "n = File b m" using assms(5) tidyD(3)[OF assms(1)] by (cases n) auto
  then show ?thesis using that[of m] Some creat_tidy[OF assms(1-4), of SYMLOOP_MAX]
    by (simp add: writeFile_def del: creat.simps)
qed

lemma chmod_tidy:
  assumes "tidy fs" and "plain p" and "file_at fs p = Some (b, m)"
  shows "chmod fs p mode = Inr (fs(p \<mapsto> File b mode))"
  using assms realpath_tidy(1)[OF assms(1,2)]
  by (auto simp: chmod_def file_at_def split: option.splits node.splits)

lemma rename_tidy:
  assumes "tidy fs" and "plain a" and "a \<noteq> []" and "plain b" and "b \<noteq> []" and "fs a = Some (File c m)"
    and "node_at fs (butlast b) = Some Dir" and "fs b \<noteq> Some Dir"
  shows "rename fs a b = Inr ((fs(a := None))(b \<mapsto> File c m))"
  using entry_tidy(1)[OF assms(1-3) tidyD(2)[OF assms(1,6)]] entry_tidy(1)[OF assms(1,4,5,7)] assms(6,8)
  by (simp add: rename_def)

lemma rm_tidy:
  assumes "tidy fs" and "plain p" and "p \<noteq> []"
  shows "fs p = Some (File b m) \<Longrightarrow> rm f fs p = Inr (fs(p := None))"
    and "fs p = None \<Longrightarrow> node_at fs (butlast p) = Some Dir \<or> realpath fs (butlast p) = Inl ENOENT \<Longrightarrow>
           rm True fs p = Inr fs"
proof -
  show "rm f fs p = Inr (fs(p := None))" if "fs p = Some (File b m)"
    using entry_tidy(1)[OF assms tidyD(2)[OF assms(1) that]] that by (simp add: rm_def)
  show "rm True fs p = Inr fs" if "fs p = None" "node_at fs (butlast p) = Some Dir \<or> realpath fs (butlast p) = Inl ENOENT"
    using that entry_tidy(1)[OF assms] assms(3) by (auto simp: rm_def entry_def)
qed

end
