(* ===== verification/Path_Guard.thy ===== *)
theory Path_Guard
  imports File_System
begin

text \<open>
  \<open>resolveInsideRoot\<close> of \<open>packages/workspace-service/src/workspace.ts\<close>: the guard every
  workspace-relative path passes before a file service touches it. \<open>resolve_stays_inside\<close> is its
  safety, \<open>resolve_tidy\<close> what it returns on a tree without symbolic links; \<open>guard_loop_escape\<close>
  shows that a path over the limit of links passes the guard and leads outside.
\<close>

datatype failure = Product string | System fs_error

definition inside :: "path \<Rightarrow> path \<Rightarrow> bool" where
  "inside root p \<longleftrightarrow> p = root \<or> root \<noteq> [] \<and> take (length root) p = root"

text \<open>\<open>normalize(resolve(root, relative))\<close>.\<close>

definition lexical :: "path \<Rightarrow> string \<Rightarrow> path" where
  "lexical root relative =
     fold (\<lambda>s p. if s = ''..'' then butlast p else p @ [s]) (segments relative) root"

function probe_up :: "tree \<Rightarrow> path \<Rightarrow> path \<Rightarrow> string list \<Rightarrow> failure + path" where
  "probe_up fs root probe pending =
     (case realpath fs probe of
        Inr real \<Rightarrow> if inside root real then Inr (real @ pending) else Inl (Product ''WS_PATH_ESCAPE'')
      | Inl e \<Rightarrow>
          if probe = [] then Inl (Product ''WS_PATH_INVALID'')
          else probe_up fs root (butlast probe) (last probe # pending))"
  by pat_completeness auto

termination
  by (relation "measure (\<lambda>(fs, root, probe, pending). length probe)") auto

declare probe_up.simps [simp del]

definition resolveInsideRoot :: "tree \<Rightarrow> path \<Rightarrow> string \<Rightarrow> failure + path" where
  "resolveInsideRoot fs root relative =
     (if CHR 0x00 \<in> set relative then Inl (Product ''WS_PATH_INVALID'')
      else if isAbsolute relative then Inl (Product ''WS_PATH_ESCAPE'')
      else case realpath fs root of
        Inl e \<Rightarrow> Inl (Product ''WS_NOT_FOUND'')
      | Inr rootNorm \<Rightarrow>
          let probe = lexical rootNorm relative in
          if \<not> inside rootNorm probe then Inl (Product ''WS_PATH_ESCAPE'')
          else probe_up fs rootNorm probe [])"

section \<open>Resolved paths\<close>

text \<open>A path whose proper prefixes are directories and which is a directory or a file itself.\<close>

definition solid :: "tree \<Rightarrow> path \<Rightarrow> bool" where
  "solid fs p \<longleftrightarrow> plain p \<and> (\<forall>q r. p = q @ r \<longrightarrow> r \<noteq> [] \<longrightarrow> node_at fs q = Some Dir) \<and>
     (\<exists>n. node_at fs p = Some n \<and> (\<forall>t. n \<noteq> Link t))"

lemma solid_snoc:
  assumes "solid fs p" and "node_at fs p = Some Dir" and "s \<noteq> ''..''"
    and "node_at fs (p @ [s]) = Some n" and "\<forall>t. n \<noteq> Link t"
  shows "solid fs (p @ [s])"
proof -
  have "node_at fs q = Some Dir" if "p @ [s] = q @ r" "r \<noteq> []" for q r
  proof (cases r rule: rev_cases)
    case (snoc r' x)
    then have p: "p = q @ r'" using that(1) by simp
    show ?thesis
    proof (cases "r' = []")
      case False
      then show ?thesis using assms(1) p unfolding solid_def by blast
    qed (use p assms(2) in simp)
  qed (use that in simp)
  then show ?thesis using assms unfolding solid_def by simp
qed

lemma solid_butlast:
  assumes "solid fs p"
  shows "solid fs (butlast p)" and "node_at fs (butlast p) = Some Dir"
proof -
  have *: "solid fs (butlast p) \<and> node_at fs (butlast p) = Some Dir"
  proof (cases p rule: rev_cases)
    case Nil
    then show ?thesis using assms by simp
  next
    case (snoc q s)
    then have dir: "node_at fs q = Some Dir" using assms unfolding solid_def by blast
    moreover have "node_at fs q' = Some Dir" if "q = q' @ r" "r \<noteq> []" for q' r
      using assms snoc that unfolding solid_def by (metis append.assoc append_is_Nil_conv)
    ultimately show ?thesis using assms snoc unfolding solid_def by simp
  qed
  then show "solid fs (butlast p)" and "node_at fs (butlast p) = Some Dir" by blast+
qed

lemma walk_solid:
  assumes "walk fs n p r = Inr q" and "solid fs p" and "node_at fs p = Some Dir"
  shows "solid fs q"
  using assms
proof (induction fs n p r rule: walk.induct)
  case (2 fs n p s r)
  consider "s = ''..''" | "s \<noteq> ''..''" "node_at fs (p @ [s]) = Some Dir"
    | b m where "s \<noteq> ''..''" "node_at fs (p @ [s]) = Some (File b m)"
    | t where "s \<noteq> ''..''" "node_at fs (p @ [s]) = Some (Link t)"
    using "2.prems"(1) by (auto split: option.splits node.splits if_splits)
  then show ?case
  proof cases
    case 1
    then show ?thesis using 2 solid_butlast[of fs p] by simp
  next
    case 2
    then show ?thesis using "2.prems" "2.IH"(2)[OF 2 refl] solid_snoc[of fs p s Dir] by simp
  next
    case 3
    then show ?thesis using "2.prems" solid_snoc[of fs p s] by (simp split: if_splits)
  next
    case 4
    have "solid fs []" by (auto simp: solid_def)
    with 4 show ?thesis using "2.prems" "2.IH"(3)[OF 4(1) _ refl] by (auto split: if_splits)
  qed
qed simp

lemma solid_walk:
  assumes "solid fs (p @ r)"
  shows "walk fs n p (r @ x) = walk fs n (p @ r) x \<or> x \<noteq> [] \<and> node_at fs (p @ r) \<noteq> Some Dir"
  using assms
proof (induction r arbitrary: p)
  case (Cons s r)
  have here: "s \<noteq> ''..''" using Cons.prems by (simp add: solid_def)
  have IH: "walk fs n (p @ [s]) (r @ x) = walk fs n (p @ s # r) x \<or> x \<noteq> [] \<and> node_at fs (p @ s # r) \<noteq> Some Dir"
    using Cons.IH[of "p @ [s]"] Cons.prems by simp
  show ?case
  proof (cases "r = []")
    case True
    then obtain k where "node_at fs (p @ [s]) = Some k" "\<forall>t. k \<noteq> Link t" using Cons.prems by (auto simp: solid_def)
    then show ?thesis using True IH here by (cases k) auto
  next
    case False
    then have "node_at fs (p @ [s]) = Some Dir"
      using Cons.prems unfolding solid_def by (metis append.assoc append_Cons append_Nil)
    then show ?thesis using IH here by simp
  qed
qed simp

lemma realpath_solid: "realpath fs p = Inr q \<Longrightarrow> solid fs q \<and> realpath fs q = Inr q"
proof -
  assume "realpath fs p = Inr q"
  then have "solid fs q" unfolding realpath_def by (rule walk_solid) (simp_all add: solid_def)
  then show ?thesis using solid_walk[of fs "[]" q SYMLOOP_MAX "[]"] by (simp add: realpath_def)
qed

text \<open>More links allowed changes no result but the loop error.\<close>

lemma walk_fuel:
  assumes "walk fs n p r \<noteq> Inl ELOOP" and "n \<le> m"
  shows "walk fs m p r = walk fs n p r"
  using assms
proof (induction fs n p r arbitrary: m rule: walk.induct)
  case (2 fs n p s r)
  show ?case
  proof (cases "s = ''..''")
    case True
    then show ?thesis using "2.IH"(1)[OF True, of m] "2.prems" by simp
  next
    case False
    consider "node_at fs (p @ [s]) = None \<or> (\<exists>b m. node_at fs (p @ [s]) = Some (File b m))"
      | "node_at fs (p @ [s]) = Some Dir"
      | t where "node_at fs (p @ [s]) = Some (Link t)" "n \<noteq> 0"
      using "2.prems"(1) False by (auto split: option.splits node.splits if_splits)
    then show ?thesis
    proof cases
      case 1
      then show ?thesis using False by auto
    next
      case 2
      then show ?thesis using "2.IH"(2)[OF False 2 refl, of m] "2.prems" False by simp
    next
      case 3
      let ?q = "if isAbsolute t then [] else p"
      have eq: "walk fs k p (s # r) = walk fs (k - 1) ?q (segments t @ r)" if "k \<noteq> 0" for k
        using 3(1) False that by simp
      have "m \<noteq> 0" "n - 1 \<le> m - 1" using 3(2) "2.prems"(2) by simp_all
      moreover have "walk fs (n - 1) ?q (segments t @ r) \<noteq> Inl ELOOP"
        using "2.prems"(1) unfolding eq[OF 3(2)] .
      ultimately show ?thesis
        using "2.IH"(3)[OF False 3(1) refl 3(2), of "m - 1"] unfolding eq[OF 3(2)] eq[OF \<open>m \<noteq> 0\<close>] by blast
    qed
  qed
qed simp

text \<open>A walk along a path is a walk along its beginning, continued with the links still allowed.\<close>

lemma walk_append:
  "walk fs n p r = Inr q \<Longrightarrow> \<exists>k\<le>n. \<forall>x. walk fs n p (r @ x) = walk fs k q x \<or>
     x \<noteq> [] \<and> node_at fs q \<noteq> Some Dir"
proof (induction fs n p r rule: walk.induct)
  case (1 fs n p)
  then show ?case by (intro exI[of _ n]) simp
next
  case (2 fs n p s r)
  show ?case
  proof (cases "s = ''..''")
    case True
    then show ?thesis using 2 by simp
  next
    case False
    then consider "node_at fs (p @ [s]) = Some Dir"
      | b m where "node_at fs (p @ [s]) = Some (File b m)" "r = []" "q = p @ [s]"
      | t where "node_at fs (p @ [s]) = Some (Link t)" "n \<noteq> 0"
      using "2.prems" by (auto split: option.splits node.splits if_splits)
    then show ?thesis
    proof cases
      case 1
      then show ?thesis using "2.IH"(2)[OF False 1 refl] "2.prems" False by simp
    next
      case 2
      then show ?thesis using False by (intro exI[of _ n]) simp
    next
      case 3
      then obtain k where "k \<le> n - 1" and k: "\<forall>x. walk fs (n - 1) (if isAbsolute t then [] else p)
          ((segments t @ r) @ x) = walk fs k q x \<or> x \<noteq> [] \<and> node_at fs q \<noteq> Some Dir"
        using "2.IH"(3)[OF False 3(1) refl 3(2)] "2.prems" False by auto
      then show ?thesis using 3 False by (intro exI[of _ k]) simp
    qed
  qed
qed

section \<open>The guard\<close>

lemma plain_lexical: "plain root \<Longrightarrow> plain (lexical root relative)"
proof -
  have "plain p \<Longrightarrow> plain (fold (\<lambda>s p. if s = ''..'' then butlast p else p @ [s]) ss p)" for ss p
    by (induction ss arbitrary: p) (simp_all add: plain_butlast)
  then show "plain root \<Longrightarrow> ?thesis" by (simp add: lexical_def)
qed

lemma inside_iff: "inside root p \<longleftrightarrow> p = root \<or> root \<noteq> [] \<and> (\<exists>r. p = root @ r)"
  unfolding inside_def by (metis append_eq_conv_conj append_take_drop_id)

text \<open>What the probe returns: a resolved path inside the root, extended by the names below it
  that cannot be resolved.\<close>

lemma probe_up_result:
  assumes "probe_up fs root probe pending = Inr p" and "plain probe" and "plain pending"
    and "pending = [] \<or> (\<exists>e. realpath fs (probe @ [hd pending]) = Inl e)"
  shows "\<exists>base q names. p = q @ names \<and> realpath fs base = Inr q \<and> inside root q \<and> plain names \<and>
    (names = [] \<or> (\<exists>e. realpath fs (base @ [hd names]) = Inl e))"
  using assms
proof (induction fs root probe pending rule: probe_up.induct)
  case (1 fs root probe pending)
  show ?case
  proof (cases "realpath fs probe")
    case (Inr q)
    then show ?thesis using "1.prems" by (auto simp: probe_up.simps[of fs root probe] split: if_splits)
  next
    case (Inl e)
    then have "probe \<noteq> []" and "probe_up fs root (butlast probe) (last probe # pending) = Inr p"
      using "1.prems"(1) by (auto simp: probe_up.simps[of fs root probe] split: if_splits)
    moreover have "plain (last probe # pending)"
      using "1.prems"(2,3) \<open>probe \<noteq> []\<close> by (auto simp: plain_def dest: last_in_set)
    ultimately show ?thesis
      using "1.IH"[OF Inl] "1.prems"(2) Inl by (simp add: plain_butlast)
  qed
qed

lemma walk_error: "walk fs n p r = Inl e \<Longrightarrow> \<exists>e'. walk fs n p (r @ x) = Inl e'"
proof (induction fs n p r rule: walk.induct)
  case (2 fs n p s r)
  show ?case
  proof (cases "s = ''..''")
    case True
    then show ?thesis using 2 by simp
  next
    case False
    consider "node_at fs (p @ [s]) = None \<or> (\<exists>b m. node_at fs (p @ [s]) = Some (File b m))"
      | "node_at fs (p @ [s]) = Some Dir"
      | t where "node_at fs (p @ [s]) = Some (Link t)" "n = 0"
      | t where "node_at fs (p @ [s]) = Some (Link t)" "n \<noteq> 0"
      by (metis node.exhaust option.exhaust)
    then show ?thesis
    proof cases
      case 1
      then show ?thesis using "2.prems" False by (auto split: if_splits)
    next
      case 2
      then show ?thesis using "2.IH"(2)[OF False 2 refl] "2.prems" False by simp
    next
      case 3
      then show ?thesis using False by simp
    next
      case 4
      let ?q = "if isAbsolute t then [] else p"
      have "walk fs n p (s # y) = walk fs (n - 1) ?q (segments t @ y)" for y
        using 4 False by simp
      then show ?thesis using "2.IH"(3)[OF False 4(1) refl 4(2)] "2.prems" by (metis append.assoc append_Cons)
    qed
  qed
qed simp

lemma walk_through_file:
  assumes "solid fs (p @ r)" and "r \<noteq> []" and "node_at fs (p @ r) \<noteq> Some Dir" and "x \<noteq> []"
  shows "walk fs n p (r @ x) = Inl ENOTDIR"
  using assms
proof (induction r arbitrary: p)
  case (Cons s r)
  have here: "s \<noteq> ''..''" using Cons.prems by (simp add: solid_def)
  show ?case
  proof (cases "r = []")
    case True
    then obtain k where "node_at fs (p @ [s]) = Some k" "\<forall>t. k \<noteq> Link t" using Cons.prems by (auto simp: solid_def)
    then show ?thesis using True Cons.prems here by (cases k) auto
  next
    case False
    then have "node_at fs (p @ [s]) = Some Dir"
      using Cons.prems(1) unfolding solid_def by (metis append.assoc append_Cons append_Nil)
    then show ?thesis using Cons.IH[of "p @ [s]"] Cons.prems False here by simp
  qed
qed simp

text \<open>A name below a resolved path that cannot be resolved ends nowhere, whatever follows it.\<close>

lemma unresolved_below:
  assumes "realpath fs base = Inr q" and "realpath fs (base @ [x]) = Inl e" and "e \<noteq> ELOOP"
  shows "realpath fs (q @ [x] @ r) \<noteq> Inr t"
proof -
  have solid: "solid fs q" using realpath_solid[OF assms(1)] by blast
  show ?thesis
  proof (cases "node_at fs q = Some Dir")
    case True
    obtain k where k: "k \<le> SYMLOOP_MAX" "walk fs SYMLOOP_MAX [] (base @ [x]) = walk fs k q [x]"
      using walk_append[OF assms(1)[unfolded realpath_def]] True by blast
    have "walk fs k q [x] = Inl e" using assms(2) unfolding realpath_def k(2) .
    moreover from this have "walk fs SYMLOOP_MAX q [x] = walk fs k q [x]"
      using assms(3) k(1) by (intro walk_fuel) (simp_all del: walk.simps)
    ultimately have "walk fs SYMLOOP_MAX q [x] = Inl e" by (simp only:)
    moreover have "walk fs SYMLOOP_MAX [] (q @ y) = walk fs SYMLOOP_MAX q y" for y
      using solid_walk[of fs "[]" q] solid True by simp
    ultimately show ?thesis using walk_error[of fs SYMLOOP_MAX q "[x]" e r] unfolding realpath_def by (metis sum.distinct(1))
  next
    case False
    then have "q \<noteq> []" by auto
    then show ?thesis
      using walk_through_file[of fs "[]" q "[x] @ r"] solid False unfolding realpath_def by simp
  qed
qed

text \<open>A resolved path stays inside the root, and opening it ends at the path itself: no symbolic
  link leads out, unless the path runs into the limit of links.\<close>

lemma resolve_stays_inside:
  assumes "resolveInsideRoot fs root relative = Inr p" and "\<And>a. realpath fs a \<noteq> Inl ELOOP"
  obtains r where "realpath fs root = Inr r" and "inside r p" and "\<And>t. realpath fs p = Inr t \<Longrightarrow> t = p"
proof -
  obtain r where r: "realpath fs root = Inr r" and inside: "inside r (lexical r relative)"
    and run: "probe_up fs r (lexical r relative) [] = Inr p"
    using assms(1) by (auto simp: resolveInsideRoot_def Let_def split: if_splits sum.splits)
  have "plain r" using realpath_solid[OF r] by (simp add: solid_def)
  then obtain base q names where p: "p = q @ names" and base: "realpath fs base = Inr q" and q: "inside r q"
    and names: "names = [] \<or> (\<exists>e. realpath fs (base @ [hd names]) = Inl e)"
    using probe_up_result[OF run plain_lexical] by auto
  have "t = p" if t: "realpath fs p = Inr t" for t
  proof (cases names)
    case Nil
    then show ?thesis using realpath_solid[OF base] p t by simp
  next
    case (Cons x xs)
    then show ?thesis using unresolved_below[OF base, of x _ xs t] names assms(2) p t by auto
  qed
  moreover have "inside r p"
  proof (cases "r = []")
    case True
    then have "lexical r relative = []" using inside by (simp add: inside_def)
    then show ?thesis
      using run True by (simp add: probe_up.simps[of fs "[]" "[]"] realpath_def inside_def)
  qed (use q p in \<open>auto simp: inside_iff\<close>)
  ultimately show ?thesis using that r by blast
qed

section \<open>Trees without links\<close>

lemma probe_up_tidy:
  assumes "tidy fs" and "plain (root @ r)" and "node_at fs root = Some Dir" and "root \<noteq> []"
  shows "probe_up fs root (root @ r) pending = Inr (root @ r @ pending)"
  using assms(2)
proof (induction r arbitrary: pending rule: rev_induct)
  case Nil
  then show ?case
    using realpath_tidy(1)[OF assms(1) _ assms(3)] by (simp add: probe_up.simps[of fs root root] inside_def)
next
  case (snoc x r)
  show ?case
  proof (cases "node_at fs (root @ r @ [x])")
    case None
    then obtain e where "realpath fs (root @ r @ [x]) = Inl e"
      using realpath_tidy(2)[OF assms(1) snoc.prems] by auto
    then show ?thesis
      using snoc assms(4) by (simp add: probe_up.simps[of fs root "root @ r @ [x]"] butlast_append)
  next
    case (Some n)
    then have "realpath fs (root @ r @ [x]) = Inr (root @ r @ [x])"
      using realpath_tidy(1)[OF assms(1) snoc.prems] by simp
    then show ?thesis using assms(4) by (simp add: probe_up.simps[of fs root "root @ r @ [x]"] inside_def)
  qed
qed

definition acceptable :: "path \<Rightarrow> string \<Rightarrow> bool" where
  "acceptable root relative \<longleftrightarrow> CHR 0x00 \<notin> set relative \<and> \<not> isAbsolute relative \<and>
     inside root (lexical root relative)"

lemma resolve_tidy:
  assumes "tidy fs" and "plain root" and "node_at fs root = Some Dir" and "root \<noteq> []"
  shows "acceptable root relative \<Longrightarrow> resolveInsideRoot fs root relative = Inr (lexical root relative)"
    and "\<not> acceptable root relative \<Longrightarrow> \<exists>c. resolveInsideRoot fs root relative = Inl (Product c)"
proof -
  have real: "realpath fs root = Inr root" using realpath_tidy(1)[OF assms(1-3)] .
  have "probe_up fs root (lexical root relative) [] = Inr (lexical root relative)"
    if inside: "inside root (lexical root relative)"
  proof -
    obtain r where "lexical root relative = root @ r" using inside assms(4) by (auto simp: inside_iff)
    then show ?thesis using probe_up_tidy[OF assms(1) _ assms(3,4), of r "[]"] plain_lexical[OF assms(2), of relative] by simp
  qed
  then show "acceptable root relative \<Longrightarrow> resolveInsideRoot fs root relative = Inr (lexical root relative)"
    and "\<not> acceptable root relative \<Longrightarrow> \<exists>c. resolveInsideRoot fs root relative = Inl (Product c)"
    by (auto simp: resolveInsideRoot_def acceptable_def real Let_def)
qed

section \<open>A path over the limit of links\<close>

text \<open>The root \<open>/r\<close> holds forty links, each to the next one and the last to the directory \<open>d\<close>, in
  which \<open>x\<close> links to \<open>/o\<close> outside. The guard takes the loop error of \<open>0/x\<close> for a missing file.\<close>

definition loop_tree :: tree where
  "loop_tree p =
     (if p = [''r''] \<or> p = [''r'', ''d''] then Some Dir
      else if p = [''o''] then Some (File [42] 420)
      else if p = [''r'', ''d'', ''x''] then Some (Link ''/o'')
      else case p of
        [a, [c]] \<Rightarrow>
          let i = of_char c :: nat in
          if a = ''r'' \<and> 48 \<le> i \<and> i < 87 then Some (Link [char_of (i + 1)])
          else if a = ''r'' \<and> i = 87 then Some (Link ''d'')
          else None
      | _ \<Rightarrow> None)"

lemma guard_loop_escape:
  "resolveInsideRoot loop_tree [''r''] ''0/x'' = Inr [''r'', ''d'', ''x'']"
  "realpath loop_tree [''r'', ''d'', ''x''] = Inr [''o'']"
  by code_simp+

end
