(* ===== verification/Document_Store.thy ===== *)
theory Document_Store
  imports Path_Guard Host_Services
begin

text \<open>
  \<open>packages/document-service/src/document-store.ts\<close>: the open documents of a workspace over the
  files on disk. An operation is an \<open>act\<close>: it returns an error or a value, and the state it leaves
  in either case, since an error does not undo what was assigned before it. The state record is
  extended by \<open>Change_Service\<close>, so the operations are polymorphic in the rest of it. \<open>fe_sha\<close> is
  \<open>createHash('sha256')\<close>; listeners (\<open>onDidChange\<close>, \<open>emit\<close>) only observe and are left out.
\<close>

section \<open>Effects\<close>

record file_env =
  fe_root :: path
  fe_sha :: "bytes \<Rightarrow> string"
  fe_largeBytes :: nat
  fe_maxEditable :: nat
  fe_newMode :: nat
  fe_writable :: "nat \<Rightarrow> bool"
  fe_pid :: string
  fe_message :: "failure \<Rightarrow> string"

datatype external_state = Ext_clean | Ext_modified | Ext_deleted

datatype text_encoding = Enc_utf8 | Enc_utf8_bom

record document =
  dc_content :: utext
  dc_editable :: bool
  dc_diskRevision :: nat
  dc_bufferRevision :: nat
  dc_savedRevision :: nat
  dc_contentHash :: string
  dc_diskHash :: "string option"
  dc_dirty :: bool
  dc_eol :: eol_style
  dc_encoding :: text_encoding
  dc_binary :: bool
  dc_largeFile :: bool
  dc_readonly :: bool
  dc_external :: external_state
  dc_size :: nat
  dc_ownWriteUntil :: int
  dc_ownWriteHash :: "string option"

record disk_state =
  ds_fs :: tree
  ds_docs :: "(string \<times> document) list"
  ds_host :: host

type_synonym ('a, 'z) act = "'z disk_state_scheme \<Rightarrow> (failure + 'a) \<times> 'z disk_state_scheme"

definition done_with :: "'a \<Rightarrow> ('a, 'z) act" where
  "done_with x s = (Inr x, s)"

definition fail_with :: "failure \<Rightarrow> ('a, 'z) act" where
  "fail_with e s = (Inl e, s)"

definition andThen :: "('a, 'z) act \<Rightarrow> ('a \<Rightarrow> ('b, 'z) act) \<Rightarrow> ('b, 'z) act" where
  "andThen m f s = (case m s of (Inl e, t) \<Rightarrow> (Inl e, t) | (Inr x, t) \<Rightarrow> f x t)"

lemma andThen_eval [code_unfold]:
  "andThen m f = (\<lambda>s. case m s of (Inl e, t) \<Rightarrow> (Inl e, t) | (Inr x, t) \<Rightarrow> f x t)"
  by (rule ext) (simp add: andThen_def)

definition io_read :: "(tree \<Rightarrow> fs_error + 'a) \<Rightarrow> ('a, 'z) act" where
  "io_read q s = (case q (ds_fs s) of Inl e \<Rightarrow> (Inl (System e), s) | Inr x \<Rightarrow> (Inr x, s))"

definition io_change :: "(tree \<Rightarrow> fs_error + tree) \<Rightarrow> (unit, 'z) act" where
  "io_change q s =
     (case q (ds_fs s) of Inl e \<Rightarrow> (Inl (System e), s) | Inr fs \<Rightarrow> (Inr (), s\<lparr>ds_fs := fs\<rparr>))"

definition resolve :: "file_env \<Rightarrow> string \<Rightarrow> (path, 'z) act" where
  "resolve env p s = (resolveInsideRoot (ds_fs s) (fe_root env) p, s)"

definition clock :: "(int, 'z) act" where
  "clock s = (let (t, h) = timestamp (ds_host s) in (Inr t, s\<lparr>ds_host := h\<rparr>))"

definition text_sha :: "file_env \<Rightarrow> utext \<Rightarrow> string" where
  "text_sha env t = fe_sha env (utf8_encode t)"

section \<open>Documents\<close>

definition isOpen :: "string \<Rightarrow> 'z disk_state_scheme \<Rightarrow> bool" where
  "isOpen p s \<longleftrightarrow> map_of (ds_docs s) p \<noteq> None"

definition set_doc :: "string \<Rightarrow> document \<Rightarrow> 'z disk_state_scheme \<Rightarrow> 'z disk_state_scheme" where
  "set_doc p d s = s\<lparr>ds_docs := AList.update p d (ds_docs s)\<rparr>"

definition put_doc :: "string \<Rightarrow> document \<Rightarrow> (document, 'z) act" where
  "put_doc p d s = (Inr d, set_doc p d s)"

definition mustGet :: "string \<Rightarrow> (document, 'z) act" where
  "mustGet p s =
     (case map_of (ds_docs s) p of
        None \<Rightarrow> (Inl (Product ''DOC_NOT_OPEN''), s) | Some d \<Rightarrow> (Inr d, s))"

text \<open>Decoding drops the mark; the encoding remembers it.\<close>

definition loaded_text :: "bytes \<Rightarrow> utext \<times> text_encoding" where
  "loaded_text buffer =
     (let t = utf8_decode buffer in
      if starts_with_bom t then (tl t, Enc_utf8_bom) else (t, Enc_utf8))"

definition open_doc :: "file_env \<Rightarrow> string \<Rightarrow> (document, 'z) act" where
  "open_doc env p s =
     (case map_of (ds_docs s) p of Some d \<Rightarrow> (Inr d, s)
      | None \<Rightarrow>
          andThen (resolve env p) (\<lambda>loc s.
            case readFile (ds_fs s) loc of
              Inl e \<Rightarrow> (Inl (Product ''DOC_READ_FAILED''), s)
            | Inr buffer \<Rightarrow>
                let readonly = (case stat_mode (ds_fs s) loc of Inl e \<Rightarrow> True | Inr m \<Rightarrow> \<not> fe_writable env m);
                    binary = detectBinary buffer;
                    editable = (\<not> binary \<and> length buffer \<le> fe_maxEditable env);
                    (content, encoding) = (if editable then loaded_text buffer else ([], Enc_utf8))
                in put_doc p
                     \<lparr> dc_content = content, dc_editable = editable, dc_diskRevision = 1,
                       dc_bufferRevision = 1, dc_savedRevision = 1,
                       dc_contentHash = text_sha env content, dc_diskHash = Some (fe_sha env buffer),
                       dc_dirty = False, dc_eol = (if binary then Eol_lf else detectEol content),
                       dc_encoding = encoding, dc_binary = binary,
                       dc_largeFile = (length buffer > fe_largeBytes env), dc_readonly = readonly,
                       dc_external = Ext_clean, dc_size = length buffer, dc_ownWriteUntil = 0,
                       dc_ownWriteHash = None \<rparr> s) s)"

definition updateBuffer :: "file_env \<Rightarrow> string \<Rightarrow> utext \<Rightarrow> (document, 'z) act" where
  "updateBuffer env p content =
     andThen (mustGet p) (\<lambda>d.
       if dc_binary d then fail_with (Product ''DOC_BINARY'')
       else if content \<noteq> dc_content d then
         let r = dc_bufferRevision d + 1 in
         put_doc p (d\<lparr> dc_content := content, dc_bufferRevision := r,
                       dc_contentHash := text_sha env content, dc_dirty := (r \<noteq> dc_savedRevision d) \<rparr>)
       else done_with d)"

definition setEol :: "file_env \<Rightarrow> string \<Rightarrow> eol_style \<Rightarrow> (document, 'z) act" where
  "setEol env p eol =
     andThen (mustGet p) (\<lambda>d.
       if dc_eol d \<noteq> eol then
         let content = normalizeToEol (dc_content d) eol in
         put_doc p (d\<lparr> dc_content := content, dc_eol := eol, dc_bufferRevision := dc_bufferRevision d + 1,
                       dc_contentHash := text_sha env content, dc_dirty := True \<rparr>)
       else done_with d)"

definition payload :: "document \<Rightarrow> bytes" where
  "payload d = utf8_encode ((if dc_encoding d = Enc_utf8_bom then [BOM] else []) @ dc_content d)"

text \<open>The write of a save; what the temporary file left behind is removed when it fails.\<close>

definition save_temp :: "file_env \<Rightarrow> path \<Rightarrow> int \<Rightarrow> path" where
  "save_temp env loc t =
     butlast loc @ [''.pi-ide.'' @ fe_pid env @ ''.'' @ show_nat (nat t) @ ''.tmp'']"

definition write_atomically :: "file_env \<Rightarrow> path \<Rightarrow> path \<Rightarrow> bytes \<Rightarrow> (unit, 'z) act" where
  "write_atomically env loc tmp data s =
     (case andThen (io_change (\<lambda>fs. writeFile (fe_newMode env) fs tmp data))
             (\<lambda>_. io_change (\<lambda>fs. rename fs tmp loc)) s of
        (Inr u, t) \<Rightarrow> (Inr (), t)
      | (Inl e, t) \<Rightarrow>
          (Inl (Product ''DOC_SAVE_FAILED''),
           (case rm True (ds_fs t) tmp of Inl e \<Rightarrow> t | Inr fs \<Rightarrow> t\<lparr>ds_fs := fs\<rparr>)))"

definition save_conflict :: "file_env \<Rightarrow> tree \<Rightarrow> path \<Rightarrow> document \<Rightarrow> bool" where
  "save_conflict env fs loc d \<longleftrightarrow>
     dc_external d = Ext_modified \<or>
     (case readFile fs loc of
        Inl e \<Rightarrow> False
      | Inr current \<Rightarrow> dc_diskHash d \<noteq> None \<and> dc_diskHash d \<noteq> Some (fe_sha env current))"

definition save :: "file_env \<Rightarrow> bool \<Rightarrow> string \<Rightarrow> (document, 'z) act" where
  "save env force p =
     andThen (mustGet p) (\<lambda>d.
     if dc_binary d then fail_with (Product ''DOC_BINARY'')
     else if dc_readonly d then fail_with (Product ''DOC_READONLY'')
     else andThen (resolve env p) (\<lambda>loc s.
       if \<not> force \<and> save_conflict env (ds_fs s) loc d
       then (Inl (Product ''DOC_SAVE_CONFLICT''), set_doc p (d\<lparr>dc_external := Ext_modified\<rparr>) s)
       else
         andThen clock (\<lambda>t. andThen (write_atomically env loc (save_temp env loc t) (payload d)) (\<lambda>_.
         andThen clock (\<lambda>now.
           let hash = fe_sha env (payload d) in
           put_doc p (d\<lparr> dc_savedRevision := dc_bufferRevision d, dc_dirty := False,
                         dc_diskRevision := dc_diskRevision d + 1, dc_diskHash := Some hash,
                         dc_size := length (payload d), dc_external := Ext_clean,
                         dc_ownWriteUntil := now + 2500, dc_ownWriteHash := Some hash \<rparr>)))) s))"

definition isOwnWrite :: "string \<Rightarrow> (bool, 'z) act" where
  "isOwnWrite p s =
     (case map_of (ds_docs s) p of None \<Rightarrow> (Inr False, s)
      | Some d \<Rightarrow> andThen clock (\<lambda>t. done_with (dc_ownWriteUntil d > t)) s)"

definition reloaded :: "file_env \<Rightarrow> document \<Rightarrow> bytes \<Rightarrow> document" where
  "reloaded env d buffer =
     (let content = stripBom (utf8_decode buffer); r = dc_bufferRevision d + 1 in
      d\<lparr> dc_content := content, dc_contentHash := text_sha env content,
         dc_diskHash := Some (fe_sha env buffer), dc_bufferRevision := r, dc_savedRevision := r,
         dc_eol := detectEol content, dc_external := Ext_clean \<rparr>)"

definition handleExternalChange :: "file_env \<Rightarrow> string \<Rightarrow> (document option, 'z) act" where
  "handleExternalChange env p s =
     (case map_of (ds_docs s) p of None \<Rightarrow> (Inr None, s)
      | Some d \<Rightarrow>
          andThen (resolve env p) (\<lambda>loc s.
            case readFile (ds_fs s) loc of
              Inl e \<Rightarrow>
                andThen (put_doc p (d\<lparr> dc_external := Ext_deleted, dc_diskHash := None, dc_dirty := True \<rparr>))
                  (\<lambda>d'. done_with (Some d')) s
            | Inr buffer \<Rightarrow>
                andThen (isOwnWrite p) (\<lambda>own.
                  if own \<and> dc_ownWriteHash d = Some (fe_sha env buffer) then
                    andThen (put_doc p (d\<lparr> dc_ownWriteUntil := 0 \<rparr>)) (\<lambda>_. done_with None)
                  else if dc_diskHash d = Some (fe_sha env buffer) then done_with None
                  else
                    andThen (put_doc p
                      (if \<not> dc_dirty d
                       then (reloaded env d buffer)
                              \<lparr> dc_diskRevision := dc_diskRevision d + 1, dc_size := length buffer \<rparr>
                       else d\<lparr> dc_external := Ext_modified, dc_diskRevision := dc_diskRevision d + 1,
                               dc_diskHash := Some (fe_sha env buffer) \<rparr>))
                      (\<lambda>d'. done_with (Some d'))) s) s)"

datatype external_choice = Choice_reload | Choice_keep

definition resolveExternal :: "file_env \<Rightarrow> string \<Rightarrow> external_choice \<Rightarrow> (document, 'z) act" where
  "resolveExternal env p choice =
     andThen (mustGet p) (\<lambda>d. andThen (resolve env p) (\<lambda>loc s.
       case choice of
         Choice_reload \<Rightarrow>
           (case readFile (ds_fs s) loc of
              Inl e \<Rightarrow> (Inl (Product ''DOC_READ_FAILED''), s)
            | Inr buffer \<Rightarrow> put_doc p ((reloaded env d buffer)\<lparr> dc_dirty := False \<rparr>) s)
       | Choice_keep \<Rightarrow>
           put_doc p (d\<lparr> dc_diskHash := (case readFile (ds_fs s) loc of
                             Inl e \<Rightarrow> None | Inr buffer \<Rightarrow> Some (fe_sha env buffer)),
                         dc_external := Ext_clean, dc_dirty := True \<rparr>) s))"

section \<open>Reading for tools\<close>

record logical =
  lg_content :: utext
  lg_hash :: string
  lg_fromBuffer :: bool
  lg_eol :: eol_style
  lg_binary :: bool
  lg_size :: nat

definition disk_logical :: "file_env \<Rightarrow> bytes \<Rightarrow> logical" where
  "disk_logical env buffer =
     (let binary = detectBinary buffer;
          content = stripBom (if binary then [] else utf8_decode buffer)
      in \<lparr> lg_content = content, lg_hash = text_sha env content, lg_fromBuffer = False,
           lg_eol = (if binary then Eol_lf else detectEol content), lg_binary = binary,
           lg_size = length buffer \<rparr>)"

definition readLogical :: "file_env \<Rightarrow> string \<Rightarrow> 'z disk_state_scheme \<Rightarrow> failure + logical" where
  "readLogical env p s =
     (case map_of (ds_docs s) p of
        Some d \<Rightarrow>
          Inr \<lparr> lg_content = dc_content d, lg_hash = dc_contentHash d, lg_fromBuffer = dc_dirty d,
                lg_eol = dc_eol d, lg_binary = dc_binary d, lg_size = dc_size d \<rparr>
      | None \<Rightarrow>
          (case resolveInsideRoot (ds_fs s) (fe_root env) p of
             Inl e \<Rightarrow> Inl e
           | Inr loc \<Rightarrow>
               (case readFile (ds_fs s) loc of
                  Inl e \<Rightarrow> Inl (Product ''DOC_READ_FAILED'')
                | Inr buffer \<Rightarrow> Inr (disk_logical env buffer))))"

definition close :: "string \<Rightarrow> 'z disk_state_scheme \<Rightarrow> 'z disk_state_scheme" where
  "close p s = s\<lparr>ds_docs := AList.delete p (ds_docs s)\<rparr>"

definition closeAll :: "'z disk_state_scheme \<Rightarrow> 'z disk_state_scheme" where
  "closeAll s = s\<lparr>ds_docs := []\<rparr>"

definition dirtyDocuments :: "'z disk_state_scheme \<Rightarrow> (string \<times> document) list" where
  "dirtyDocuments s = filter (\<lambda>(p, d). dc_dirty d) (ds_docs s)"

end
