(* ===== verification/Change_Store.thy ===== *)
theory Change_Store
  imports Document_Store Canonical_Json "HOL-Library.Product_Lexorder"
begin

text \<open>
  What the change service keeps: the content-addressed blobs (\<open>blob-store.ts\<close>), the baselines and
  the change log (\<open>ChangeRepo\<close>, in memory and over SQLite, \<open>m5-handlers.ts\<close>), and the hunks of a
  review (\<open>review.ts\<close>). The contracts are the locales \<open>content_store\<close> and \<open>change_log\<close>.

  Blobs lie outside the workspace; the directory is a map from hashes to contents. The package
  \<open>diff\<close> is a parameter (\<open>diff_lib\<close>).
\<close>

section \<open>Blobs\<close>

type_synonym blobs = "string \<Rightarrow> bytes option"

definition put :: "(bytes \<Rightarrow> string) \<Rightarrow> bytes \<Rightarrow> blobs \<Rightarrow> (string \<times> nat) \<times> blobs" where
  "put sha content m =
     (let hash = sha content in
      if m hash \<noteq> None then ((hash, length content), m)
      else ((hash, length content), m(hash \<mapsto> content)))"

definition get :: "string \<Rightarrow> blobs \<Rightarrow> bytes option" where
  "get hash m = m hash"

definition has :: "string \<Rightarrow> blobs \<Rightarrow> bool" where
  "has hash m \<longleftrightarrow> m hash \<noteq> None"

text \<open>What a client of the store relies on: a content put can be got under its hash, and no put
  changes what is stored.\<close>

locale content_store =
  fixes put_in :: "'c \<Rightarrow> 's \<Rightarrow> ('h \<times> nat) \<times> 's"
    and get_from :: "'h \<Rightarrow> 's \<Rightarrow> 'c option"
    and good :: "'s \<Rightarrow> bool"
  assumes put_get: "good s \<Longrightarrow> get_from (fst (fst (put_in c s))) (snd (put_in c s)) = Some c"
    and put_keeps: "get_from h s = Some b \<Longrightarrow> get_from h (snd (put_in c s)) = Some b"
    and put_good: "good s \<Longrightarrow> good (snd (put_in c s))"
begin

definition put_all :: "'c list \<Rightarrow> 's \<Rightarrow> 's" where
  "put_all cs s = fold (\<lambda>c s. snd (put_in c s)) cs s"

lemma put_all_good: "good s \<Longrightarrow> good (put_all cs s)"
  by (induction cs arbitrary: s) (simp_all add: put_all_def put_good)

lemma put_all_keeps: "get_from h s = Some b \<Longrightarrow> get_from h (put_all cs s) = Some b"
  by (induction cs arbitrary: s) (simp_all add: put_all_def put_keeps)

end

text \<open>Every blob lies under its own hash, and the hash has no collisions.\<close>

definition blobs_good :: "(bytes \<Rightarrow> string) \<Rightarrow> blobs \<Rightarrow> bool" where
  "blobs_good sha m \<longleftrightarrow> inj sha \<and> (\<forall>h b. m h = Some b \<longrightarrow> sha b = h)"

interpretation blob: content_store "put sha" get "blobs_good sha" for sha
  by unfold_locales (auto simp: put_def get_def blobs_good_def Let_def inj_def split: if_splits)

section \<open>Baselines and changes\<close>

record file_baseline =
  fb_task :: string
  fb_path :: string
  fb_existed :: bool
  fb_blob :: "string option"
  fb_mode :: "nat option"
  fb_size :: nat
  fb_capturedAt :: int

datatype change_kind = Ch_created | Ch_modified | Ch_deleted | Ch_renamed

datatype change_author = By_agent | By_user | By_system

record change_record =
  fc_id :: string
  fc_task :: string
  fc_toolCall :: "string option"
  fc_path :: string
  fc_kind :: change_kind
  fc_before :: "string option"
  fc_after :: "string option"
  fc_patch :: "utext option"
  fc_renameTo :: "string option"
  fc_author :: change_author
  fc_createdAt :: int

record 'r change_repo =
  cr_getBaseline :: "string \<Rightarrow> string \<Rightarrow> 'r \<Rightarrow> file_baseline option"
  cr_saveBaseline :: "file_baseline \<Rightarrow> 'r \<Rightarrow> 'r"
  cr_baselinesFor :: "string \<Rightarrow> 'r \<Rightarrow> file_baseline list"
  cr_recordChange :: "change_record \<Rightarrow> 'r \<Rightarrow> 'r"
  cr_changesFor :: "string \<Rightarrow> 'r \<Rightarrow> change_record list"

text \<open>The contract of \<open>ChangeRepo\<close>. A change is recorded at a time when its row comes last
  (\<open>latest\<close>); in memory that is always.\<close>

locale change_log =
  fixes R :: "'r change_repo" and sound :: "'r \<Rightarrow> bool" and latest :: "change_record \<Rightarrow> 'r \<Rightarrow> bool"
  assumes get_save: "sound r \<Longrightarrow> cr_getBaseline R (fb_task b) (fb_path b) r = None \<Longrightarrow>
        cr_getBaseline R t p (cr_saveBaseline R b r) =
          (if t = fb_task b \<and> p = fb_path b then Some b else cr_getBaseline R t p r)"
    and save_sound: "sound r \<Longrightarrow> cr_getBaseline R (fb_task b) (fb_path b) r = None \<Longrightarrow>
        sound (cr_saveBaseline R b r)"
    and save_changes: "cr_changesFor R t (cr_saveBaseline R b r) = cr_changesFor R t r"
    and listed: "sound r \<Longrightarrow>
        b \<in> set (cr_baselinesFor R t r) \<longleftrightarrow> fb_task b = t \<and> cr_getBaseline R t (fb_path b) r = Some b"
    and one_each: "sound r \<Longrightarrow> distinct (map fb_path (cr_baselinesFor R t r))"
    and record_get: "cr_getBaseline R t p (cr_recordChange R c r) = cr_getBaseline R t p r"
    and record_sound: "sound r \<Longrightarrow> sound (cr_recordChange R c r)"
    and record_changes: "latest c r \<Longrightarrow> cr_changesFor R t (cr_recordChange R c r) =
        cr_changesFor R t r @ (if fc_task c = t then [c] else [])"
begin

lemma get_path: "sound r \<Longrightarrow> cr_getBaseline R t p r = Some b \<Longrightarrow> b \<in> set (cr_baselinesFor R t r) \<Longrightarrow> fb_task b = t"
  using listed by blast

lemma listed_get: "sound r \<Longrightarrow> b \<in> set (cr_baselinesFor R t r) \<Longrightarrow> cr_getBaseline R t (fb_path b) r = Some b"
  using listed by blast

end

subsection \<open>In memory\<close>

type_synonym memory_repo = "((string \<times> string) \<times> file_baseline) list \<times> change_record list"

definition InMemoryChangeRepo :: "memory_repo change_repo" where
  "InMemoryChangeRepo =
     \<lparr> cr_getBaseline = (\<lambda>t p (bs, cs). map_of bs (t, p)),
       cr_saveBaseline = (\<lambda>b (bs, cs). (AList.update (fb_task b, fb_path b) b bs, cs)),
       cr_baselinesFor = (\<lambda>t (bs, cs). filter (\<lambda>b. fb_task b = t) (map snd bs)),
       cr_recordChange = (\<lambda>c (bs, cs). (bs, cs @ [c])),
       cr_changesFor = (\<lambda>t (bs, cs). filter (\<lambda>c. fc_task c = t) cs) \<rparr>"

definition memory_sound :: "memory_repo \<Rightarrow> bool" where
  "memory_sound r \<longleftrightarrow> distinct (map fst (fst r)) \<and>
     (\<forall>(k, b)\<in>set (fst r). k = (fb_task b, fb_path b))"

lemma memory_simps [simp]:
  "cr_getBaseline InMemoryChangeRepo t p r = map_of (fst r) (t, p)"
  "cr_saveBaseline InMemoryChangeRepo b r = (AList.update (fb_task b, fb_path b) b (fst r), snd r)"
  "cr_baselinesFor InMemoryChangeRepo t r = filter (\<lambda>b. fb_task b = t) (map snd (fst r))"
  "cr_recordChange InMemoryChangeRepo c r = (fst r, snd r @ [c])"
  "cr_changesFor InMemoryChangeRepo t r = filter (\<lambda>c. fc_task c = t) (snd r)"
  by (simp_all add: InMemoryChangeRepo_def split_beta)

lemma memory_paths:
  assumes "memory_sound r"
  shows "distinct (map fb_path (filter (\<lambda>b. fb_task b = t) (map snd (fst r))))"
proof -
  have keys: "map fst (fst r) = map (\<lambda>(k, b). (fb_task b, fb_path b)) (fst r)"
    using assms by (auto simp: memory_sound_def)
  have "distinct (map (\<lambda>b. (fb_task b, fb_path b)) (map snd (fst r)))"
    using assms unfolding memory_sound_def keys by (simp add: comp_def case_prod_beta')
  then have "distinct (map (\<lambda>b. (fb_task b, fb_path b)) (filter (\<lambda>b. fb_task b = t) (map snd (fst r))))"
    by (rule distinct_map_filter)
  then show ?thesis by (simp add: distinct_map inj_on_def)
qed

interpretation memory: change_log InMemoryChangeRepo memory_sound "\<lambda>c r. True"
proof
  fix r :: memory_repo and b :: file_baseline and t p
  assume sound: "memory_sound r"
  then have keys: "distinct (map fst (fst r))" and own: "\<forall>(k, b)\<in>set (fst r). k = (fb_task b, fb_path b)"
    by (simp_all add: memory_sound_def)
  show "(b \<in> set (cr_baselinesFor InMemoryChangeRepo t r)) =
      (fb_task b = t \<and> cr_getBaseline InMemoryChangeRepo t (fb_path b) r = Some b)"
    using keys own by (force dest: map_of_SomeD)
  show "distinct (map fb_path (cr_baselinesFor InMemoryChangeRepo t r))"
    using memory_paths[OF sound] by simp
  show "memory_sound (cr_saveBaseline InMemoryChangeRepo b r)"
    if none: "cr_getBaseline InMemoryChangeRepo (fb_task b) (fb_path b) r = None"
  proof -
    have fresh: "(fb_task b, fb_path b) \<notin> fst ` set (fst r)" using none by (simp add: map_of_eq_None_iff)
    then show ?thesis using keys own by (auto simp: memory_sound_def update_fresh)
  qed
qed (auto simp: AList.update_conv' memory_sound_def)

subsection \<open>Over SQLite\<close>

text \<open>The tables \<open>file_baselines\<close> and \<open>file_changes\<close> in row order. \<open>INSERT OR IGNORE\<close> keeps an
  existing baseline. The log is read \<open>ORDER BY created_at, id\<close>.\<close>

type_synonym sqlite_repo = "file_baseline list \<times> change_record list"

definition SqliteChangeRepo :: "sqlite_repo change_repo" where
  "SqliteChangeRepo =
     \<lparr> cr_getBaseline = (\<lambda>t p (bs, cs). find (\<lambda>b. fb_task b = t \<and> fb_path b = p) bs),
       cr_saveBaseline = (\<lambda>b (bs, cs).
         (if find (\<lambda>a. fb_task a = fb_task b \<and> fb_path a = fb_path b) bs = None then bs @ [b] else bs, cs)),
       cr_baselinesFor = (\<lambda>t (bs, cs). filter (\<lambda>b. fb_task b = t) bs),
       cr_recordChange = (\<lambda>c (bs, cs). (bs, cs @ [c])),
       cr_changesFor = (\<lambda>t (bs, cs).
         sort_key (\<lambda>c. (fc_createdAt c, fc_id c)) (filter (\<lambda>c. fc_task c = t) cs)) \<rparr>"

definition sqlite_sound :: "sqlite_repo \<Rightarrow> bool" where
  "sqlite_sound r \<longleftrightarrow> distinct (map (\<lambda>b. (fb_task b, fb_path b)) (fst r))"

text \<open>The row of a change comes last when no earlier row has a later time, or its own time and a
  greater identifier.\<close>

definition sqlite_latest :: "change_record \<Rightarrow> sqlite_repo \<Rightarrow> bool" where
  "sqlite_latest c r \<longleftrightarrow> (\<forall>d\<in>set (snd r). (fc_createdAt d, fc_id d) \<le> (fc_createdAt c, fc_id c))"

lemma sqlite_simps [simp]:
  "cr_getBaseline SqliteChangeRepo t p r = find (\<lambda>b. fb_task b = t \<and> fb_path b = p) (fst r)"
  "cr_saveBaseline SqliteChangeRepo b r =
     (if find (\<lambda>a. fb_task a = fb_task b \<and> fb_path a = fb_path b) (fst r) = None then fst r @ [b] else fst r, snd r)"
  "cr_baselinesFor SqliteChangeRepo t r = filter (\<lambda>b. fb_task b = t) (fst r)"
  "cr_recordChange SqliteChangeRepo c r = (fst r, snd r @ [c])"
  "cr_changesFor SqliteChangeRepo t r =
     sort_key (\<lambda>c. (fc_createdAt c, fc_id c)) (filter (\<lambda>c. fc_task c = t) (snd r))"
  by (simp_all add: SqliteChangeRepo_def split_beta)

lemma insort_key_last: "f x \<le> f y \<Longrightarrow> insort_key f x (zs @ [y]) = insort_key f x zs @ [y]"
  by (induction zs) auto

lemma sort_key_last:
  "(\<And>x. x \<in> set xs \<Longrightarrow> f x \<le> f y) \<Longrightarrow> sort_key f (xs @ [y]) = sort_key f xs @ [y]"
  by (induction xs) (simp_all add: insort_key_last)

interpretation sqlite: change_log SqliteChangeRepo sqlite_sound sqlite_latest
proof
  fix r :: sqlite_repo and b :: file_baseline and t p
  assume sound: "sqlite_sound r"
  let ?key = "\<lambda>b. (fb_task b, fb_path b)"
  show "cr_getBaseline SqliteChangeRepo t p (cr_saveBaseline SqliteChangeRepo b r) =
      (if t = fb_task b \<and> p = fb_path b then Some b else cr_getBaseline SqliteChangeRepo t p r)"
    if none: "cr_getBaseline SqliteChangeRepo (fb_task b) (fb_path b) r = None"
    using none by (auto simp: find_append split: option.split)
  show "sqlite_sound (cr_saveBaseline SqliteChangeRepo b r)"
    if none: "cr_getBaseline SqliteChangeRepo (fb_task b) (fb_path b) r = None"
    using none sound by (auto simp: sqlite_sound_def find_None_iff)
  show "(b \<in> set (cr_baselinesFor SqliteChangeRepo t r)) =
      (fb_task b = t \<and> cr_getBaseline SqliteChangeRepo t (fb_path b) r = Some b)"
  proof -
    have "find (\<lambda>a. ?key a = (t, fb_path b)) (fst r) = Some b \<longleftrightarrow> b \<in> set (fst r) \<and> ?key b = (t, fb_path b)"
    proof
      assume "find (\<lambda>a. ?key a = (t, fb_path b)) (fst r) = Some b"
      then show "b \<in> set (fst r) \<and> ?key b = (t, fb_path b)" by (rule find_key_SomeD)
    next
      assume b: "b \<in> set (fst r) \<and> ?key b = (t, fb_path b)"
      then have "find (\<lambda>a. ?key a = ?key b) (fst r) = Some b"
        using sound by (intro find_key_distinct) (simp_all add: sqlite_sound_def)
      then show "find (\<lambda>a. ?key a = (t, fb_path b)) (fst r) = Some b" using b by simp
    qed
    then show ?thesis by (auto simp: conj_commute)
  qed
  have "distinct (map ?key (filter (\<lambda>b. fb_task b = t) (fst r)))"
    using sound unfolding sqlite_sound_def by (rule distinct_map_filter)
  then show "distinct (map fb_path (cr_baselinesFor SqliteChangeRepo t r))"
    by (simp add: distinct_map inj_on_def)
next
  fix c r t
  assume "sqlite_latest c r"
  then show "cr_changesFor SqliteChangeRepo t (cr_recordChange SqliteChangeRepo c r) =
      cr_changesFor SqliteChangeRepo t r @ (if fc_task c = t then [c] else [])"
    by (auto simp: sqlite_latest_def intro!: sort_key_last)
qed (auto simp: sqlite_sound_def)

end
