(* ===== verification/Change_Service.thy ===== *)
theory Change_Service
  imports Change_Store
begin

text \<open>
  \<open>packages/change-service/src/change-service.ts\<close> and \<open>review.ts\<close>: every write of a task goes
  through here. The state is the files and documents of the workspace (\<open>disk_state\<close>), the blobs
  and the repository of baselines and changes. Conflict contexts of the errors are not kept; the
  conflicts of a rollback are returned by \<open>rollbackPreflight\<close>, and the error of \<open>rollback\<close>
  carries only its code. A write of a blob always succeeds.
\<close>

section \<open>The package diff\<close>

record diff_hunk =
  dh_oldStart :: nat
  dh_oldLines :: nat
  dh_newStart :: nat
  dh_newLines :: nat
  dh_lines :: "utext list"

record structured_patch =
  sp_oldFile :: string
  sp_newFile :: string
  sp_hunks :: "diff_hunk list"

text \<open>\<open>applyPatch\<close>, \<open>createTwoFilesPatch\<close> with empty headers, \<open>parsePatch\<close> (\<open>None\<close> when it throws),
  \<open>reversePatch\<close> and \<open>formatPatch\<close>.\<close>

record diff_lib =
  df_apply :: "utext \<Rightarrow> utext \<Rightarrow> utext option"
  df_twoFiles :: "string \<Rightarrow> string \<Rightarrow> utext \<Rightarrow> utext \<Rightarrow> utext"
  df_parse :: "utext \<Rightarrow> structured_patch list option"
  df_reverse :: "structured_patch \<Rightarrow> structured_patch"
  df_format :: "structured_patch \<Rightarrow> utext"

section \<open>Review hunks\<close>

record review_hunk =
  rh_key :: string
  rh_hunk :: diff_hunk

definition js_white :: "nat \<Rightarrow> bool" where
  "js_white c \<longleftrightarrow> c \<in> set [9, 10, 11, 12, 13, 32, 0xA0, 0x1680, 0x2028, 0x2029, 0x202F, 0x205F, 0x3000, 0xFEFF] \<or>
     (0x2000 \<le> c \<and> c \<le> 0x200A)"

text \<open>The second copy of a hunk and later ones get an ordinal suffix.\<close>

fun number_hunks ::
    "(bytes \<Rightarrow> string) \<Rightarrow> (string \<times> nat) list \<Rightarrow> diff_hunk list \<Rightarrow> review_hunk list" where
  "number_hunks sha seen [] = []"
| "number_hunks sha seen (h # hs) =
     (let base = take 16 (sha (utf8_encode (join_with [10] (dh_lines h))));
          dup = or_else 0 (map_of seen base);
          key = (if dup > 0 then base @ ''#'' @ show_nat dup else base)
      in \<lparr> rh_key = key, rh_hunk = h \<rparr> # number_hunks sha (AList.update base (dup + 1) seen) hs)"

definition parseHunks :: "(bytes \<Rightarrow> string) \<Rightarrow> diff_lib \<Rightarrow> utext option \<Rightarrow> review_hunk list" where
  "parseHunks sha diff diffText =
     (case diffText of None \<Rightarrow> []
      | Some t \<Rightarrow>
          if list_all js_white t then []
          else (case df_parse diff t of None \<Rightarrow> []
            | Some files \<Rightarrow> number_hunks sha [] (concat (map sp_hunks files))))"

definition reverseHunkPatchText :: "diff_lib \<Rightarrow> string \<Rightarrow> review_hunk \<Rightarrow> utext" where
  "reverseHunkPatchText diff path hunk =
     df_format diff (df_reverse diff
       \<lparr> sp_oldFile = path, sp_newFile = path, sp_hunks = [rh_hunk hunk] \<rparr>)"

section \<open>State\<close>

record 'r change_env =
  ce_files :: file_env
  ce_repo :: "'r change_repo"
  ce_diff :: diff_lib
  ce_collate :: "string \<Rightarrow> string \<Rightarrow> bool"

record 'r change_state = disk_state +
  cs_blobs :: blobs
  cs_repo :: 'r

type_synonym ('a, 'r) svc = "'r change_state \<Rightarrow> (failure + 'a) \<times> 'r change_state"

definition query :: "('r change_state \<Rightarrow> 'a) \<Rightarrow> ('a, 'r) svc" where
  "query f s = (Inr (f s), s)"

definition chgError :: "string \<Rightarrow> ('a, 'r) svc" where
  "chgError code = fail_with (Product code)"

text \<open>\<open>sha\<close> of the service.\<close>

abbreviation sha :: "'r change_env \<Rightarrow> bytes \<Rightarrow> string" where
  "sha env \<equiv> fe_sha (ce_files env)"

definition putBlob :: "'r change_env \<Rightarrow> bytes \<Rightarrow> (string, 'r) svc" where
  "putBlob env content s =
     (let (r, m) = put (sha env) content (cs_blobs s) in (Inr (fst r), s\<lparr>cs_blobs := m\<rparr>))"

definition newChangeId :: "(string, 'r) svc" where
  "newChangeId s = (let (i, h) = newId ''chg'' (ds_host s) in (Inr i, s\<lparr>ds_host := h\<rparr>))"

definition recordChange ::
    "'r change_env \<Rightarrow> string \<Rightarrow> string option \<Rightarrow> string \<Rightarrow> change_kind \<Rightarrow> string option \<Rightarrow> string option \<Rightarrow>
     utext option \<Rightarrow> string option \<Rightarrow> change_author \<Rightarrow> (change_record, 'r) svc" where
  "recordChange env taskId toolCallId relativePath kind beforeHash afterHash patch renameTo author =
     andThen newChangeId (\<lambda>i. andThen clock (\<lambda>t s.
       let c = \<lparr> fc_id = i, fc_task = taskId, fc_toolCall = toolCallId, fc_path = relativePath,
                 fc_kind = kind, fc_before = beforeHash, fc_after = afterHash, fc_patch = patch,
                 fc_renameTo = renameTo, fc_author = author, fc_createdAt = t \<rparr>
       in (Inr c, s\<lparr>cs_repo := cr_recordChange (ce_repo env) c (cs_repo s)\<rparr>)))"

definition MAX_STORED_PATCH_BYTES :: nat where "MAX_STORED_PATCH_BYTES = 1048576"

definition boundedPatch :: "utext option \<Rightarrow> utext option" where
  "boundedPatch patch =
     (case patch of None \<Rightarrow> None
      | Some p \<Rightarrow> if length (utf8_encode p) > MAX_STORED_PATCH_BYTES then None else Some p)"

section \<open>Baselines\<close>

definition saveBaseline :: "'r change_env \<Rightarrow> file_baseline \<Rightarrow> (file_baseline, 'r) svc" where
  "saveBaseline env b s = (Inr b, s\<lparr>cs_repo := cr_saveBaseline (ce_repo env) b (cs_repo s)\<rparr>)"

definition absent_baseline :: "string \<Rightarrow> string \<Rightarrow> int \<Rightarrow> file_baseline" where
  "absent_baseline taskId relativePath t =
     \<lparr> fb_task = taskId, fb_path = relativePath, fb_existed = False, fb_blob = None, fb_mode = None,
       fb_size = 0, fb_capturedAt = t \<rparr>"

definition present_baseline ::
    "string \<Rightarrow> string \<Rightarrow> string \<Rightarrow> nat option \<Rightarrow> nat \<Rightarrow> int \<Rightarrow> file_baseline" where
  "present_baseline taskId relativePath hash mode len t =
     \<lparr> fb_task = taskId, fb_path = relativePath, fb_existed = True, fb_blob = Some hash,
       fb_mode = mode, fb_size = len, fb_capturedAt = t \<rparr>"

definition ensureBaseline :: "'r change_env \<Rightarrow> string \<Rightarrow> string \<Rightarrow> (file_baseline, 'r) svc" where
  "ensureBaseline env taskId relativePath s =
     (case cr_getBaseline (ce_repo env) taskId relativePath (cs_repo s) of Some b \<Rightarrow> (Inr b, s)
      | None \<Rightarrow>
          andThen (resolve (ce_files env) relativePath) (\<lambda>loc s.
            (case and_then (stat_mode (ds_fs s) loc) (\<lambda>m. and_then (readFile (ds_fs s) loc) (\<lambda>c. Inr (m, c))) of
               Inl e \<Rightarrow>
                 andThen clock (\<lambda>t. saveBaseline env (absent_baseline taskId relativePath t)) s
             | Inr (mode, content) \<Rightarrow>
                 andThen (putBlob env content) (\<lambda>hash. andThen clock (\<lambda>t.
                   saveBaseline env (present_baseline taskId relativePath hash (Some mode)
                     (length content) t))) s)) s)"

definition ensureBaselineFromBytes ::
    "'r change_env \<Rightarrow> string \<Rightarrow> string \<Rightarrow> bytes option \<Rightarrow> nat option \<Rightarrow> (file_baseline, 'r) svc" where
  "ensureBaselineFromBytes env taskId relativePath content mode s =
     (case cr_getBaseline (ce_repo env) taskId relativePath (cs_repo s) of Some b \<Rightarrow> (Inr b, s)
      | None \<Rightarrow>
          andThen (resolve (ce_files env) relativePath) (\<lambda>_.
            case content of
              None \<Rightarrow> andThen clock (\<lambda>t. saveBaseline env (absent_baseline taskId relativePath t))
            | Some c \<Rightarrow>
                andThen (putBlob env c) (\<lambda>hash. andThen clock (\<lambda>t.
                  saveBaseline env (present_baseline taskId relativePath hash mode (length c) t)))) s)"

section \<open>Changes observed from outside\<close>

definition last_change ::
    "'r change_env \<Rightarrow> string \<Rightarrow> string \<Rightarrow> 'r change_state \<Rightarrow> change_record option" where
  "last_change env taskId relativePath s =
     (let history = filter (\<lambda>c. fc_path c = relativePath) (cr_changesFor (ce_repo env) taskId (cs_repo s))
      in if history = [] then None else Some (last history))"

definition getBlob :: "string option \<Rightarrow> 'r change_state \<Rightarrow> bytes option" where
  "getBlob hash s = (case hash of None \<Rightarrow> None | Some h \<Rightarrow> get h (cs_blobs s))"

text \<open>A read whose error counts as no content.\<close>

definition read_or_null :: "tree \<Rightarrow> path \<Rightarrow> bytes option" where
  "read_or_null fs p = (case readFile fs p of Inl e \<Rightarrow> None | Inr c \<Rightarrow> Some c)"

definition text_or_empty :: "bytes option \<Rightarrow> utext" where
  "text_or_empty content = (case content of None \<Rightarrow> [] | Some c \<Rightarrow> utf8_decode c)"

definition is_binary :: "bytes option \<Rightarrow> bool" where
  "is_binary content = (case content of None \<Rightarrow> False | Some c \<Rightarrow> detectBinary c)"

definition recordExternalChange ::
    "'r change_env \<Rightarrow> string \<Rightarrow> string \<Rightarrow> change_kind \<Rightarrow> change_author \<Rightarrow> (change_record, 'r) svc" where
  "recordExternalChange env taskId relativePath kind author s =
     (let beforeHash = (case last_change env taskId relativePath s of
            Some c \<Rightarrow> fc_after c
          | None \<Rightarrow> (case cr_getBaseline (ce_repo env) taskId relativePath (cs_repo s) of
              None \<Rightarrow> None | Some b \<Rightarrow> fb_blob b));
          beforeBytes = getBlob beforeHash s
      in andThen (if kind \<noteq> Ch_deleted
                  then andThen (resolve (ce_files env) relativePath)
                         (\<lambda>loc. query (\<lambda>s. read_or_null (ds_fs s) loc))
                  else done_with None) (\<lambda>afterBytes.
         andThen (case afterBytes of None \<Rightarrow> done_with None
                  | Some c \<Rightarrow> andThen (putBlob env c) (\<lambda>h. done_with (Some h))) (\<lambda>afterHash.
         let patch = (if \<not> is_binary beforeBytes \<and> \<not> is_binary afterBytes
                      then boundedPatch (Some (df_twoFiles (ce_diff env) relativePath relativePath
                             (text_or_empty beforeBytes) (text_or_empty afterBytes)))
                      else None)
         in recordChange env taskId None relativePath kind beforeHash afterHash patch None author)) s)"

definition reconcileExternalChange ::
    "'r change_env \<Rightarrow> string \<Rightarrow> string \<Rightarrow> change_kind \<Rightarrow> bytes option \<Rightarrow> (change_record option, 'r) svc" where
  "reconcileExternalChange env taskId relativePath kind baselineBytes =
     andThen (ensureBaselineFromBytes env taskId relativePath baselineBytes None) (\<lambda>baseline s.
       let previousHash = (case last_change env taskId relativePath s of
             None \<Rightarrow> fb_blob baseline | Some c \<Rightarrow> coalesce (fc_after c) (fb_blob baseline))
       in andThen (if kind \<noteq> Ch_deleted
                   then andThen (resolve (ce_files env) relativePath)
                          (\<lambda>loc. query (\<lambda>s. map_option (sha env) (read_or_null (ds_fs s) loc)))
                   else done_with None) (\<lambda>currentHash.
          if previousHash = currentHash then done_with None
          else andThen (recordExternalChange env taskId relativePath kind By_system)
                 (\<lambda>c. done_with (Some c))) s)"

section \<open>Writing\<close>

definition change_temp :: "file_env \<Rightarrow> path \<Rightarrow> int \<Rightarrow> path" where
  "change_temp env loc t =
     butlast loc @ [''.pi-ide-chg.'' @ fe_pid env @ ''.'' @ show_nat (nat t) @ ''.tmp'']"

definition writeBytes :: "'r change_env \<Rightarrow> string \<Rightarrow> bytes \<Rightarrow> nat option \<Rightarrow> (unit, 'r) svc" where
  "writeBytes env relativePath content mode =
     andThen (resolve (ce_files env) relativePath) (\<lambda>loc.
     andThen (io_change (\<lambda>fs. mkdirp fs (butlast loc))) (\<lambda>_.
     andThen clock (\<lambda>t. let tmp = change_temp (ce_files env) loc t in
     andThen (io_change (\<lambda>fs. writeFile (fe_newMode (ce_files env)) fs tmp content)) (\<lambda>_.
     andThen (case mode of
                Some m \<Rightarrow> io_change (\<lambda>fs. chmod fs tmp m)
              | None \<Rightarrow> (\<lambda>s. case stat_mode (ds_fs s) loc of
                    Inl e \<Rightarrow> (Inr (), s)
                  | Inr m \<Rightarrow> (case chmod (ds_fs s) tmp m of
                        Inl e \<Rightarrow> (Inr (), s) | Inr fs \<Rightarrow> (Inr (), s\<lparr>ds_fs := fs\<rparr>)))) (\<lambda>_.
     io_change (\<lambda>fs. rename fs tmp loc))))))"

definition refreshDocument :: "'r change_env \<Rightarrow> string \<Rightarrow> (unit, 'r) svc" where
  "refreshDocument env path s =
     (if isOpen path s
      then andThen (handleExternalChange (ce_files env) path) (\<lambda>_. done_with ()) s
      else (Inr (), s))"

definition writeThrough :: "'r change_env \<Rightarrow> string \<Rightarrow> utext \<Rightarrow> (unit, 'r) svc" where
  "writeThrough env relativePath content s =
     (if isOpen relativePath s then
        andThen (updateBuffer (ce_files env) relativePath content) (\<lambda>_ s.
          case save (ce_files env) False relativePath s of
            (Inr d, t) \<Rightarrow> (Inr (), t)
          | (Inl e, t) \<Rightarrow>
              (Inl (if e = Product ''DOC_SAVE_CONFLICT'' then Product ''CHG_VERSION_CONFLICT'' else e), t)) s
      else writeBytes env relativePath (utf8_encode content) None s)"

fun count_diff :: "utext list \<Rightarrow> nat \<times> nat" where
  "count_diff [] = (0, 0)"
| "count_diff (l # ls) =
     (let (a, d) = count_diff ls in
      if take 1 l = [43] \<and> take 3 l \<noteq> [43, 43, 43] then (a + 1, d)
      else if take 1 l = [45] \<and> take 3 l \<noteq> [45, 45, 45] then (a, d + 1)
      else (a, d))"

fun split_newline :: "utext \<Rightarrow> utext \<Rightarrow> utext list" where
  "split_newline acc [] = [rev acc]"
| "split_newline acc (c # cs) =
     (if c = 10 then rev acc # split_newline [] cs else split_newline (c # acc) cs)"

definition countDiff :: "utext \<Rightarrow> nat \<times> nat" where
  "countDiff unified = count_diff (split_newline [] unified)"

definition logical_or_null :: "'r change_env \<Rightarrow> string \<Rightarrow> 'r change_state \<Rightarrow> logical option" where
  "logical_or_null env path s =
     (case readLogical (ce_files env) path s of Inl e \<Rightarrow> None | Inr l \<Rightarrow> Some l)"

record apply_result =
  ap_afterHash :: string
  ap_additions :: nat
  ap_deletions :: nat

definition applyPatch ::
    "'r change_env \<Rightarrow> string \<Rightarrow> string option \<Rightarrow> string \<Rightarrow> utext \<Rightarrow> string \<Rightarrow> (apply_result, 'r) svc" where
  "applyPatch env taskId toolCallId path patch baseHash =
     andThen (resolve (ce_files env) path) (\<lambda>_.
     andThen (ensureBaseline env taskId path) (\<lambda>_.
     andThen (query (logical_or_null env path)) (\<lambda>logical.
     case logical of None \<Rightarrow> chgError ''CHG_TARGET_MISSING''
     | Some current \<Rightarrow>
         if lg_binary current then chgError ''CHG_BINARY''
         else if baseHash \<noteq> lg_hash current then chgError ''CHG_VERSION_CONFLICT''
         else (case df_apply (ce_diff env) (lg_content current) patch of
             None \<Rightarrow> chgError ''CHG_PATCH_FAILED''
           | Some nxt \<Rightarrow>
               andThen (writeThrough env path nxt) (\<lambda>_.
               let afterHash = text_sha (ce_files env) nxt in
               andThen (putBlob env (utf8_encode nxt)) (\<lambda>_.
               let stored = df_twoFiles (ce_diff env) path path (lg_content current) nxt;
                   (a, d) = countDiff stored
               in andThen (recordChange env taskId toolCallId path Ch_modified
                        (Some (lg_hash current)) (Some afterHash) (boundedPatch (Some stored)) None By_agent)
                  (\<lambda>_. done_with \<lparr> ap_afterHash = afterHash, ap_additions = a, ap_deletions = d \<rparr>)))))))"

definition writeFileDirect ::
    "'r change_env \<Rightarrow> string \<Rightarrow> string option \<Rightarrow> string \<Rightarrow> bytes \<Rightarrow> change_author \<Rightarrow> (string, 'r) svc" where
  "writeFileDirect env taskId toolCallId path content author =
     andThen (ensureBaseline env taskId path) (\<lambda>_.
     andThen (query (logical_or_null env path)) (\<lambda>before.
     andThen (writeBytes env path content None) (\<lambda>_.
     andThen (refreshDocument env path) (\<lambda>_.
     let afterHash = sha env content in
     andThen (putBlob env content) (\<lambda>_.
     andThen (recordChange env taskId toolCallId path
                (if before \<noteq> None then Ch_modified else Ch_created)
                (map_option lg_hash before) (Some afterHash) None None author)
       (\<lambda>_. done_with afterHash))))))"

definition createFile ::
    "'r change_env \<Rightarrow> string \<Rightarrow> string option \<Rightarrow> string \<Rightarrow> utext \<Rightarrow> (string, 'r) svc" where
  "createFile env taskId toolCallId path content =
     andThen (resolve (ce_files env) path) (\<lambda>loc.
     andThen (query (\<lambda>s. accessible (ds_fs s) loc)) (\<lambda>exists.
     if exists then chgError ''CHG_ALREADY_EXISTS''
     else
       andThen (ensureBaseline env taskId path) (\<lambda>_.
       andThen (io_change (\<lambda>fs. mkdirp fs (butlast loc))) (\<lambda>_.
       andThen (writeBytes env path (utf8_encode content) None) (\<lambda>_.
       let afterHash = text_sha (ce_files env) content in
       andThen (putBlob env (utf8_encode content)) (\<lambda>_.
       andThen (recordChange env taskId toolCallId path Ch_created None (Some afterHash)
                  (boundedPatch (Some (df_twoFiles (ce_diff env) path path [] content))) None By_agent)
         (\<lambda>_. done_with afterHash)))))))"

definition deleteFile ::
    "'r change_env \<Rightarrow> string \<Rightarrow> string option \<Rightarrow> string \<Rightarrow> (unit, 'r) svc" where
  "deleteFile env taskId toolCallId path =
     andThen (resolve (ce_files env) path) (\<lambda>loc.
     andThen (ensureBaseline env taskId path) (\<lambda>_.
     andThen (query (logical_or_null env path)) (\<lambda>current.
     if current = None then chgError ''CHG_TARGET_MISSING''
     else
       andThen (io_read (\<lambda>fs. readFile fs loc)) (\<lambda>content.
       andThen (putBlob env content) (\<lambda>_.
       andThen (io_change (\<lambda>fs. rm False fs loc)) (\<lambda>_.
       andThen (refreshDocument env path) (\<lambda>_.
       andThen (recordChange env taskId toolCallId path Ch_deleted (Some (sha env content)) None None
                  None By_agent) (\<lambda>_. done_with ()))))))))"

definition renameFile ::
    "'r change_env \<Rightarrow> string \<Rightarrow> string option \<Rightarrow> string \<Rightarrow> string \<Rightarrow> (unit, 'r) svc" where
  "renameFile env taskId toolCallId source target =
     andThen (resolve (ce_files env) source) (\<lambda>locFrom.
     andThen (resolve (ce_files env) target) (\<lambda>locTo.
     andThen (query (\<lambda>s. accessible (ds_fs s) locTo)) (\<lambda>exists.
     if exists then chgError ''CHG_ALREADY_EXISTS''
     else
       andThen (ensureBaseline env taskId source) (\<lambda>_.
       andThen (ensureBaseline env taskId target) (\<lambda>_.
       andThen (io_read (\<lambda>fs. readFile fs locFrom)) (\<lambda>content.
       andThen (putBlob env content) (\<lambda>_.
       andThen (io_change (\<lambda>fs. mkdirp fs (butlast locTo))) (\<lambda>_.
       andThen (io_change (\<lambda>fs. rename fs locFrom locTo)) (\<lambda>_.
       andThen (recordChange env taskId toolCallId source Ch_renamed (Some (sha env content))
                  (Some (sha env content)) None (Some target) By_agent) (\<lambda>_. done_with ()))))))))))"

end
