(* ===== verification/Change_Review.thy ===== *)
theory Change_Review
  imports Change_Service
begin

text \<open>
  The second half of \<open>change-service.ts\<close>: the net change set of a task, the review of one file
  or hunk, and the rollbacks.
\<close>

fun collect :: "('x \<Rightarrow> ('y, 'r) svc) \<Rightarrow> 'x list \<Rightarrow> ('y list, 'r) svc" where
  "collect f [] = done_with []"
| "collect f (x # xs) = andThen (f x) (\<lambda>y. andThen (collect f xs) (\<lambda>ys. done_with (y # ys)))"

text \<open>The hash of a file on disk, \<open>None\<close> when it cannot be read.\<close>

definition disk_hash :: "'r change_env \<Rightarrow> path \<Rightarrow> 'r change_state \<Rightarrow> string option" where
  "disk_hash env loc s = map_option (sha env) (read_or_null (ds_fs s) loc)"

section \<open>Net changes\<close>

record current_file =
  cf_content :: utext
  cf_hash :: string
  cf_binary :: bool

record change_set_file =
  sf_path :: string
  sf_status :: change_kind
  sf_renamedFrom :: "string option"
  sf_binary :: bool
  sf_diff :: "utext option"
  sf_additions :: nat
  sf_deletions :: nat
  sf_baselineHash :: "string option"
  sf_currentHash :: "string option"

record change_set =
  st_task :: string
  st_files :: "change_set_file list"
  st_additions :: nat
  st_deletions :: nat

definition renames_of :: "'r change_env \<Rightarrow> string \<Rightarrow> 'r change_state \<Rightarrow> change_record list" where
  "renames_of env taskId s =
     filter (\<lambda>c. fc_kind c = Ch_renamed) (cr_changesFor (ce_repo env) taskId (cs_repo s))"

definition renamed_from :: "change_record list \<Rightarrow> string \<Rightarrow> string option" where
  "renamed_from renames path = map_option fc_path (find (\<lambda>r. fc_renameTo r = Some path) renames)"

definition renamed_to :: "change_record list \<Rightarrow> string \<Rightarrow> string option" where
  "renamed_to renames path =
     (case find (\<lambda>r. fc_path r = path) renames of None \<Rightarrow> None | Some r \<Rightarrow> fc_renameTo r)"

definition baseline_text :: "bytes option \<Rightarrow> utext" where
  "baseline_text content = (case content of None \<Rightarrow> [] | Some c \<Rightarrow> stripBom (utf8_decode c))"

text \<open>One step of the loop: \<open>None\<close> where the loop continues without an entry.\<close>

definition project_file ::
    "'r change_env \<Rightarrow> change_record list \<Rightarrow> current_file option \<Rightarrow> bytes option \<Rightarrow> file_baseline \<Rightarrow>
     change_set_file option" where
  "project_file env renames current baselineBytes b =
     (let path = fb_path b; from = renamed_from renames path;
          baselineHash = map_option (\<lambda>c. text_sha (ce_files env) (stripBom (utf8_decode c))) baselineBytes;
          status =
            (if \<not> fb_existed b then
               (if current = None then None
                else Some (if from \<noteq> None \<and> from \<noteq> Some [] then Ch_renamed else Ch_created))
             else if current = None then
               (if renamed_to renames path \<noteq> None \<and> renamed_to renames path \<noteq> Some [] then None
                else Some Ch_deleted)
             else if baselineHash \<noteq> map_option cf_hash current then Some Ch_modified
             else None)
      in case status of None \<Rightarrow> None
      | Some st \<Rightarrow>
          let binary = (is_binary baselineBytes \<or> (case current of None \<Rightarrow> False | Some c \<Rightarrow> cf_binary c));
              diff = (if binary then None
                else Some (df_twoFiles (ce_diff env) (or_else path from) path
                       (if st = Ch_created then [] else baseline_text baselineBytes)
                       (case current of None \<Rightarrow> [] | Some c \<Rightarrow> cf_content c)));
              (a, d) = (case diff of None \<Rightarrow> (0, 0) | Some t \<Rightarrow> countDiff t)
          in Some \<lparr> sf_path = path, sf_status = st, sf_renamedFrom = from, sf_binary = binary,
                    sf_diff = diff, sf_additions = a, sf_deletions = d, sf_baselineHash = fb_blob b,
                    sf_currentHash = map_option cf_hash current \<rparr>)"

fun insert_by :: "('a \<Rightarrow> 'a \<Rightarrow> bool) \<Rightarrow> 'a \<Rightarrow> 'a list \<Rightarrow> 'a list" where
  "insert_by le x [] = [x]"
| "insert_by le x (y # ys) = (if le x y then x # y # ys else y # insert_by le x ys)"

definition projectChangeSet ::
    "'r change_env \<Rightarrow> string \<Rightarrow> (string \<Rightarrow> 'r change_state \<Rightarrow> current_file option) \<Rightarrow> 'r change_state \<Rightarrow>
     change_set" where
  "projectChangeSet env taskId readCurrent s =
     (let files = List.map_filter
            (\<lambda>b. project_file env (renames_of env taskId s) (readCurrent (fb_path b) s)
                   (getBlob (fb_blob b) s) b)
            (cr_baselinesFor (ce_repo env) taskId (cs_repo s))
      in \<lparr> st_task = taskId,
           st_files = foldr (insert_by (\<lambda>a b. ce_collate env (sf_path a) (sf_path b))) files [],
           st_additions = sum_list (map sf_additions files),
           st_deletions = sum_list (map sf_deletions files) \<rparr>)"

definition logical_current :: "'r change_env \<Rightarrow> string \<Rightarrow> 'r change_state \<Rightarrow> current_file option" where
  "logical_current env path s =
     map_option (\<lambda>l. \<lparr> cf_content = lg_content l, cf_hash = lg_hash l, cf_binary = lg_binary l \<rparr>)
       (logical_or_null env path s)"

definition changeSet :: "'r change_env \<Rightarrow> string \<Rightarrow> 'r change_state \<Rightarrow> change_set" where
  "changeSet env taskId s = projectChangeSet env taskId (logical_current env) s"

definition disk_current :: "'r change_env \<Rightarrow> string \<Rightarrow> 'r change_state \<Rightarrow> current_file option" where
  "disk_current env path s =
     (case resolveInsideRoot (ds_fs s) (fe_root (ce_files env)) path of
        Inl e \<Rightarrow> None
      | Inr loc \<Rightarrow>
          (case readFile (ds_fs s) loc of
             Inl e \<Rightarrow> None
           | Inr content \<Rightarrow>
               let binary = detectBinary content;
                   t = (if binary then [] else stripBom (utf8_decode content))
               in Some \<lparr> cf_content = t, cf_hash = text_sha (ce_files env) t, cf_binary = binary \<rparr>))"

definition changeSetFromDisk :: "'r change_env \<Rightarrow> string \<Rightarrow> 'r change_state \<Rightarrow> change_set" where
  "changeSetFromDisk env taskId s = projectChangeSet env taskId (disk_current env) s"

record file_contents =
  fs_baseline :: "utext option"
  fs_current :: "utext option"
  fs_binary :: bool

definition fileContents :: "'r change_env \<Rightarrow> string \<Rightarrow> string \<Rightarrow> 'r change_state \<Rightarrow> file_contents option" where
  "fileContents env taskId path s =
     (let baselines = cr_baselinesFor (ce_repo env) taskId (cs_repo s);
          from = renamed_from (renames_of env taskId s) path;
          own = find (\<lambda>b. fb_path b = path) baselines;
          baseline = (if own \<noteq> None then own
                      else case from of None \<Rightarrow> None | Some f \<Rightarrow> find (\<lambda>b. fb_path b = f) baselines)
      in case baseline of None \<Rightarrow> None
      | Some b \<Rightarrow>
          let content = getBlob (fb_blob b) s; current = logical_or_null env path s
          in Some \<lparr> fs_baseline =
                      (case content of None \<Rightarrow> None
                       | Some c \<Rightarrow> if fb_existed b then Some (stripBom (utf8_decode c)) else None),
                    fs_current =
                      (case current of None \<Rightarrow> None
                       | Some l \<Rightarrow> if lg_binary l then None else Some (lg_content l)),
                    fs_binary = (is_binary content \<or>
                      (case current of None \<Rightarrow> False | Some l \<Rightarrow> lg_binary l)) \<rparr>)"

section \<open>Rollback of a task\<close>

record rollback_conflict =
  rc_path :: string
  rc_reason :: string
  rc_currentHash :: "string option"
  rc_expectedHash :: "string option"

record preflight =
  pf_safe :: "string list"
  pf_already :: "string list"
  pf_conflicts :: "rollback_conflict list"

text \<open>The state the task believes it left on disk, folded from its log: \<open>Some None\<close> is a path it
  believes gone.\<close>

definition expect :: "change_record \<Rightarrow> (string \<times> string option) list \<Rightarrow> (string \<times> string option) list" where
  "expect c m =
     (case fc_kind c of
        Ch_created \<Rightarrow> AList.update (fc_path c) (fc_after c) m
      | Ch_modified \<Rightarrow> AList.update (fc_path c) (fc_after c) m
      | Ch_deleted \<Rightarrow> AList.update (fc_path c) None m
      | Ch_renamed \<Rightarrow>
          (let m' = AList.update (fc_path c) None m in
           case fc_renameTo c of None \<Rightarrow> m'
           | Some t \<Rightarrow> if t = [] then m' else AList.update t (fc_after c) m'))"

definition expectedPostTaskState ::
    "'r change_env \<Rightarrow> string \<Rightarrow> 'r change_state \<Rightarrow> (string \<times> string option) list" where
  "expectedPostTaskState env taskId s =
     fold expect (cr_changesFor (ce_repo env) taskId (cs_repo s)) []"

datatype rollback_class = Already | Safe | Conflict rollback_conflict

definition classify ::
    "'r change_env \<Rightarrow> (string \<times> string option) list \<Rightarrow> file_baseline \<Rightarrow>
     (string \<times> rollback_class, 'r) svc" where
  "classify env expected b =
     andThen (resolve (ce_files env) (fb_path b)) (\<lambda>loc s.
       let current = disk_hash env loc s;
           baselineHash = (if fb_existed b then fb_blob b else None);
           expectedHash = (case map_of expected (fb_path b) of None \<Rightarrow> current | Some h \<Rightarrow> h)
       in (Inr (fb_path b,
             if current = baselineHash then Already
             else if current = expectedHash then Safe
             else Conflict
               \<lparr> rc_path = fb_path b,
                 rc_reason = (if current = None
                   then ''The file was deleted outside this task after the task changed it.''
                   else ''The file was modified outside this task after the task changed it.''),
                 rc_currentHash = current, rc_expectedHash = expectedHash \<rparr>), s))"

definition rollbackPreflight :: "'r change_env \<Rightarrow> string \<Rightarrow> (preflight, 'r) svc" where
  "rollbackPreflight env taskId s =
     andThen (collect (classify env (expectedPostTaskState env taskId s))
                (cr_baselinesFor (ce_repo env) taskId (cs_repo s)))
       (\<lambda>cs. done_with
          \<lparr> pf_safe = map fst (filter (\<lambda>(p, c). c = Safe) cs),
            pf_already = map fst (filter (\<lambda>(p, c). c = Already) cs),
            pf_conflicts = List.map_filter (\<lambda>(p, c). case c of Conflict x \<Rightarrow> Some x | _ \<Rightarrow> None) cs \<rparr>) s"

record verification =
  vf_path :: string
  vf_ok :: bool
  vf_detail :: "string option"

record rollback_report =
  rr_ok :: bool
  rr_restored :: "string list"
  rr_verified :: "verification list"
  rr_overridden :: "string list"

definition verdict :: "string \<Rightarrow> bool \<Rightarrow> string option \<Rightarrow> verification" where
  "verdict path ok detail = \<lparr> vf_path = path, vf_ok = ok, vf_detail = detail \<rparr>"

text \<open>What one turn of the restoring loop adds to \<open>restored\<close> and to \<open>verified\<close>. An error is caught
  and becomes a failed verification; what was added before it stays.\<close>

type_synonym 'r restoring = "'r change_state \<Rightarrow> (string list \<times> verification list) \<times> 'r change_state"

definition caught :: "'r change_env \<Rightarrow> string \<Rightarrow> failure \<Rightarrow> verification" where
  "caught env path e = verdict path False (Some (fe_message (ce_files env) e))"

definition then_refresh ::
    "'r change_env \<Rightarrow> string \<Rightarrow> string list \<Rightarrow> verification list \<Rightarrow> 'r restoring" where
  "then_refresh env path restored verified s =
     (case refreshDocument env path s of
        (Inr u, t) \<Rightarrow> ((restored, verified), t)
      | (Inl e, t) \<Rightarrow> ((restored, verified @ [caught env path e]), t))"

definition remove_file :: "'r change_env \<Rightarrow> string \<Rightarrow> path \<Rightarrow> 'r restoring" where
  "remove_file env path loc s =
     (case io_change (\<lambda>fs. rm True fs loc) s of
        (Inl e, t) \<Rightarrow> (([], [caught env path e]), t)
      | (Inr u, t) \<Rightarrow>
          let there = accessible (ds_fs t) loc in
          then_refresh env path [path]
            [verdict path (\<not> there) (if there then Some ''file still exists'' else None)] t)"

definition restore_baseline :: "'r change_env \<Rightarrow> file_baseline \<Rightarrow> path \<Rightarrow> 'r restoring" where
  "restore_baseline env b loc s =
     (let path = fb_path b in
      if \<not> fb_existed b then remove_file env path loc s
      else case getBlob (fb_blob b) s of
        None \<Rightarrow> (([], [verdict path False (Some ''baseline blob missing'')]), s)
      | Some content \<Rightarrow>
          (case writeBytes env path content (fb_mode b) s of
             (Inl e, t) \<Rightarrow> (([], [caught env path e]), t)
           | (Inr u, t) \<Rightarrow>
               (case readFile (ds_fs t) loc of
                  Inl e \<Rightarrow> (([path], [caught env path (System e)]), t)
                | Inr roundTrip \<Rightarrow>
                    (case (case fb_mode b of None \<Rightarrow> Inr True
                           | Some m \<Rightarrow> and_then (stat_mode (ds_fs t) loc) (\<lambda>n. Inr (n = m))) of
                       Inl e \<Rightarrow> (([path], [caught env path (System e)]), t)
                     | Inr modeOk \<Rightarrow>
                         let same = (Some (sha env roundTrip) = fb_blob b) in
                         then_refresh env path [path]
                           [verdict path (same \<and> modeOk)
                              (if same then None else Some ''content mismatch'')] t))))"

fun restore_all ::
    "'r change_env \<Rightarrow> file_baseline list \<Rightarrow> (string list \<times> verification list, 'r) svc" where
  "restore_all env [] = done_with ([], [])"
| "restore_all env (b # bs) =
     andThen (resolve (ce_files env) (fb_path b)) (\<lambda>loc s.
       let ((r, v), t) = restore_baseline env b loc s in
       andThen (restore_all env bs) (\<lambda>(rs, vs). done_with (r @ rs, v @ vs)) t)"

definition rollback :: "'r change_env \<Rightarrow> string \<Rightarrow> bool \<Rightarrow> (rollback_report, 'r) svc" where
  "rollback env taskId force =
     andThen (rollbackPreflight env taskId) (\<lambda>pre.
     if pf_conflicts pre \<noteq> [] \<and> \<not> force then chgError ''CHG_ROLLBACK_CONFLICT''
     else
       (\<lambda>s. andThen (restore_all env (cr_baselinesFor (ce_repo env) taskId (cs_repo s))) (\<lambda>(restored, verified).
         done_with
           \<lparr> rr_ok = list_all vf_ok verified, rr_restored = restored, rr_verified = verified,
             rr_overridden = map rc_path (pf_conflicts pre) \<rparr>) s))"

section \<open>Rollback of a turn\<close>

record rollback_target =
  rt_path :: string
  rt_toHash :: "string option"
  rt_expected :: "string option"

record states_report =
  sr_ok :: bool
  sr_restored :: "string list"
  sr_verified :: "verification list"
  sr_conflicts :: "rollback_conflict list"

definition target_conflict ::
    "'r change_env \<Rightarrow> rollback_target \<Rightarrow> (rollback_conflict option, 'r) svc" where
  "target_conflict env target =
     andThen (resolve (ce_files env) (rt_path target)) (\<lambda>loc s.
       let current = disk_hash env loc s in
       (Inr (if current = rt_toHash target \<or> current = rt_expected target then None
             else Some \<lparr> rc_path = rt_path target,
               rc_reason = (if current = None
                 then ''The file was deleted outside this turn after the turn changed it.''
                 else ''The file was modified outside this turn after the turn changed it.''),
               rc_currentHash = current, rc_expectedHash = rt_expected target \<rparr>), s))"

definition restore_target :: "'r change_env \<Rightarrow> rollback_target \<Rightarrow> path \<Rightarrow> 'r restoring" where
  "restore_target env target loc s =
     (let path = rt_path target in
      if disk_hash env loc s = rt_toHash target then (([], [verdict path True None]), s)
      else case rt_toHash target of
        None \<Rightarrow> remove_file env path loc s
      | Some toHash \<Rightarrow>
          (case get toHash (cs_blobs s) of
             None \<Rightarrow> (([], [verdict path False (Some ''turn-boundary blob missing'')]), s)
           | Some content \<Rightarrow>
               (case writeBytes env path content None s of
                  (Inl e, t) \<Rightarrow> (([], [caught env path e]), t)
                | (Inr u, t) \<Rightarrow>
                    (case readFile (ds_fs t) loc of
                       Inl e \<Rightarrow> (([path], [caught env path (System e)]), t)
                     | Inr roundTrip \<Rightarrow>
                         let same = (sha env roundTrip = toHash) in
                         then_refresh env path [path]
                           [verdict path same (if same then None else Some ''content mismatch'')] t))))"

fun restore_targets ::
    "'r change_env \<Rightarrow> rollback_target list \<Rightarrow> (string list \<times> verification list, 'r) svc" where
  "restore_targets env [] = done_with ([], [])"
| "restore_targets env (x # xs) =
     andThen (resolve (ce_files env) (rt_path x)) (\<lambda>loc s.
       let ((r, v), t) = restore_target env x loc s in
       andThen (restore_targets env xs) (\<lambda>(rs, vs). done_with (r @ rs, v @ vs)) t)"

definition rollbackToStates ::
    "'r change_env \<Rightarrow> rollback_target list \<Rightarrow> bool \<Rightarrow> (states_report, 'r) svc" where
  "rollbackToStates env targets force =
     andThen (collect (target_conflict env) targets) (\<lambda>found.
       let conflicts = List.map_filter id found in
       if conflicts \<noteq> [] \<and> \<not> force
       then done_with \<lparr> sr_ok = False, sr_restored = [], sr_verified = [], sr_conflicts = conflicts \<rparr>
       else andThen (restore_targets env targets) (\<lambda>(restored, verified).
         done_with \<lparr> sr_ok = list_all vf_ok verified, sr_restored = restored, sr_verified = verified,
                     sr_conflicts = conflicts \<rparr>))"

section \<open>Review of one file\<close>

definition rejectHunk ::
    "'r change_env \<Rightarrow> string \<Rightarrow> string option \<Rightarrow> string \<Rightarrow> string \<Rightarrow> string \<Rightarrow> (string, 'r) svc" where
  "rejectHunk env taskId toolCallId path hunkKey expectedCurrentHash =
     andThen (query (logical_or_null env path)) (\<lambda>logical.
     case logical of None \<Rightarrow> chgError ''CHG_TARGET_MISSING''
     | Some current \<Rightarrow>
         if lg_binary current then chgError ''CHG_BINARY''
         else if lg_hash current \<noteq> expectedCurrentHash then chgError ''CHG_REVIEW_STALE''
         else (\<lambda>s.
           case cr_getBaseline (ce_repo env) taskId path (cs_repo s) of
             None \<Rightarrow> chgError ''CHG_NO_BASELINE'' s
           | Some b \<Rightarrow>
               let before = (if fb_existed b then baseline_text (getBlob (fb_blob b) s) else []);
                   diff = df_twoFiles (ce_diff env) path path before (lg_content current)
               in (case find (\<lambda>h. rh_key h = hunkKey) (parseHunks (sha env) (ce_diff env) (Some diff)) of
                  None \<Rightarrow> chgError ''CHG_REVIEW_STALE'' s
                | Some hunk \<Rightarrow>
                    (case df_apply (ce_diff env) (lg_content current)
                            (reverseHunkPatchText (ce_diff env) path hunk) of
                       None \<Rightarrow> chgError ''CHG_REVIEW_STALE'' s
                     | Some nxt \<Rightarrow>
                         writeFileDirect env taskId toolCallId path (utf8_encode nxt) By_user s))))"

datatype revert_kind = Reverted_restored | Reverted_removed | Reverted_noop

definition revertFile ::
    "'r change_env \<Rightarrow> string \<Rightarrow> string option \<Rightarrow> string \<Rightarrow> string option \<Rightarrow> (revert_kind, 'r) svc" where
  "revertFile env taskId toolCallId path expectedCurrentHash s =
     (case cr_getBaseline (ce_repo env) taskId path (cs_repo s) of
        None \<Rightarrow> chgError ''CHG_NO_BASELINE'' s
      | Some b \<Rightarrow>
          andThen (resolve (ce_files env) path) (\<lambda>loc s.
            if expectedCurrentHash \<noteq> None \<and>
               map_option lg_hash (logical_or_null env path s) \<noteq> expectedCurrentHash
            then chgError ''CHG_REVIEW_STALE'' s
            else if fb_existed b then
              (case getBlob (fb_blob b) s of
                 None \<Rightarrow> chgError ''CHG_BLOB_MISSING'' s
               | Some content \<Rightarrow>
                   let beforeHash = disk_hash env loc s in
                   if beforeHash = fb_blob b then (Inr Reverted_noop, s)
                   else
                     andThen (writeBytes env path content (fb_mode b)) (\<lambda>_.
                     andThen (refreshDocument env path) (\<lambda>_.
                     andThen (recordChange env taskId toolCallId path
                                (if beforeHash = None then Ch_created else Ch_modified)
                                beforeHash (fb_blob b) None None By_user)
                       (\<lambda>_. done_with Reverted_restored))) s)
            else case read_or_null (ds_fs s) loc of
              None \<Rightarrow> (Inr Reverted_removed, s)
            | Some existing \<Rightarrow>
                andThen (putBlob env existing) (\<lambda>_.
                andThen (io_change (\<lambda>fs. rm False fs loc)) (\<lambda>_.
                andThen (refreshDocument env path) (\<lambda>_.
                andThen (recordChange env taskId toolCallId path Ch_deleted (Some (sha env existing))
                           None None None By_user)
                  (\<lambda>_. done_with Reverted_removed)))) s) s)"

end
