(* ===== verification/Change_Safety.thy ===== *)
theory Change_Safety
  imports Change_Review
begin

text \<open>
  What the operations of the change service do on a workspace without symbolic links: the write of
  a file (\<open>writeBytes_run\<close>), its removal, and the restoring loop of a rollback.
\<close>

section \<open>The workspace\<close>

definition temp_name :: "file_env \<Rightarrow> int \<Rightarrow> string" where
  "temp_name env t = ''.pi-ide-chg.'' @ fe_pid env @ ''.'' @ show_nat (nat t) @ ''.tmp''"

lemma change_temp_name: "change_temp env loc t = butlast loc @ [temp_name env t]"
  by (simp add: change_temp_def temp_name_def)

lemma temp_name_plain [simp]: "temp_name env t \<noteq> ''..''"
  by (simp add: temp_name_def)

definition no_temp :: "file_env \<Rightarrow> tree \<Rightarrow> bool" where
  "no_temp env fs \<longleftrightarrow> (\<forall>p t. fs (p @ [temp_name env t]) = None)"

definition workspace_ok :: "file_env \<Rightarrow> tree \<Rightarrow> bool" where
  "workspace_ok env fs \<longleftrightarrow> tidy fs \<and> plain (fe_root env) \<and> node_at fs (fe_root env) = Some Dir \<and>
     fe_root env \<noteq> [] \<and> no_temp env fs"

definition place :: "'r change_env \<Rightarrow> string \<Rightarrow> path" where
  "place env p = lexical (fe_root (ce_files env)) p"

text \<open>A path inside the root with no segment that is a temporary name.\<close>

definition own_path :: "'r change_env \<Rightarrow> string \<Rightarrow> bool" where
  "own_path env p \<longleftrightarrow> acceptable (fe_root (ce_files env)) p \<and>
     (\<forall>x\<in>set (place env p). \<forall>t. x \<noteq> temp_name (ce_files env) t)"

text \<open>Nothing but a file stands at a path, and no file on the way to it.\<close>

definition free_way :: "tree \<Rightarrow> path \<Rightarrow> bool" where
  "free_way fs loc \<longleftrightarrow> passable fs (butlast loc) \<and> fs loc \<noteq> Some Dir"

lemma place_plain: "workspace_ok (ce_files env) fs \<Longrightarrow> plain (place env p)"
  by (simp add: workspace_ok_def place_def plain_lexical)

lemma place_nonempty: "workspace_ok (ce_files env) fs \<Longrightarrow> own_path env p \<Longrightarrow> place env p \<noteq> []"
  by (auto simp: workspace_ok_def own_path_def place_def acceptable_def inside_iff)

lemma resolve_run:
  assumes "workspace_ok (ce_files env) (ds_fs s)" and "own_path env p"
  shows "resolveInsideRoot (ds_fs s) (fe_root (ce_files env)) p = Inr (place env p)"
    and "resolve (ce_files env) p s = (Inr (place env p), s)"
  using assms resolve_tidy(1) by (auto simp: workspace_ok_def own_path_def place_def resolve_def)

section \<open>A file put in its place\<close>

definition placed :: "tree \<Rightarrow> path \<Rightarrow> bytes \<Rightarrow> nat \<Rightarrow> tree \<Rightarrow> bool" where
  "placed fs loc c m fs' \<longleftrightarrow> (\<exists>g. tidy g \<and> grown (butlast loc) fs g \<and> node_at g (butlast loc) = Some Dir \<and>
     g loc \<noteq> Some Dir \<and> fs' = g(loc \<mapsto> File c m))"

lemma grown_here: "grown (butlast p) fs g \<Longrightarrow> p \<noteq> [] \<Longrightarrow> g (butlast p @ [x]) = fs (butlast p @ [x])"
proof (rule grown_off)
  show "butlast p \<noteq> (butlast p @ [x]) @ r" for r
    by (metis append_Nil2 append_assoc append_self_conv list.distinct(1) append_is_Nil_conv)
qed

lemma placed_file:
  assumes "placed fs loc c m fs'" and "loc \<noteq> []"
  shows "file_at fs' q = (if q = loc then Some (c, m) else file_at fs q)"
proof -
  obtain g where g: "grown (butlast loc) fs g" "fs' = g(loc \<mapsto> File c m)" using assms(1) by (auto simp: placed_def)
  have "file_at fs' q = (if q = loc then Some (c, m) else file_at g q)"
    using g(2) assms(2) by (simp add: file_at_def node_at_def)
  then show ?thesis using grown_file[OF g(1), of q] by simp
qed

lemma placed_tidy: "placed fs loc c m fs' \<Longrightarrow> loc \<noteq> [] \<Longrightarrow> tidy fs'"
  unfolding placed_def by (auto intro!: tidy_insert)

lemma placed_dir:
  assumes "placed fs loc c m fs'" and "fs' q = Some Dir"
  shows "fs q = Some Dir \<or> (\<exists>r. butlast loc = q @ r)"
proof -
  obtain g where g: "grown (butlast loc) fs g" "fs' = g(loc \<mapsto> File c m)" using assms(1) by (auto simp: placed_def)
  then have "g q = Some Dir" using assms(2) by (auto split: if_splits)
  then show ?thesis using g(1) unfolding grown_def by metis
qed

lemma placed_keeps_dir:
  assumes "placed fs loc c m fs'" and "node_at fs q = Some Dir"
  shows "node_at fs' q = Some Dir"
proof (cases "q = []")
  case False
  obtain g where g: "grown (butlast loc) fs g" "fs' = g(loc \<mapsto> File c m)" "g loc \<noteq> Some Dir"
    using assms(1) by (auto simp: placed_def)
  then have "g q = Some Dir" using assms(2) False grown_node[OF g(1), of q] by simp
  then show ?thesis using g False by auto
qed simp

lemma placed_ok:
  assumes "placed fs loc c m fs'" and "workspace_ok env fs" and "loc \<noteq> []"
    and "\<forall>x\<in>set loc. \<forall>t. x \<noteq> temp_name env t"
  shows "workspace_ok env fs'"
proof -
  obtain g where g: "grown (butlast loc) fs g" "fs' = g(loc \<mapsto> File c m)" using assms(1) by (auto simp: placed_def)
  have "fs' (p @ [temp_name env t]) = None" for p t
  proof -
    have "loc \<noteq> p @ [temp_name env t]" using assms(4) by auto
    moreover have "butlast loc \<noteq> (p @ [temp_name env t]) @ r" for r
    proof
      assume "butlast loc = (p @ [temp_name env t]) @ r"
      then have "temp_name env t \<in> set (butlast loc)" by simp
      then show False using assms(4) by (auto dest: in_set_butlastD)
    qed
    then have "g (p @ [temp_name env t]) = fs (p @ [temp_name env t])" by (rule grown_off[OF g(1)])
    ultimately show ?thesis using g(2) assms(2) by (simp add: workspace_ok_def no_temp_def)
  qed
  then show ?thesis
    using assms(2) placed_tidy[OF assms(1,3)] placed_keeps_dir[OF assms(1)]
    by (simp add: workspace_ok_def no_temp_def del: node_at_simps(2))
qed

lemma writeBytes_run:
  assumes ok: "workspace_ok (ce_files env) (ds_fs s)" and own: "own_path env p"
    and free: "free_way (ds_fs s) (place env p)"
  obtains fs' h m where "writeBytes env p c mode s = (Inr (), s\<lparr>ds_host := h, ds_fs := fs'\<rparr>)"
    and "placed (ds_fs s) (place env p) c m fs'" and "mode = Some k \<Longrightarrow> m = k"
proof -
  let ?loc = "place env p" and ?fe = "ce_files env" and ?fs = "ds_fs s"
  have tidy: "tidy ?fs" using ok by (simp add: workspace_ok_def)
  have loc: "plain ?loc" "?loc \<noteq> []" using place_plain[OF ok] place_nonempty[OF ok own] by blast+
  obtain g where g: "mkdirp ?fs (butlast ?loc) = Inr g"
    using mkdirp_passable[OF tidy] free by (auto simp: free_way_def)
  note grown = mkdirp_grown[OF tidy g]
  obtain t h where t: "timestamp (ds_host s) = (t, h)" by (cases "timestamp (ds_host s)")
  let ?tmp = "butlast ?loc @ [temp_name ?fe t]"
  have tmp: "plain ?tmp" "?tmp \<noteq> []" "butlast ?tmp = butlast ?loc" using loc(1) by (simp_all add: plain_butlast)
  have "?fs ?tmp = None" using ok by (simp add: workspace_ok_def no_temp_def)
  then have g_tmp: "g ?tmp = None" using grown_here[OF grown(3) loc(2)] by simp
  have g_loc: "g ?loc = ?fs ?loc"
    using grown_here[OF grown(3) loc(2), of "last ?loc"] loc(2) by simp
  have away: "?tmp \<noteq> ?loc"
  proof
    assume "?tmp = ?loc"
    then have "temp_name ?fe t \<in> set ?loc" by (metis in_set_conv_decomp)
    then show False using own by (auto simp: own_path_def)
  qed
  have "g ?tmp \<noteq> Some Dir" "node_at g (butlast ?tmp) = Some Dir" using g_tmp grown(2) tmp(3) by simp_all
  then have w: "writeFile (fe_newMode ?fe) g ?tmp c = Inr (g(?tmp \<mapsto> File c (fe_newMode ?fe)))"
    using writeFile_tidy[OF grown(1) tmp(1,2)] g_tmp by metis
  let ?w = "\<lambda>m. g(?tmp \<mapsto> File c m)"
  have tidy_w: "tidy (?w m)" for m
    using tidy_insert[OF grown(1) tmp(2)] grown(2) tmp(3) g_tmp by simp
  have at_tmp: "file_at (?w m) ?tmp = Some (c, m)" for m using tmp(2) by (simp add: file_at_def node_at_def)
  have change: "chmod (?w m) ?tmp k = Inr (?w k)" for m k
    using chmod_tidy[OF tidy_w tmp(1) at_tmp, of m k] by simp
  have move: "rename (?w m) ?tmp ?loc = Inr (g(?loc \<mapsto> File c m))" for m
  proof -
    have "rename (?w m) ?tmp ?loc = Inr (((?w m)(?tmp := None))(?loc \<mapsto> File c m))"
    proof (rule rename_tidy[OF tidy_w tmp(1,2) loc])
      show "(?w m) ?tmp = Some (File c m)" by simp
      show "node_at (?w m) (butlast ?loc) = Some Dir"
        using grown(2) g_tmp by (cases "butlast ?loc = []") auto
      show "(?w m) ?loc \<noteq> Some Dir" using away g_loc free by (simp add: free_way_def)
    qed
    moreover have "(?w m)(?tmp := None) = g" using g_tmp by auto
    ultimately show ?thesis by simp
  qed
  have placed: "placed ?fs ?loc c m (g(?loc \<mapsto> File c m))" for m
    using grown g_loc free by (auto simp: placed_def free_way_def)
  have run: "writeBytes env p c mode s = (case mode of
        Some k \<Rightarrow> (Inr (), s\<lparr>ds_host := h, ds_fs := g(?loc \<mapsto> File c k)\<rparr>)
      | None \<Rightarrow> (case stat_mode (?w (fe_newMode ?fe)) ?loc of
          Inl e \<Rightarrow> (Inr (), s\<lparr>ds_host := h, ds_fs := g(?loc \<mapsto> File c (fe_newMode ?fe))\<rparr>)
        | Inr m \<Rightarrow> (Inr (), s\<lparr>ds_host := h, ds_fs := g(?loc \<mapsto> File c m)\<rparr>)))"
    unfolding writeBytes_def
    by (simp add: andThen_def resolve_run[OF ok own] io_change_def g clock_def t Let_def change_temp_name
        w change move split: option.split sum.split)
  show thesis
  proof (cases mode)
    case (Some j)
    then show thesis using that[of "g(?loc \<mapsto> File c j)" h j] run placed[of j] by simp
  next
    case None
    show thesis
    proof (cases "stat_mode (?w (fe_newMode ?fe)) ?loc")
      case (Inl e)
      then show thesis using that[of "g(?loc \<mapsto> File c (fe_newMode ?fe))" h "fe_newMode ?fe"] run None placed by simp
    next
      case (Inr m)
      then show thesis using that[of "g(?loc \<mapsto> File c m)" h m] run None placed by simp
    qed
  qed
qed

section \<open>Restoring\<close>

text \<open>The operations below leave the blobs and the repository alone.\<close>

definition same_stores :: "'r change_state \<Rightarrow> 'r change_state \<Rightarrow> bool" where
  "same_stores s t \<longleftrightarrow> cs_blobs t = cs_blobs s \<and> cs_repo t = cs_repo s"

lemma same_stores_simps [simp]:
  "same_stores s s" "same_stores s (s\<lparr>ds_host := h, ds_fs := fs\<rparr>)" "same_stores s (s\<lparr>ds_fs := fs\<rparr>)"
  by (simp_all add: same_stores_def)

lemma same_stores_trans: "same_stores s t \<Longrightarrow> same_stores t u \<Longrightarrow> same_stores s u"
  by (simp add: same_stores_def)

lemma refresh_run:
  assumes "workspace_ok (ce_files env) (ds_fs s)" and "own_path env p"
  obtains t where "refreshDocument env p s = (Inr (), t)" and "ds_fs t = ds_fs s" and "same_stores s t"
proof -
  have "\<exists>t. refreshDocument env p s = (Inr (), t) \<and> ds_fs t = ds_fs s \<and> same_stores s t"
  proof (cases "map_of (ds_docs s) p")
    case None
    then show ?thesis by (simp add: refreshDocument_def isOpen_def)
  next
    case (Some d)
    have host: "\<exists>b t. isOwnWrite p s = (Inr b, t) \<and> ds_fs t = ds_fs s \<and> same_stores s t"
      using Some by (simp add: isOwnWrite_def andThen_def clock_def done_with_def same_stores_def split: prod.split)
    then obtain b u where u: "isOwnWrite p s = (Inr b, u)" "ds_fs u = ds_fs s" "same_stores s u" by blast
    show ?thesis
      using Some u unfolding refreshDocument_def isOpen_def handleExternalChange_def
      by (cases "readFile (ds_fs s) (place env p)")
        (simp_all add: andThen_def resolve_run[OF assms] put_doc_def set_doc_def done_with_def same_stores_def)
  qed
  then show thesis using that by blast
qed

lemma rm_run:
  assumes ok: "workspace_ok env fs" and loc: "plain loc" "loc \<noteq> []" and free: "free_way fs loc"
  shows "rm True fs loc = Inr (fs(loc := None))"
proof -
  have tidy: "tidy fs" using ok by (simp add: workspace_ok_def)
  show ?thesis
  proof (cases "fs loc")
    case None
    have "node_at fs (butlast loc) = Some Dir \<or> realpath fs (butlast loc) = Inl ENOENT"
    proof (cases "node_at fs (butlast loc)")
      case None
      then show ?thesis
        using realpath_passable[OF tidy plain_butlast[OF loc(1)]] free by (simp add: free_way_def)
    next
      case (Some n)
      have "file_at fs (butlast loc) = None" using free by (auto simp: free_way_def passable_def)
      then show ?thesis using Some tidyD(3)[OF tidy, of "butlast loc"]
        by (cases n) (auto simp: file_at_def node_at_def split: if_splits)
    qed
    then show ?thesis using rm_tidy(2)[OF tidy loc None] None by (simp add: fun_upd_idem)
  next
    case (Some n)
    then obtain b m where "fs loc = Some (File b m)"
      using free tidyD(3)[OF tidy Some] by (cases n) (auto simp: free_way_def)
    then show ?thesis by (rule rm_tidy(1)[OF tidy loc])
  qed
qed

lemma removed_ok:
  assumes "workspace_ok env fs" and "fs loc \<noteq> Some Dir" and "loc \<noteq> []"
  shows "workspace_ok env (fs(loc := None))"
proof -
  have "node_at (fs(loc := None)) q = Some Dir" if "node_at fs q = Some Dir" for q
    using that assms(2) by (cases "q = []") auto
  then show ?thesis
    using assms(1) tidy_remove[of fs loc] assms(2) by (auto simp: workspace_ok_def no_temp_def simp del: node_at_simps(2))
qed

lemma remove_file_run:
  assumes ok: "workspace_ok (ce_files env) (ds_fs s)" and own: "own_path env p"
    and free: "free_way (ds_fs s) (place env p)"
  obtains t where "remove_file env p (place env p) s = (([p], [verdict p True None]), t)"
    and "ds_fs t = (ds_fs s)(place env p := None)" and "same_stores s t"
proof -
  let ?loc = "place env p" and ?u = "s\<lparr>ds_fs := (ds_fs s)(place env p := None)\<rparr>"
  have loc: "plain ?loc" "?loc \<noteq> []" using place_plain[OF ok] place_nonempty[OF ok own] by blast+
  have ok': "workspace_ok (ce_files env) (ds_fs ?u)"
    using removed_ok[OF ok _ loc(2)] free by (simp add: free_way_def)
  then have "\<not> accessible (ds_fs ?u) ?loc"
    using accessible_tidy[OF _ loc(1), of "ds_fs ?u"] loc(2) by (simp add: workspace_ok_def)
  moreover obtain t where "refreshDocument env p ?u = (Inr (), t)" "ds_fs t = ds_fs ?u" "same_stores ?u t"
    using refresh_run[OF ok' own] by blast
  ultimately show thesis
    using that[of t] rm_run[OF ok loc free]
    by (simp add: remove_file_def io_change_def then_refresh_def Let_def same_stores_def)
qed

text \<open>The content a baseline stands for.\<close>

definition stored :: "'r change_env \<Rightarrow> blobs \<Rightarrow> file_baseline \<Rightarrow> bool" where
  "stored env m b \<longleftrightarrow>
     (fb_existed b \<longrightarrow> (\<exists>c. fb_blob b = Some (sha env c) \<and> m (sha env c) = Some c))"

definition at_baseline :: "'r change_env \<Rightarrow> blobs \<Rightarrow> tree \<Rightarrow> file_baseline \<Rightarrow> bool" where
  "at_baseline env m fs b \<longleftrightarrow>
     (if fb_existed b
      then \<exists>c k. fb_blob b = Some (sha env c) \<and> m (sha env c) = Some c \<and>
             file_at fs (place env (fb_path b)) = Some (c, k) \<and> (\<forall>n. fb_mode b = Some n \<longrightarrow> k = n)
      else file_at fs (place env (fb_path b)) = None)"

text \<open>Restoring one path puts its baseline back, verifies it, and changes no other file.\<close>

lemma restore_baseline_run:
  assumes ok: "workspace_ok (ce_files env) (ds_fs s)" and own: "own_path env (fb_path b)"
    and free: "free_way (ds_fs s) (place env (fb_path b))" and stored: "stored env (cs_blobs s) b"
  obtains r v t where "restore_baseline env b (place env (fb_path b)) s = ((r, v), t)"
    and "list_all vf_ok v" and "same_stores s t" and "workspace_ok (ce_files env) (ds_fs t)"
    and "at_baseline env (cs_blobs s) (ds_fs t) b"
    and "\<And>q. q \<noteq> place env (fb_path b) \<Longrightarrow> file_at (ds_fs t) q = file_at (ds_fs s) q"
    and "\<And>q. ds_fs t q = Some Dir \<Longrightarrow> ds_fs s q = Some Dir \<or> (\<exists>r. butlast (place env (fb_path b)) = q @ r)"
proof (cases "fb_existed b")
  case False
  let ?loc = "place env (fb_path b)"
  have loc: "?loc \<noteq> []" using place_nonempty[OF ok own] .
  obtain t where t: "remove_file env (fb_path b) ?loc s = (([fb_path b], [verdict (fb_path b) True None]), t)"
    "ds_fs t = (ds_fs s)(?loc := None)" "same_stores s t"
    using remove_file_run[OF ok own free] by blast
  have "workspace_ok (ce_files env) (ds_fs t)"
    using removed_ok[OF ok _ loc] free t(2) by (simp add: free_way_def)
  moreover have "file_at (ds_fs t) q = (if q = ?loc then None else file_at (ds_fs s) q)" for q
    using t(2) loc by (simp add: file_at_def node_at_def)
  moreover have "ds_fs s q = Some Dir" if "ds_fs t q = Some Dir" for q
    using that t(2) by (simp split: if_splits)
  moreover have run: "restore_baseline env b ?loc s = (([fb_path b], [verdict (fb_path b) True None]), t)"
    using t(1) False by (simp add: restore_baseline_def)
  ultimately show thesis
    using that[OF run] t(3) False by (simp add: verdict_def at_baseline_def)
next
  case True
  let ?loc = "place env (fb_path b)"
  have loc: "plain ?loc" "?loc \<noteq> []" using place_plain[OF ok] place_nonempty[OF ok own] by blast+
  obtain c where c: "fb_blob b = Some (sha env c)" "cs_blobs s (sha env c) = Some c"
    using stored True by (auto simp: stored_def)
  obtain fs' h m where w: "writeBytes env (fb_path b) c (fb_mode b) s = (Inr (), s\<lparr>ds_host := h, ds_fs := fs'\<rparr>)"
    and placed: "placed (ds_fs s) ?loc c m fs'" and mode: "\<And>k. fb_mode b = Some k \<Longrightarrow> m = k"
    using writeBytes_run[OF ok own free, of c "fb_mode b" "the (fb_mode b)"] by (metis option.sel)
  let ?u = "s\<lparr>ds_host := h, ds_fs := fs'\<rparr>"
  have ok': "workspace_ok (ce_files env) fs'"
    using placed_ok[OF placed ok loc(2)] own by (simp add: own_path_def)
  then have tidy': "tidy fs'" by (simp add: workspace_ok_def)
  have content: "file_at fs' ?loc = Some (c, m)" using placed_file[OF placed loc(2)] by simp
  have "readFile fs' ?loc = Inr c" using readFile_tidy[OF tidy' loc(1)] content by blast
  moreover have "stat_mode fs' ?loc = Inr m" by (rule stat_tidy[OF tidy' loc(1) content])
  moreover obtain t where t: "refreshDocument env (fb_path b) ?u = (Inr (), t)" "ds_fs t = fs'" "same_stores ?u t"
    using refresh_run[of env ?u, OF _ own] ok' by auto
  moreover from calculation have "(case fb_mode b of None \<Rightarrow> Inr True
      | Some k \<Rightarrow> and_then (stat_mode (ds_fs ?u) ?loc) (\<lambda>n. Inr (n = k))) = Inr True"
    using mode by (auto split: option.split)
  ultimately have run: "restore_baseline env b ?loc s =
      (([fb_path b], [verdict (fb_path b) True None]), t)"
    using True c by (simp add: restore_baseline_def getBlob_def get_def w then_refresh_def Let_def)
  have base: "at_baseline env (cs_blobs s) fs' b" using True c content mode by (auto simp: at_baseline_def)
  show thesis
    using that[OF run] t ok' base placed_file[OF placed loc(2)] placed_dir[OF placed]
    by (simp add: verdict_def same_stores_def)
qed

section \<open>Rollback\<close>

lemma at_baseline_cong:
  "file_at fs (place env (fb_path b)) = file_at fs' (place env (fb_path b)) \<Longrightarrow>
     at_baseline env m fs b = at_baseline env m fs' b"
  by (simp add: at_baseline_def)

text \<open>No path of the task is another one of its paths or on the way to it.\<close>

definition apart :: "'r change_env \<Rightarrow> file_baseline list \<Rightarrow> bool" where
  "apart env bs \<longleftrightarrow> distinct (map (place env \<circ> fb_path) bs) \<and>
     (\<forall>a\<in>set bs. \<forall>b\<in>set bs. \<forall>r. place env (fb_path b) = place env (fb_path a) @ r \<longrightarrow> r = [])"

lemma apart_Cons:
  assumes "apart env (b # bs)"
  shows "apart env bs" and "place env (fb_path b) \<notin> (place env \<circ> fb_path) ` set bs"
    and "a \<in> set bs \<Longrightarrow> place env (fb_path b) = place env (fb_path a) @ q \<Longrightarrow> q = []"
    and "a \<in> set bs \<Longrightarrow> place env (fb_path a) = place env (fb_path b) @ q \<Longrightarrow> q = []"
proof -
  have d: "distinct (map (place env \<circ> fb_path) (b # bs))"
    and p: "\<forall>a\<in>set (b # bs). \<forall>c\<in>set (b # bs). \<forall>r. place env (fb_path c) = place env (fb_path a) @ r \<longrightarrow> r = []"
    using assms unfolding apart_def by blast+
  show "place env (fb_path b) \<notin> (place env \<circ> fb_path) ` set bs" using d by simp
  show "apart env bs" unfolding apart_def using d p by (metis distinct.simps(2) list.set_intros(2) list.simps(9))
  show "a \<in> set bs \<Longrightarrow> place env (fb_path b) = place env (fb_path a) @ q \<Longrightarrow> q = []"
    "a \<in> set bs \<Longrightarrow> place env (fb_path a) = place env (fb_path b) @ q \<Longrightarrow> q = []"
    using p by (meson list.set_intros)+
qed

definition restorable :: "'r change_env \<Rightarrow> blobs \<Rightarrow> tree \<Rightarrow> file_baseline \<Rightarrow> bool" where
  "restorable env m fs b \<longleftrightarrow> own_path env (fb_path b) \<and> free_way fs (place env (fb_path b)) \<and> stored env m b"

lemma restorable_later:
  assumes "restorable env m fs b" and "place env (fb_path b) \<noteq> []"
    and others: "\<And>q. q \<noteq> l \<Longrightarrow> file_at fs' q = file_at fs q"
    and dir: "\<And>q. fs' q = Some Dir \<Longrightarrow> fs q = Some Dir \<or> (\<exists>r. butlast l = q @ r)"
    and way: "\<And>r. place env (fb_path b) = l @ r \<Longrightarrow> r = []" "\<And>r. l = place env (fb_path b) @ r \<Longrightarrow> r = []"
    and "place env (fb_path b) \<noteq> l"
  shows "restorable env m fs' b"
proof -
  let ?loc = "place env (fb_path b)"
  have "file_at fs' q = None" if "butlast ?loc = q @ r" for q r
  proof -
    have "q \<noteq> l"
    proof
      assume "q = l"
      then have "?loc = l @ r @ [last ?loc]" using that assms(2) append_butlast_last_id[of ?loc] by simp
      then have "r @ [last ?loc] = []" by (rule way(1))
      then show False by simp
    qed
    then show ?thesis using others that assms(1) by (auto simp: restorable_def free_way_def passable_def)
  qed
  moreover have "fs' ?loc \<noteq> Some Dir"
  proof
    assume "fs' ?loc = Some Dir"
    then obtain r where r: "butlast l = ?loc @ r"
      using dir assms(1) by (auto simp: restorable_def free_way_def)
    then have "l \<noteq> []" using assms(2) by auto
    then have "l = ?loc @ r @ [last l]" using r append_butlast_last_id[of l] by simp
    then have "r @ [last l] = []" by (rule way(2))
    then show False by simp
  qed
  ultimately show ?thesis using assms(1) by (auto simp: restorable_def free_way_def passable_def)
qed

lemma restore_all_run:
  assumes "workspace_ok (ce_files env) (ds_fs s)" and "\<forall>b\<in>set bs. restorable env (cs_blobs s) (ds_fs s) b"
    and "apart env bs"
  shows "\<exists>r v t. restore_all env bs s = (Inr (r, v), t) \<and> list_all vf_ok v \<and> same_stores s t \<and>
    (\<forall>b\<in>set bs. at_baseline env (cs_blobs s) (ds_fs t) b) \<and>
    (\<forall>q. q \<notin> (place env \<circ> fb_path) ` set bs \<longrightarrow> file_at (ds_fs t) q = file_at (ds_fs s) q)"
  using assms
proof (induction bs arbitrary: s)
  case Nil
  then show ?case by (simp add: done_with_def)
next
  case (Cons b bs)
  let ?loc = "place env (fb_path b)"
  have b: "own_path env (fb_path b)" "free_way (ds_fs s) ?loc" "stored env (cs_blobs s) b"
    using Cons.prems(2) by (simp_all add: restorable_def)
  obtain r v t where t: "restore_baseline env b ?loc s = ((r, v), t)" "list_all vf_ok v" "same_stores s t"
    and ok: "workspace_ok (ce_files env) (ds_fs t)" and base: "at_baseline env (cs_blobs s) (ds_fs t) b"
    and others: "\<And>q. q \<noteq> ?loc \<Longrightarrow> file_at (ds_fs t) q = file_at (ds_fs s) q"
    and dir: "\<And>q. ds_fs t q = Some Dir \<Longrightarrow> ds_fs s q = Some Dir \<or> (\<exists>r. butlast ?loc = q @ r)"
    using restore_baseline_run[OF Cons.prems(1) b] by blast
  have blobs: "cs_blobs t = cs_blobs s" using t(3) by (simp add: same_stores_def)
  have "restorable env (cs_blobs t) (ds_fs t) a" if a: "a \<in> set bs" for a
  proof -
    have away: "place env (fb_path a) \<noteq> ?loc" using apart_Cons(2)[OF Cons.prems(3)] imageI[OF a, of "place env \<circ> fb_path"] by force
    have r: "restorable env (cs_blobs s) (ds_fs s) a" using Cons.prems(2) a by simp
    then have "place env (fb_path a) \<noteq> []" by (simp add: restorable_def place_nonempty[OF Cons.prems(1)])
    moreover have "place env (fb_path a) = ?loc @ q \<Longrightarrow> q = []" for q
      using apart_Cons(4)[OF Cons.prems(3) a] .
    moreover have "?loc = place env (fb_path a) @ q \<Longrightarrow> q = []" for q
      using apart_Cons(3)[OF Cons.prems(3) a] .
    ultimately show ?thesis unfolding blobs using restorable_later[OF r _ others dir _ _ away] by blast
  qed
  moreover have "apart env bs" by (rule apart_Cons(1)[OF Cons.prems(3)])
  ultimately obtain r' v' u where u: "restore_all env bs t = (Inr (r', v'), u)" "list_all vf_ok v'" "same_stores t u"
    "\<forall>a\<in>set bs. at_baseline env (cs_blobs s) (ds_fs u) a"
    "\<forall>q. q \<notin> (place env \<circ> fb_path) ` set bs \<longrightarrow> file_at (ds_fs u) q = file_at (ds_fs t) q"
    using Cons.IH[OF ok] blobs by auto
  have "?loc \<notin> (place env \<circ> fb_path) ` set bs" by (rule apart_Cons(2)[OF Cons.prems(3)])
  then have "at_baseline env (cs_blobs s) (ds_fs u) b" using at_baseline_cong[of "ds_fs u" env b "ds_fs t"] u(5) base by blast
  moreover have "restore_all env (b # bs) s = (Inr (r @ r', v @ v'), u)"
    using t(1) u(1) by (simp add: andThen_def resolve_run[OF Cons.prems(1) b(1)] done_with_def)
  ultimately show ?case using u t others same_stores_trans[OF t(3) u(3)] by (auto simp: list_all_append)
qed

text \<open>The change of a path that the task cannot account for.\<close>

definition foreign_change :: "'r change_env \<Rightarrow> string \<Rightarrow> 'r change_state \<Rightarrow> file_baseline \<Rightarrow> bool" where
  "foreign_change env taskId s b \<longleftrightarrow>
     (let current = disk_hash env (place env (fb_path b)) s in
      current \<noteq> (if fb_existed b then fb_blob b else None) \<and>
      (\<exists>h. map_of (expectedPostTaskState env taskId s) (fb_path b) = Some h \<and> h \<noteq> current))"

lemma collect_pure: "(\<And>x. x \<in> set xs \<Longrightarrow> f x s = (Inr (g x), s)) \<Longrightarrow> collect f xs s = (Inr (map g xs), s)"
  by (induction xs) (simp_all add: andThen_def done_with_def)

lemma map_filter_conflicts:
  assumes "\<And>b. b \<in> set bs \<Longrightarrow> (case h b of Conflict x \<Rightarrow> Q b \<and> rc_path x = fb_path b | _ \<Rightarrow> \<not> Q b)"
  shows "map rc_path (List.map_filter (\<lambda>(p, c). case c of Conflict x \<Rightarrow> Some x | _ \<Rightarrow> None)
      (map (\<lambda>b. (fb_path b, h b)) bs)) = map fb_path (filter Q bs)"
  using assms
proof (induction bs)
  case (Cons b bs)
  have "case h b of Conflict x \<Rightarrow> Q b \<and> rc_path x = fb_path b | _ \<Rightarrow> \<not> Q b" using Cons.prems by simp
  moreover have "map rc_path (List.map_filter (\<lambda>(p, c). case c of Conflict x \<Rightarrow> Some x | _ \<Rightarrow> None)
      (map (\<lambda>b. (fb_path b, h b)) bs)) = map fb_path (filter Q bs)"
    using Cons.IH Cons.prems by simp
  ultimately show ?case by (cases "h b") (simp_all add: List.map_filter_simps)
qed (simp add: List.map_filter_simps)

lemma preflight_run:
  assumes "workspace_ok (ce_files env) (ds_fs s)"
    and "\<forall>b\<in>set (cr_baselinesFor (ce_repo env) taskId (cs_repo s)). own_path env (fb_path b)"
  obtains pre where "rollbackPreflight env taskId s = (Inr pre, s)"
    and "map rc_path (pf_conflicts pre) =
      map fb_path (filter (foreign_change env taskId s) (cr_baselinesFor (ce_repo env) taskId (cs_repo s)))"
proof -
  let ?bs = "cr_baselinesFor (ce_repo env) taskId (cs_repo s)" and ?e = "expectedPostTaskState env taskId s"
  have "\<exists>h. classify env ?e b s = (Inr (fb_path b, h), s) \<and>
      (case h of Conflict x \<Rightarrow> foreign_change env taskId s b \<and> rc_path x = fb_path b
       | _ \<Rightarrow> \<not> foreign_change env taskId s b)" if "b \<in> set ?bs" for b
    using assms that
    by (auto simp: classify_def andThen_def resolve_run foreign_change_def Let_def split: option.split)
  then obtain h where h: "\<And>b. b \<in> set ?bs \<Longrightarrow> classify env ?e b s = (Inr (fb_path b, h b), s)"
    "\<And>b. b \<in> set ?bs \<Longrightarrow> (case h b of Conflict x \<Rightarrow> foreign_change env taskId s b \<and> rc_path x = fb_path b
       | _ \<Rightarrow> \<not> foreign_change env taskId s b)"
    by metis
  have "collect (classify env ?e) ?bs s = (Inr (map (\<lambda>b. (fb_path b, h b)) ?bs), s)"
    by (rule collect_pure) (rule h(1))
  then show thesis
    using that map_filter_conflicts[where bs = ?bs and h = h and Q = "foreign_change env taskId s", OF h(2)]
    by (simp add: rollbackPreflight_def andThen_def done_with_def)
qed

end
