(* ===== verification/Change_Baselines.thy ===== *)
theory Change_Baselines
  imports Change_Safety
begin

text \<open>
  What no operation of the change service undoes: a baseline stays as it was captured and its blob
  can be got (\<open>advance\<close>). The two operations that write the repository are met inside the locale
  \<open>change_log\<close>; the others follow by the rules of \<open>steady\<close>. \<open>service_step\<close> is one call of the
  service, or anything that happens to the workspace outside it.
\<close>

section \<open>Stores that only grow\<close>

definition intact :: "('r \<Rightarrow> bool) \<Rightarrow> 'r change_env \<Rightarrow> 'r change_state \<Rightarrow> bool" where
  "intact sound env s \<longleftrightarrow> sound (cs_repo s) \<and> blobs_good (sha env) (cs_blobs s) \<and>
     (\<forall>k p b. cr_getBaseline (ce_repo env) k p (cs_repo s) = Some b \<longrightarrow>
        fb_task b = k \<and> fb_path b = p \<and> stored env (cs_blobs s) b)"

definition advance :: "('r \<Rightarrow> bool) \<Rightarrow> 'r change_env \<Rightarrow> 'r change_state \<Rightarrow> 'r change_state \<Rightarrow> bool" where
  "advance sound env s t \<longleftrightarrow> (intact sound env s \<longrightarrow> intact sound env t \<and>
     (\<forall>k p b. cr_getBaseline (ce_repo env) k p (cs_repo s) = Some b \<longrightarrow>
        cr_getBaseline (ce_repo env) k p (cs_repo t) = Some b) \<and>
     (\<forall>h c. get h (cs_blobs s) = Some c \<longrightarrow> get h (cs_blobs t) = Some c))"

lemma advance_refl [simp]: "advance sound env s s"
  by (simp add: advance_def)

lemma advance_trans: "advance sound env s t \<Longrightarrow> advance sound env t u \<Longrightarrow> advance sound env s u"
  by (simp add: advance_def)

lemma advance_same: "same_stores s t \<Longrightarrow> advance sound env s t"
  by (simp add: same_stores_def advance_def intact_def)

definition steady :: "('r \<Rightarrow> bool) \<Rightarrow> 'r change_env \<Rightarrow> ('a, 'r) svc \<Rightarrow> bool" where
  "steady sound env m \<longleftrightarrow> (\<forall>s. advance sound env s (snd (m s)))"

definition quiet :: "('a, 'r) svc \<Rightarrow> bool" where
  "quiet m \<longleftrightarrow> (\<forall>s. same_stores s (snd (m s)))"

named_theorems quiet and steady

lemma quiet_steady: "quiet m \<Longrightarrow> steady sound env m"
  by (simp add: quiet_def steady_def advance_same)

lemma quiet_andThen [quiet]: "quiet m \<Longrightarrow> (\<And>x. quiet (f x)) \<Longrightarrow> quiet (andThen m f)"
  unfolding quiet_def andThen_def by (auto split: prod.split sum.split) (metis same_stores_trans snd_conv)+

lemma steady_andThen [steady]:
  "steady sound env m \<Longrightarrow> (\<And>x. steady sound env (f x)) \<Longrightarrow> steady sound env (andThen m f)"
  unfolding steady_def andThen_def by (auto split: prod.split sum.split) (metis advance_trans snd_conv)+

lemma quiet_basic [quiet]:
  "quiet (done_with x)" "quiet (fail_with e)" "quiet (chgError c)" "quiet (query f)" "quiet (io_read q)"
  "quiet (io_change g)" "quiet (resolve fe p)" "quiet clock" "quiet newChangeId" "quiet (put_doc p d)"
  "quiet (mustGet p)"
  by (simp_all add: quiet_def same_stores_def done_with_def fail_with_def chgError_def query_def io_read_def
      io_change_def resolve_def clock_def newChangeId_def put_doc_def set_doc_def mustGet_def
      split: sum.split prod.split option.split)

lemma quietD: "quiet m \<Longrightarrow> same_stores s (snd (m s))"
  by (simp add: quiet_def)

lemma steadyD: "steady sound env m \<Longrightarrow> advance sound env s (snd (m s))"
  by (simp add: steady_def)

text \<open>Branches on the state.\<close>

lemma quiet_branch [quiet]:
  "quiet (\<lambda>s. (r s, s))" "quiet (\<lambda>s. (r s, set_doc p d s))" "quiet (\<lambda>s. (r s, s\<lparr>ds_fs := h s\<rparr>))"
  "quiet m \<Longrightarrow> quiet n \<Longrightarrow> quiet (\<lambda>s. if c s then m s else n s)"
  "quiet m \<Longrightarrow> (\<And>x. quiet (f x)) \<Longrightarrow> quiet (\<lambda>s. case v s of None \<Rightarrow> m s | Some x \<Rightarrow> f x s)"
  "(\<And>e. quiet (g e)) \<Longrightarrow> (\<And>x. quiet (f x)) \<Longrightarrow> quiet (\<lambda>s. case w s of Inl e \<Rightarrow> g e s | Inr x \<Rightarrow> f x s)"
  by (auto simp: quiet_def set_doc_def same_stores_def split: option.split sum.split)

lemma quiet_outcome [quiet]:
  "quiet m \<Longrightarrow> quiet (\<lambda>s. case m s of (Inl e, t) \<Rightarrow> (g e, t) | (Inr x, t) \<Rightarrow> (h x, t))"
  unfolding quiet_def by (auto split: prod.split sum.split) (metis snd_conv)+

lemma steady_branch [steady]:
  "steady sound env m \<Longrightarrow> steady sound env n \<Longrightarrow> steady sound env (\<lambda>s. if c s then m s else n s)"
  "steady sound env m \<Longrightarrow> (\<And>x. steady sound env (f x)) \<Longrightarrow>
     steady sound env (\<lambda>s. case v s of None \<Rightarrow> m s | Some x \<Rightarrow> f x s)"
  "(\<And>e. steady sound env (g e)) \<Longrightarrow> (\<And>x. steady sound env (f x)) \<Longrightarrow>
     steady sound env (\<lambda>s. case w s of Inl e \<Rightarrow> g e s | Inr x \<Rightarrow> f x s)"
  by (auto simp: steady_def split: option.split sum.split)

lemma steady_here [steady]:
  assumes "\<And>s. steady sound env (m s)" and "\<And>s x. steady sound env (f s x)"
  shows "steady sound env (\<lambda>s. andThen (m s) (f s) s)"
  unfolding steady_def
proof
  fix s
  have "steady sound env (andThen (m s) (f s))" by (intro steady_andThen assms)
  then show "advance sound env s (snd (andThen (m s) (f s) s))" by (rule steadyD)
qed

lemma quiet_if [quiet]: "quiet m \<Longrightarrow> quiet n \<Longrightarrow> quiet (if c then m else n)"
  by simp

lemma quiet_option [quiet]:
  "quiet m \<Longrightarrow> (\<And>x. quiet (f x)) \<Longrightarrow> quiet (case v of None \<Rightarrow> m | Some x \<Rightarrow> f x)"
  by (simp split: option.split)

lemma steady_if [steady]: "steady sound env m \<Longrightarrow> steady sound env n \<Longrightarrow> steady sound env (if c then m else n)"
  by simp

lemma steady_option [steady]:
  "steady sound env m \<Longrightarrow> (\<And>x. steady sound env (f x)) \<Longrightarrow> steady sound env (case v of None \<Rightarrow> m | Some x \<Rightarrow> f x)"
  by (simp split: option.split)

section \<open>Documents and files\<close>

lemma quiet_documents [quiet]:
  "quiet (updateBuffer fe p c)" "quiet (isOwnWrite p)"
  unfolding updateBuffer_def isOwnWrite_def[abs_def] Let_def by (intro quiet)+

lemma quiet_write_atomically [quiet]: "quiet (write_atomically fe loc tmp data)"
proof -
  have "quiet (\<lambda>s. case m s of (Inr u, t) \<Rightarrow> (Inr (), t)
      | (Inl e, t) \<Rightarrow> (Inl x, (case rm True (ds_fs t) tmp of Inl e \<Rightarrow> t | Inr fs \<Rightarrow> t\<lparr>ds_fs := fs\<rparr>)))"
    if "quiet m" for m :: "(unit, 'a) svc" and x
    using that unfolding quiet_def same_stores_def
    by (auto split: prod.split sum.split) (metis snd_conv)+
  then show ?thesis unfolding write_atomically_def[abs_def] by this (intro quiet)
qed

lemma quiet_saving [quiet]: "quiet (save fe force p)" "quiet (handleExternalChange fe p)"
  unfolding save_def handleExternalChange_def[abs_def] Let_def by (intro quiet)+

lemma quiet_refreshDocument [quiet]: "quiet (refreshDocument env p)"
  unfolding refreshDocument_def[abs_def] by (intro quiet)

lemma quiet_writeBytes [quiet]: "quiet (writeBytes env p c mode)"
  unfolding writeBytes_def Let_def by (intro quiet)

lemma quiet_writeThrough [quiet]: "quiet (writeThrough env p c)"
proof -
  have "quiet (\<lambda>s. case save fe False p s of (Inr d, t) \<Rightarrow> (Inr (), t)
    | (Inl e, t) \<Rightarrow> (Inl (g e), t))" for fe g
    using quiet_outcome[OF quiet_saving(1)[of fe False p], of "\<lambda>e. Inl (g e)" "\<lambda>_. Inr ()"]
    by (rule back_subst[of quiet]) (auto split: prod.split sum.split)
  then show ?thesis unfolding writeThrough_def[abs_def] by (intro quiet)
qed

lemmas steady_quiet [steady] = quiet[THEN quiet_steady]

section \<open>Restoring\<close>

lemma quiet_remove_file: "same_stores s (snd (remove_file env p loc s))"
proof -
  obtain r t where t: "io_change (\<lambda>fs. rm True fs loc) s = (r, t)" by fastforce
  have st: "same_stores s t" using quietD[OF quiet_basic(6), of s "\<lambda>fs. rm True fs loc"] t by simp
  obtain r' u where u: "refreshDocument env p t = (r', u)" by fastforce
  have "same_stores t u" using quietD[OF quiet_refreshDocument, of t env p] u by simp
  then show ?thesis
    using t st u same_stores_trans by (auto simp: remove_file_def then_refresh_def Let_def split: sum.split)
qed

lemma quiet_then_refresh: "same_stores s (snd (then_refresh env p r v s))"
  using quietD[OF quiet_refreshDocument, of s env p] by (auto simp: then_refresh_def split: prod.split sum.split)

lemma quiet_restore_baseline: "same_stores s (snd (restore_baseline env b loc s))"
proof (cases "fb_existed b")
  case False
  then show ?thesis using quiet_remove_file by (simp add: restore_baseline_def)
next
  case True
  show ?thesis
  proof (cases "getBlob (fb_blob b) s")
    case (Some c)
    obtain r t where t: "writeBytes env (fb_path b) c (fb_mode b) s = (r, t)" by fastforce
    have "same_stores s t" using quietD[OF quiet_writeBytes, of s env "fb_path b" c "fb_mode b"] t by simp
    then show ?thesis
      using True Some t same_stores_trans[OF _ quiet_then_refresh]
      by (auto simp: restore_baseline_def Let_def split: sum.split)
  qed (use True in \<open>simp add: restore_baseline_def\<close>)
qed

lemma quiet_restore_target: "same_stores s (snd (restore_target env x loc s))"
proof (cases "disk_hash env loc s = rt_toHash x")
  case False
  show ?thesis
  proof (cases "rt_toHash x")
    case None
    then show ?thesis using False quiet_remove_file by (simp add: restore_target_def Let_def)
  next
    case (Some h)
    show ?thesis
    proof (cases "get h (cs_blobs s)")
      case (Some c)
      obtain r t where t: "writeBytes env (rt_path x) c None s = (r, t)" by fastforce
      have "same_stores s t" using quietD[OF quiet_writeBytes, of s env "rt_path x" c None] t by simp
      then show ?thesis
        using False \<open>rt_toHash x = Some h\<close> Some t same_stores_trans[OF _ quiet_then_refresh]
        by (auto simp: restore_target_def Let_def split: sum.split)
    qed (use False Some in \<open>simp add: restore_target_def\<close>)
  qed
qed (simp add: restore_target_def)

lemma quiet_turn:
  assumes "\<And>s. same_stores s (snd (m s))" and "quiet (n :: (string list \<times> verification list, 'r) svc)"
  shows "quiet (\<lambda>s. let ((r, v), t) = m s in andThen n (\<lambda>(rs, vs). done_with (r @ rs, v @ vs)) t)"
  unfolding quiet_def
proof
  fix s
  obtain r v t where m: "m s = ((r, v), t)" by (metis surj_pair)
  have "quiet (andThen n (\<lambda>(rs, vs). done_with (r @ rs, v @ vs)))"
    by (intro quiet_andThen assms(2)) (simp add: split_beta quiet)
  then have "same_stores t (snd (andThen n (\<lambda>(rs, vs). done_with (r @ rs, v @ vs)) t))" by (rule quietD)
  then show "same_stores s (snd (let ((r, v), t) = m s in andThen n (\<lambda>(rs, vs). done_with (r @ rs, v @ vs)) t))"
    using m assms(1)[of s] same_stores_trans by (simp add: Let_def) blast
qed

lemma quiet_restore_all [quiet]: "quiet (restore_all env bs)"
proof (induction bs)
  case (Cons b bs)
  show ?case unfolding restore_all.simps by (intro quiet quiet_turn quiet_restore_baseline Cons)
qed (simp add: quiet)

lemma quiet_restore_targets [quiet]: "quiet (restore_targets env xs)"
proof (induction xs)
  case (Cons x xs)
  show ?case unfolding restore_targets.simps by (intro quiet quiet_turn quiet_restore_target Cons)
qed (simp add: quiet)

lemma quiet_collect [quiet]: "(\<And>x. quiet (f x)) \<Longrightarrow> quiet (collect f xs)"
  by (induction xs) (simp_all add: quiet)

lemma quiet_rollback: "quiet (rollback env taskId force)" "quiet (rollbackToStates env targets force)"
proof -
  have pre: "quiet (rollbackPreflight env taskId)"
    unfolding rollbackPreflight_def[abs_def] quiet_def classify_def Let_def
    by (intro allI quietD quiet)
  have all: "quiet (\<lambda>s. andThen (restore_all env (bs s)) f s)"
    if "\<And>x. quiet (f x)" for bs and f :: "string list \<times> verification list \<Rightarrow> (rollback_report, 'a) svc"
    unfolding quiet_def using that by (intro allI quietD quiet)
  show "quiet (rollback env taskId force)" 
    unfolding rollback_def by (intro quiet pre all) (simp add: split_beta quiet)
  show "quiet (rollbackToStates env targets force)"
    unfolding rollbackToStates_def target_conflict_def Let_def by (intro quiet) (simp add: split_beta quiet)
qed

section \<open>The operations that write the stores\<close>

lemma steady_putBlob [steady]: "steady sound env (putBlob env c)"
proof -
  have "advance sound env s (snd (putBlob env c s))" for s
    using blob.put_keeps[of _ "cs_blobs s" _ "sha env" c] blob.put_good[of "sha env" "cs_blobs s" c]
    unfolding putBlob_def advance_def intact_def stored_def get_def
    by (simp add: split_beta) blast
  then show ?thesis by (simp add: steady_def)
qed

lemma put_hash [simp]: "fst (fst (put h c m)) = h c"
  by (simp add: put_def Let_def)

context change_log
begin

lemma steady_recordChange:
  assumes "ce_repo env = R"
  shows "steady sound env (recordChange env k c p kind x y patch to author)"
proof -
  have "steady sound env (\<lambda>s. (Inr (f i t),
      s\<lparr>cs_repo := cr_recordChange (ce_repo env) (f i t) (cs_repo s)\<rparr>))" for f i t
    unfolding steady_def advance_def intact_def assms by (simp add: record_get record_sound)
  then show ?thesis unfolding recordChange_def Let_def by (intro steady)
qed

lemma advance_save:
  assumes "ce_repo env = R" and "cr_getBaseline R (fb_task b) (fb_path b) (cs_repo s) = None"
    and "intact sound env s \<Longrightarrow> stored env (cs_blobs s) b"
  shows "advance sound env s (snd (saveBaseline env b s))"
  using assms unfolding saveBaseline_def advance_def intact_def
  by (auto simp: get_save save_sound)

text \<open>What a capture leaves when there was no baseline: the state before the row is written, and
  the row.\<close>

lemma capture_present:
  assumes "ce_repo env = R" and none: "cr_getBaseline R k p (cs_repo s) = None"
    and u: "u = (snd (putBlob env c s))\<lparr>ds_host := h\<rparr>"
  shows "advance sound env s (snd (saveBaseline env (present_baseline k p (sha env c) m n t) u))"
proof -
  have "advance sound env s (snd (putBlob env c s))" by (rule steadyD[OF steady_putBlob])
  moreover have "advance sound env (snd (putBlob env c s)) u" by (rule advance_same) (simp add: u same_stores_def)
  moreover have "cs_repo u = cs_repo s" by (simp add: u putBlob_def split_beta)
  moreover have "cs_blobs u (sha env c) \<noteq> None" by (simp add: u putBlob_def put_def Let_def)
  then have "intact sound env u \<Longrightarrow> cs_blobs u (sha env c) = Some c"
    by (auto simp: intact_def blobs_good_def inj_def)
  then have "intact sound env u \<Longrightarrow> stored env (cs_blobs u) (present_baseline k p (sha env c) m n t)"
    by (auto simp: stored_def present_baseline_def)
  ultimately show ?thesis
    using advance_save[of env "present_baseline k p (sha env c) m n t" u] assms(1) none advance_trans
    by (simp add: present_baseline_def) blast
qed

lemma capture_absent:
  assumes "ce_repo env = R" and "cr_getBaseline R k p (cs_repo s) = None" and "u = s\<lparr>ds_host := h\<rparr>"
  shows "advance sound env s (snd (saveBaseline env (absent_baseline k p t) u))"
proof -
  have "advance sound env s u" by (rule advance_same) (simp add: assms(3) same_stores_def)
  moreover have "advance sound env u (snd (saveBaseline env (absent_baseline k p t) u))"
    using assms by (intro advance_save) (simp_all add: absent_baseline_def stored_def)
  ultimately show ?thesis by (rule advance_trans)
qed

lemma steady_ensure:
  assumes "ce_repo env = R"
  shows "steady sound env (ensureBaseline env k p)" and "steady sound env (ensureBaselineFromBytes env k p c m)"
proof -
  have run: "advance sound env s (snd (ensureBaseline env k p s))"
    "advance sound env s (snd (ensureBaselineFromBytes env k p c m s))" for s
  proof -
    obtain t h where t: "timestamp (ds_host s) = (t, h)" by fastforce
    note facts = capture_absent[OF assms, where k = k and p = p and s = s and h = h, OF _ refl]
      capture_present[OF assms, where k = k and p = p and s = s and h = h, OF _ refl]
    show "advance sound env s (snd (ensureBaseline env k p s))"
      using facts t assms
      by (auto simp: ensureBaseline_def andThen_def resolve_def clock_def putBlob_def split_beta
          split: option.split sum.split)
    show "advance sound env s (snd (ensureBaselineFromBytes env k p c m s))"
      using facts t assms
      by (auto simp: ensureBaselineFromBytes_def andThen_def resolve_def clock_def putBlob_def split_beta
          split: option.split sum.split)
  qed
  then show "steady sound env (ensureBaseline env k p)" "steady sound env (ensureBaselineFromBytes env k p c m)"
    by (simp_all add: steady_def)
qed

lemma steady_changes:
  assumes "ce_repo env = R"
  shows "steady sound env (recordExternalChange env k p kind author)"
    and "steady sound env (reconcileExternalChange env k p kind c)"
    and "steady sound env (applyPatch env k call p patch base)"
    and "steady sound env (writeFileDirect env k call p data author)"
    and "steady sound env (createFile env k call p txt')"
    and "steady sound env (deleteFile env k call p)"
    and "steady sound env (renameFile env k call p p')"
proof -
  note rules = steady steady_ensure[OF assms] steady_recordChange[OF assms]
  have external: "steady sound env (recordExternalChange env k p kind author)" for author
    unfolding recordExternalChange_def[abs_def] Let_def by (intro rules)
  then show "steady sound env (recordExternalChange env k p kind author)" .
  show "steady sound env (reconcileExternalChange env k p kind c)"
    unfolding reconcileExternalChange_def Let_def by (intro rules external)
  show "steady sound env (applyPatch env k call p patch base)"
    unfolding applyPatch_def Let_def split_beta by (intro rules)
  show "steady sound env (writeFileDirect env k call p data author)"
    unfolding writeFileDirect_def Let_def by (intro rules)
  show "steady sound env (createFile env k call p txt')"
    unfolding createFile_def Let_def by (intro rules)
  show "steady sound env (deleteFile env k call p)"
    unfolding deleteFile_def Let_def by (intro rules)
  show "steady sound env (renameFile env k call p p')"
    unfolding renameFile_def Let_def by (intro rules)
qed

lemma steady_review:
  assumes "ce_repo env = R"
  shows "steady sound env (rejectHunk env k call p key hash)" and "steady sound env (revertFile env k call p expected)"
proof -
  note rules = steady steady_changes[OF assms] steady_recordChange[OF assms]
  show "steady sound env (rejectHunk env k call p key hash)"
    unfolding rejectHunk_def Let_def by (intro rules)
  show "steady sound env (revertFile env k call p expected)"
    unfolding revertFile_def[abs_def] Let_def by (intro rules)
qed

end

section \<open>Steps\<close>

text \<open>One call of the service, whatever it returns, or anything that changes only the workspace and
  the open documents.\<close>

inductive service_step :: "'r change_env \<Rightarrow> 'r change_state \<Rightarrow> 'r change_state \<Rightarrow> bool" for env where
  outside: "same_stores s t \<Longrightarrow> service_step env s t"
| captured: "ensureBaseline env k p s = (r, t) \<Longrightarrow> service_step env s t"
| captured_bytes: "ensureBaselineFromBytes env k p c m s = (r, t) \<Longrightarrow> service_step env s t"
| observed: "recordExternalChange env k p kind author s = (r', t) \<Longrightarrow> service_step env s t"
| reconciled: "reconcileExternalChange env k p kind c s = (r'', t) \<Longrightarrow> service_step env s t"
| patched: "applyPatch env k call p patch base s = (ra, t) \<Longrightarrow> service_step env s t"
| written: "writeFileDirect env k call p content author s = (rs, t) \<Longrightarrow> service_step env s t"
| created: "createFile env k call p new s = (rs, t) \<Longrightarrow> service_step env s t"
| deleted: "deleteFile env k call p s = (ru, t) \<Longrightarrow> service_step env s t"
| renamed: "renameFile env k call p p' s = (ru, t) \<Longrightarrow> service_step env s t"
| rejected: "rejectHunk env k call p key hash s = (rs, t) \<Longrightarrow> service_step env s t"
| reverted: "revertFile env k call p expected s = (rv, t) \<Longrightarrow> service_step env s t"
| rolled_back: "rollback env k force s = (rr, t) \<Longrightarrow> service_step env s t"
| turned_back: "rollbackToStates env targets force s = (rt, t) \<Longrightarrow> service_step env s t"

inductive service_run :: "'r change_env \<Rightarrow> 'r change_state \<Rightarrow> 'r change_state \<Rightarrow> bool" for env where
  here: "service_run env s s"
| later: "service_run env s t \<Longrightarrow> service_step env t u \<Longrightarrow> service_run env s u"

context change_log
begin

lemma step_advance:
  assumes "ce_repo env = R" and "service_step env s t"
  shows "advance sound env s t"
  using assms(2)
proof cases
  case outside
  then show ?thesis by (rule advance_same)
next
  case (rolled_back k force rr)
  then show ?thesis using quietD[OF quiet_rollback(1), of s env k force] by (simp add: advance_same)
next
  case (turned_back targets force rt)
  then show ?thesis using quietD[OF quiet_rollback(2), of s env targets force] by (simp add: advance_same)
qed (metis assms(1) snd_conv steadyD steady_ensure steady_changes steady_review)+

lemma run_advance:
  assumes "ce_repo env = R" and "service_run env s t"
  shows "advance sound env s t"
  using assms(2) by induction (auto intro: advance_trans step_advance[OF assms(1)])

text \<open>What a capture stores, and that it outlives every run.\<close>

lemma captured_baseline:
  assumes "ce_repo env = R" and "intact sound env s" and none: "cr_getBaseline R k p (cs_repo s) = None"
    and run: "ensureBaseline env k p s = (Inr b, t)"
  shows "cr_getBaseline R k p (cs_repo t) = Some b \<and>
     (\<exists>loc. resolveInsideRoot (ds_fs s) (fe_root (ce_files env)) p = Inr loc \<and>
       (case and_then (stat_mode (ds_fs s) loc) (\<lambda>m. and_then (readFile (ds_fs s) loc) (\<lambda>c. Inr (m, c))) of
          Inl e \<Rightarrow> \<not> fb_existed b
        | Inr (m, c) \<Rightarrow> fb_existed b \<and> fb_mode b = Some m \<and> fb_blob b = Some (sha env c) \<and>
            get (sha env c) (cs_blobs t) = Some c))"
proof -
  obtain n h where n: "timestamp (ds_host s) = (n, h)" by fastforce
  obtain loc where loc: "resolveInsideRoot (ds_fs s) (fe_root (ce_files env)) p = Inr loc"
    using run none assms(1) by (auto simp: ensureBaseline_def andThen_def resolve_def split: sum.splits)
  have sound: "sound (cs_repo s)" using assms(2) by (simp add: intact_def)
  have blob: "get (sha env c) (snd (put (sha env) c (cs_blobs s))) = Some c" for c
    using blob.put_get[of "sha env" "cs_blobs s" c] assms(2) by (simp add: intact_def)
  have new: "cr_getBaseline R k p (cr_saveBaseline R x (cs_repo s)) = Some x"
    if "fb_task x = k" "fb_path x = p" for x
    using get_save[OF sound, of x k p] none that by simp
  show ?thesis
    using run none assms(1) n loc blob new
    by (auto simp: ensureBaseline_def andThen_def resolve_def clock_def saveBaseline_def putBlob_def
        absent_baseline_def present_baseline_def split_beta split: sum.splits)
qed

end

end
