(* ===== verification/Change_Properties.thy ===== *)
theory Change_Properties
  imports Change_Baselines
begin

text \<open>
  The properties of the change service and of the path guard, over the lemmas of \<open>Change_Safety\<close>
  (rollback) and \<open>Change_Baselines\<close> (captures), with small workspaces for their witnesses.
\<close>

abbreviation baselines_of :: "'r change_env \<Rightarrow> string \<Rightarrow> 'r change_state \<Rightarrow> file_baseline list" where
  "baselines_of env task s \<equiv> cr_baselinesFor (ce_repo env) task (cs_repo s)"

lemma file_free_way:
  assumes "tidy fs" and "file_at fs loc \<noteq> None"
  shows "free_way fs loc"
proof -
  have "file_at fs q = None" if "butlast loc = q @ r" for q r
  proof (cases "q = []")
    case False
    then obtain p x where q: "q = p @ [x]" by (meson rev_exhaust)
    have "loc \<noteq> []" using that False by auto
    then have "loc = p @ [x] @ r @ [last loc]" using that q append_butlast_last_id[of loc] by simp
    moreover have "node_at fs loc \<noteq> None" using assms(2) by (cases "node_at fs loc") (simp_all add: file_at_def)
    ultimately have "node_at fs q = Some Dir"
      unfolding q using tidy_parent[OF assms(1), of p x "r @ [last loc]"] by simp
    then show ?thesis by (simp add: file_at_def)
  qed (simp add: file_at_def)
  moreover have "fs loc \<noteq> Some Dir" using assms(2) by (auto simp: file_at_def node_at_def split: if_splits)
  ultimately show ?thesis by (simp add: free_way_def passable_def)
qed

text \<open>A capture changes no file and no document.\<close>

lemma ensure_files:
  assumes "ensureBaseline env task p s = (r, t)"
  shows "ds_fs t = ds_fs s" and "ds_docs t = ds_docs s"
    and "resolveInsideRoot (ds_fs s) (fe_root (ce_files env)) p = Inr loc \<Longrightarrow> \<exists>b. r = Inr b"
  using assms
  by (auto simp: ensureBaseline_def andThen_def resolve_def clock_def putBlob_def saveBaseline_def split_beta
      split: option.splits sum.splits)

section \<open>A sample workspace\<close>

definition sample_sha :: "bytes \<Rightarrow> string" where
  "sample_sha c = concat (map (\<lambda>n. replicate n CHR ''x'' @ ''y'') c)"

lemma sample_sha_head:
  "replicate m CHR ''x'' @ CHR ''y'' # u = replicate n CHR ''x'' @ CHR ''y'' # v \<Longrightarrow> m = n \<and> u = v"
proof (induction m arbitrary: n)
  case 0
  then show ?case by (cases n) auto
next
  case (Suc m)
  then show ?case by (cases n) auto
qed

lemma sample_sha_inj: "inj sample_sha"
proof
  show "sample_sha a = sample_sha b \<Longrightarrow> a = b" for a b
  proof (induction a arbitrary: b)
    case Nil
    then show ?case by (cases b) (auto simp: sample_sha_def)
  next
    case (Cons n a)
    then obtain m b' where b: "b = m # b'" by (cases b) (auto simp: sample_sha_def)
    then have "n = m \<and> sample_sha a = sample_sha b'"
      using Cons.prems sample_sha_head[of n "sample_sha a" m "sample_sha b'"] by (simp add: sample_sha_def)
    then show ?case using Cons.IH b by blast
  qed
qed

definition sample_files :: file_env where
  "sample_files =
     \<lparr> fe_root = [''w''], fe_sha = sample_sha, fe_largeBytes = 1000, fe_maxEditable = 10000,
       fe_newMode = 420, fe_writable = (\<lambda>m. m \<ge> 128), fe_pid = ''7'', fe_message = (\<lambda>_. ''error'') \<rparr>"

text \<open>A patch is the new content; a difference is its lines joined.\<close>

definition sample_diff :: diff_lib where
  "sample_diff =
     \<lparr> df_apply = (\<lambda>c p. if p = [] then None else Some p), df_twoFiles = (\<lambda>a b c d. c @ [10] @ d),
       df_parse = (\<lambda>_. Some []), df_reverse = id, df_format = (\<lambda>_. []) \<rparr>"

definition sample_env :: "sqlite_repo change_env" where
  "sample_env =
     \<lparr> ce_files = sample_files, ce_repo = SqliteChangeRepo, ce_diff = sample_diff,
       ce_collate = (\<lambda>a b. True) \<rparr>"

definition sample_tree :: tree where
  "sample_tree = Map.empty([''w''] \<mapsto> Dir, [''w'', ''a''] \<mapsto> File [1] 384)"

definition sample_start :: "sqlite_repo change_state" where
  "sample_start =
     \<lparr> ds_fs = sample_tree, ds_docs = [], ds_host = sample_host, cs_blobs = Map.empty,
       cs_repo = ([], []) \<rparr>"

text \<open>The task has modified \<open>a\<close> and created \<open>b\<close>.\<close>

definition sample_baselines :: "file_baseline list" where
  "sample_baselines =
     [present_baseline ''t'' ''a'' (sample_sha [1]) (Some 384) 1 1000, absent_baseline ''t'' ''b'' 1001]"

definition sample_change :: "string \<Rightarrow> string \<Rightarrow> change_kind \<Rightarrow> bytes \<Rightarrow> int \<Rightarrow> change_record" where
  "sample_change i p kind c t =
     \<lparr> fc_id = i, fc_task = ''t'', fc_toolCall = None, fc_path = p, fc_kind = kind, fc_before = None,
       fc_after = Some (sample_sha c), fc_patch = None, fc_renameTo = None, fc_author = By_agent,
       fc_createdAt = t \<rparr>"

definition sample_changed :: "sqlite_repo change_state" where
  "sample_changed = sample_start
     \<lparr> ds_fs := Map.empty([''w''] \<mapsto> Dir, [''w'', ''a''] \<mapsto> File [2] 420, [''w'', ''b''] \<mapsto> File [3] 420),
       cs_blobs := [sample_sha [1] \<mapsto> [1], sample_sha [2] \<mapsto> [2], sample_sha [3] \<mapsto> [3]],
       cs_repo := (sample_baselines,
         [sample_change ''1'' ''a'' Ch_modified [2] 1002, sample_change ''2'' ''b'' Ch_created [3] 1003]) \<rparr>"

text \<open>Then somebody else has written \<open>a\<close>.\<close>

definition sample_foreign :: "sqlite_repo change_state" where
  "sample_foreign = sample_changed\<lparr> ds_fs := (ds_fs sample_changed)([''w'', ''a''] \<mapsto> File [4] 420) \<rparr>"

lemma sample_temp [simp]:
  "''w'' \<noteq> temp_name sample_files t" "''a'' \<noteq> temp_name sample_files t" "''b'' \<noteq> temp_name sample_files t"
  "temp_name sample_files t \<noteq> ''w''" "temp_name sample_files t \<noteq> ''a''" "temp_name sample_files t \<noteq> ''b''"
  by (simp_all add: temp_name_def)

lemma sample_env_simps [simp]:
  "ce_files sample_env = sample_files" "ce_repo sample_env = SqliteChangeRepo" "ce_diff sample_env = sample_diff"
  "fe_root sample_files = [''w'']" "fe_sha sample_files = sample_sha"
  by (simp_all add: sample_env_def sample_files_def)

lemma sample_workspaces:
  "workspace_ok sample_files sample_tree" "workspace_ok sample_files (ds_fs sample_changed)"
  "workspace_ok sample_files (ds_fs sample_foreign)"
  by (auto simp: workspace_ok_def tidy_def no_temp_def sample_tree_def sample_foreign_def sample_changed_def append_eq_Cons_conv)

lemma sample_places: "place sample_env ''a'' = [''w'', ''a'']" "place sample_env ''b'' = [''w'', ''b'']"
  by (simp add: place_def; code_simp)+

lemma sample_own: "own_path sample_env ''a''" "own_path sample_env ''b''"
  by (auto simp: own_path_def sample_places acceptable_def inside_def isAbsolute_def
      sample_places[unfolded place_def sample_env_simps])

lemma sample_baselines_of:
  "baselines_of sample_env ''t'' sample_changed = sample_baselines"
  "baselines_of sample_env ''t'' sample_foreign = sample_baselines"
  by (simp_all add: sample_foreign_def sample_changed_def sample_baselines_def present_baseline_def absent_baseline_def)

lemma sample_trees:
  "file_at (ds_fs sample_changed) = [[''w'', ''a''] \<mapsto> ([2], 420), [''w'', ''b''] \<mapsto> ([3], 420)]"
  "file_at (ds_fs sample_foreign) = [[''w'', ''a''] \<mapsto> ([4], 420), [''w'', ''b''] \<mapsto> ([3], 420)]"
  "file_at sample_tree = [[''w'', ''a''] \<mapsto> ([1], 384)]"
  by (auto simp: fun_eq_iff file_at_def node_at_def sample_foreign_def sample_changed_def sample_tree_def)

lemma sample_free:
  "free_way (ds_fs sample_changed) [''w'', ''a'']" "free_way (ds_fs sample_changed) [''w'', ''b'']"
  using sample_workspaces(2) by (auto intro!: file_free_way simp: workspace_ok_def sample_trees)

lemma sample_hashes:
  "disk_hash sample_env [''w'', ''a''] sample_changed = Some (sample_sha [2])"
  "disk_hash sample_env [''w'', ''b''] sample_changed = Some (sample_sha [3])"
  "disk_hash sample_env [''w'', ''a''] sample_foreign = Some (sample_sha [4])"
  "disk_hash sample_env [''w'', ''b''] sample_foreign = Some (sample_sha [3])"
proof -
  have read: "read_or_null fs p = Some c" if "workspace_ok sample_files fs" "plain p" "file_at fs p = Some (c, m)"
    for fs p c m
    using that readFile_tidy[of fs p c] by (auto simp: workspace_ok_def read_or_null_def)
  show "disk_hash sample_env [''w'', ''a''] sample_changed = Some (sample_sha [2])"
    "disk_hash sample_env [''w'', ''b''] sample_changed = Some (sample_sha [3])"
    "disk_hash sample_env [''w'', ''a''] sample_foreign = Some (sample_sha [4])"
    "disk_hash sample_env [''w'', ''b''] sample_foreign = Some (sample_sha [3])"
    unfolding disk_hash_def
    by (simp_all add: read[OF sample_workspaces(2)] read[OF sample_workspaces(3)] sample_trees)
qed

lemma sample_expected:
  "map_of (expectedPostTaskState sample_env ''t'' sample_changed) p =
     [''a'' \<mapsto> Some (sample_sha [2]), ''b'' \<mapsto> Some (sample_sha [3])] p"
  "expectedPostTaskState sample_env ''t'' sample_foreign = expectedPostTaskState sample_env ''t'' sample_changed"
  by (simp_all add: expectedPostTaskState_def sample_foreign_def sample_changed_def sample_change_def expect_def)

lemma sample_stored: "stored sample_env (cs_blobs sample_changed) b" if "b \<in> set sample_baselines"
proof -
  have "cs_blobs sample_changed (sample_sha [1]) = Some [1]"
    using sample_sha_inj by (simp add: sample_changed_def inj_eq)
  then show ?thesis using that by (auto simp: sample_baselines_def present_baseline_def absent_baseline_def stored_def)
qed

section \<open>Rollback of a task\<close>





section \<open>Captures\<close>


lemma sample_intact: "intact sqlite_sound sample_env sample_start"
  using sample_sha_inj by (simp add: intact_def sample_start_def sqlite_sound_def blobs_good_def)

lemma sample_read:
  "resolveInsideRoot sample_tree [''w''] ''a'' = Inr [''w'', ''a'']"
  "readFile sample_tree [''w'', ''a''] = Inr [1]" "stat_mode sample_tree [''w'', ''a''] = Inr 384"
proof -
  have start: "ds_fs sample_start = sample_tree" by (simp add: sample_start_def)
  show "resolveInsideRoot sample_tree [''w''] ''a'' = Inr [''w'', ''a'']"
    using resolve_run(1)[of sample_env sample_start "''a''"] sample_workspaces(1) sample_own(1)
    by (simp add: start sample_places)
  have tidy: "tidy sample_tree" using sample_workspaces(1) by (simp add: workspace_ok_def)
  show "readFile sample_tree [''w'', ''a''] = Inr [1]" "stat_mode sample_tree [''w'', ''a''] = Inr 384"
    using readFile_tidy[OF tidy] stat_tidy[OF tidy] by (simp_all add: sample_trees)
qed


section \<open>Patches\<close>

definition patch_refusal ::
    "'r change_env \<Rightarrow> string \<Rightarrow> utext \<Rightarrow> string \<Rightarrow> 'r change_state \<Rightarrow> string option" where
  "patch_refusal env p patch base s =
     (case logical_or_null env p s of
        None \<Rightarrow> Some ''CHG_TARGET_MISSING''
      | Some l \<Rightarrow>
          if lg_binary l then Some ''CHG_BINARY''
          else if base \<noteq> lg_hash l then Some ''CHG_VERSION_CONFLICT''
          else if df_apply (ce_diff env) (lg_content l) patch = None then Some ''CHG_PATCH_FAILED''
          else None)"

lemma logical_cong: "ds_fs t = ds_fs s \<Longrightarrow> ds_docs t = ds_docs s \<Longrightarrow> logical_or_null env p t = logical_or_null env p s"
  by (simp add: logical_or_null_def readLogical_def cong: option.case_cong sum.case_cong)

lemma closed_logical:
  assumes "workspace_ok (ce_files env) (ds_fs s)" and "own_path env p" and "\<not> isOpen p s"
    and "logical_or_null env p s = Some l"
  obtains c m where "file_at (ds_fs s) (place env p) = Some (c, m)" and "l = disk_logical (ce_files env) c"
proof -
  have tidy: "tidy (ds_fs s)" using assms(1) by (simp add: workspace_ok_def)
  obtain c where c: "readFile (ds_fs s) (place env p) = Inr c" "l = disk_logical (ce_files env) c"
    using assms(3,4) resolve_run(1)[OF assms(1,2)]
    by (auto simp: logical_or_null_def readLogical_def isOpen_def split: sum.splits)
  then show thesis using that readFile_tidy[OF tidy place_plain[OF assms(1)]] by blast
qed

lemma patch_written:
  assumes ok: "workspace_ok (ce_files env) (ds_fs s)" and own: "own_path env p" and closed: "\<not> isOpen p s"
    and "logical_or_null env p s = Some l"
  obtains t m where "writeThrough env p new s = (Inr (), t)" and "ds_docs t = ds_docs s"
    and "\<And>q. file_at (ds_fs t) q =
      (if q = place env p then Some (utf8_encode new, m) else file_at (ds_fs s) q)"
proof -
  have loc: "place env p \<noteq> []" by (rule place_nonempty[OF ok own])
  have "file_at (ds_fs s) (place env p) \<noteq> None" using closed_logical[OF assms] by fastforce
  then have free: "free_way (ds_fs s) (place env p)" using ok file_free_way by (auto simp: workspace_ok_def)
  obtain fs' h m where w: "writeBytes env p (utf8_encode new) None s = (Inr (), s\<lparr>ds_host := h, ds_fs := fs'\<rparr>)"
    and "placed (ds_fs s) (place env p) (utf8_encode new) m fs'"
    using writeBytes_run[OF ok own free, of "utf8_encode new" None] by blast
  then show thesis using that[of _ m] closed placed_file[OF _ loc] by (simp add: writeThrough_def)
qed



section \<open>The path guard\<close>



end
