(* ===== verification/Change_Gaps.thy ===== *)
theory Change_Gaps
  imports Change_Properties
begin

text \<open>
  Where the change service departs from what its comments promise: a deletion observed again, two
  changes of one millisecond, a file written under two spellings of its path, and the mark of a
  document whose encoding has one.
\<close>

text \<open>\<open>reconcileExternalChange\<close> skips a state already recorded. A recorded deletion has no hash, so
  the comparison falls back to the baseline and the deletion is recorded again.\<close>

lemma deletion_recorded_again:
  assumes "cr_getBaseline (ce_repo env) task p (cs_repo s) = Some b" and "fb_blob b = Some h"
    and "last_change env task p s = Some c" and "fc_kind c = Ch_deleted" and "fc_after c = None"
  shows "\<exists>d t. reconcileExternalChange env task p Ch_deleted content s = (Inr (Some d), t) \<and>
    fc_kind d = Ch_deleted \<and> fc_path d = p"
  using assms
  by (simp add: reconcileExternalChange_def ensureBaselineFromBytes_def recordExternalChange_def andThen_def
      done_with_def recordChange_def newChangeId_def clock_def Let_def coalesce_def split: prod.split)

text \<open>The rows of one millisecond are read in the order of their random identifiers.\<close>

lemma same_millisecond_order:
  assumes "fc_createdAt c = fc_createdAt d" and "fc_id d < fc_id c" and "fc_task c = task" and "fc_task d = task"
  shows "cr_changesFor SqliteChangeRepo task
    (cr_recordChange SqliteChangeRepo d (cr_recordChange SqliteChangeRepo c ([], []))) = [d, c]"
  using assms by (simp add: less_le_not_le)

text \<open>Two spellings of one path have two baselines. When the task writes first through one and then
  through the other, its own last write is foreign to the first spelling.\<close>

definition aliased :: "sqlite_repo change_state" where
  "aliased = sample_start
     \<lparr> ds_fs := Map.empty([''w''] \<mapsto> Dir, [''w'', ''a''] \<mapsto> File [3] 384),
       cs_blobs := [sample_sha [1] \<mapsto> [1], sample_sha [2] \<mapsto> [2], sample_sha [3] \<mapsto> [3]],
       cs_repo := ([present_baseline ''t'' ''a'' (sample_sha [1]) (Some 384) 1 1000,
                    present_baseline ''t'' ''./a'' (sample_sha [2]) (Some 384) 1 1002],
         [sample_change ''1'' ''a'' Ch_modified [2] 1001, sample_change ''2'' ''./a'' Ch_modified [3] 1003]) \<rparr>"

lemma aliased_place: "place sample_env ''./a'' = [''w'', ''a'']"
  by (simp add: place_def; code_simp)

lemma aliased_conflict: "rollback sample_env ''t'' False aliased = (Inl (Product ''CHG_ROLLBACK_CONFLICT''), aliased)"
proof -
  let ?a = "present_baseline ''t'' ''a'' (sample_sha [1]) (Some 384) 1 1000"
  let ?b = "present_baseline ''t'' ''./a'' (sample_sha [2]) (Some 384) 1 1002"
  have ok: "workspace_ok sample_files (ds_fs aliased)"
    by (auto simp: workspace_ok_def tidy_def no_temp_def aliased_def append_eq_Cons_conv)
  have "acceptable [''w''] ''./a''"
    using aliased_place by (simp add: acceptable_def isAbsolute_def place_def inside_def)
  then have own: "own_path sample_env ''./a''" by (simp add: own_path_def aliased_place)
  have bs: "baselines_of sample_env ''t'' aliased = [?a, ?b]" by (simp add: aliased_def present_baseline_def)
  have "\<forall>x\<in>set (baselines_of sample_env ''t'' aliased). own_path sample_env (fb_path x)"
    unfolding bs using own sample_own(1) by (simp add: present_baseline_def)
  then obtain pre where pre: "rollbackPreflight sample_env ''t'' aliased = (Inr pre, aliased)"
    "map rc_path (pf_conflicts pre) = map fb_path (filter (foreign_change sample_env ''t'' aliased) [?a, ?b])"
    using preflight_run[of sample_env aliased "''t''"] ok unfolding bs by auto
  have "readFile (ds_fs aliased) [''w'', ''a''] = Inr [3]"
    using ok readFile_tidy[of "ds_fs aliased" "[''w'', ''a'']" "[3]"]
    by (simp add: workspace_ok_def file_at_def) (simp add: aliased_def)
  then have "disk_hash sample_env [''w'', ''a''] aliased = Some (sample_sha [3])"
    by (simp add: disk_hash_def read_or_null_def)
  moreover have "map_of (expectedPostTaskState sample_env ''t'' aliased) ''a'' = Some (Some (sample_sha [2]))"
    by (simp add: expectedPostTaskState_def aliased_def sample_change_def expect_def)
  ultimately have "foreign_change sample_env ''t'' aliased ?a"
    using sample_sha_inj by (simp add: foreign_change_def present_baseline_def sample_places inj_eq)
  then have "pf_conflicts pre \<noteq> []" using pre(2) by auto
  then show ?thesis using pre(1) by (simp add: rollback_def andThen_def chgError_def fail_with_def)
qed

text \<open>What a save writes for a document with a byte order mark is not what the change service hashes
  as the state it leaves.\<close>

lemma marked_payload: "dc_encoding d = Enc_utf8_bom \<Longrightarrow> payload d \<noteq> utf8_encode (dc_content d)"
proof
  assume "dc_encoding d = Enc_utf8_bom" and "payload d = utf8_encode (dc_content d)"
  then have "length (utf8_char BOM) = 0" by (simp add: payload_def utf8_encode_def)
  then show False by (simp add: BOM_def utf8_char_def surrogate_def)
qed

end
