(* ===== verification/Spec2Isabelle.thy ===== *)
theory Spec2Isabelle
  imports Foundation Host_Services Transition_Tables Task_Machine Orchestration_Domain
    Dependency_Graph Canonical_Json Permission_Store Permission_Engine Permission_Safety
    Permission_Properties Plan_Utils Tool_Gateway
    Fabric_Tables Fabric_Transactions Fabric_Core Fabric_Queries Fabric_Delegation Fabric_Batch
    Fabric_Messages Fabric_Attempts Fabric_Assignments Fabric_Continuations Fabric_Outbox
    Fabric_Retention Fabric_Logic Fabric_Frames Fabric_Steps Fabric_Invariant Fabric_Refinement
    Fabric_Properties
    Text_Codec File_System Path_Guard Document_Store Change_Store Change_Service Change_Review
    Change_Properties Change_Gaps
begin

text \<open>
  A verification development for Charter, a desktop application in which people and coding agents
  work on one workspace. The program's own logic lies in the packages below; they meet in the
  desktop main process, which is wiring around them.

  \<^bold>\<open>Parts and theories\<close>

  \<^item> \<open>packages/foundation\<close>: \<open>Foundation\<close> (errors, sequence numbers, bytes and line endings, JSON
    values) and \<open>Host_Services\<close> (identifiers and the clock, which the host supplies).
  \<^item> \<open>packages/app-domain\<close> and \<open>packages/orchestration-domain\<close>: the Session and Mission state
    machines in \<open>Task_Machine\<close> and \<open>Orchestration_Domain\<close>, instances of \<open>Transition_Tables\<close>; the
    task graph in \<open>Dependency_Graph\<close>.
  \<^item> \<open>packages/tool-gateway\<close>: a tool call passes \<open>Tool_Gateway\<close> (\<open>gateway.ts\<close>), which asks the
    decider \<open>Permission_Engine\<close> (\<open>permission-engine.ts\<close>) over a \<open>Permission_Store\<close> and an input hash
    (\<open>Canonical_Json\<close>); \<open>Plan_Utils\<close> is \<open>plan-utils.ts\<close>.
  \<^item> \<open>packages/persistence\<close>: the Mission store. \<open>Fabric_Tables\<close> and \<open>Fabric_Transactions\<close> are the
    schema and its transactions; \<open>Fabric_Core\<close>, \<open>Fabric_Queries\<close>, \<open>Fabric_Delegation\<close>,
    \<open>Fabric_Batch\<close>, \<open>Fabric_Messages\<close>, \<open>Fabric_Attempts\<close>, \<open>Fabric_Assignments\<close>,
    \<open>Fabric_Continuations\<close>, \<open>Fabric_Outbox\<close> and \<open>Fabric_Retention\<close> are the operations of
    \<open>MissionRepository\<close>, in groups that follow the file.
  \<^item> \<open>packages/workspace-service\<close>, \<open>document-service\<close> and \<open>change-service\<close>: every file access
    passes \<open>Path_Guard\<close> (\<open>resolveInsideRoot\<close>); \<open>Document_Store\<close> keeps the open documents over the
    tree of \<open>File_System\<close>; \<open>Change_Store\<close> holds blobs, baselines and the change log;
    \<open>Change_Service\<close> is every write of a task and \<open>Change_Review\<close> its change set, review and
    rollbacks.

  \<^bold>\<open>What is shown\<close>

  \<^item> Permissions: \<open>Permission_Safety\<close> has the invariant of the engine, \<open>Permission_Properties\<close> its
    consequences. Every waiting call is answered once, an approval is bound to the input the user
    saw, a permanent denial holds across restarts, and no stored allow rule covers an R3 action.
    \<open>Tool_Gateway\<close> shows that nothing runs which the decider and the mode do not permit, and the
    shape of the audit trail. The contracts are the locales \<open>permission_store_laws\<close> and
    \<open>permission_decider\<close>, interpreted on the stores and on the engine.
  \<^item> Mission store: \<open>Fabric_Steps\<close> is the abstract specification, a step relation over the tables;
    \<open>Fabric_Invariant\<close> its invariant. \<open>Fabric_Logic\<close>, \<open>Fabric_Frames\<close>, \<open>Fabric_Waits\<close>,
    \<open>Fabric_Refinement\<close>, \<open>Fabric_Operations\<close>, \<open>Fabric_Control\<close> and \<open>Fabric_Service\<close> prove that
    every call, failed ones included, refines it. \<open>Fabric_History\<close>, \<open>Fabric_Effects\<close>,
    \<open>Fabric_Wakeup\<close>, \<open>Fabric_Claims\<close> and \<open>Fabric_Batch_Order\<close> hold what single operations and
    sequences of calls do, \<open>Fabric_Samples\<close> concrete databases, \<open>Fabric_Properties\<close> the theorems.
  \<^item> Changes: \<open>Change_Safety\<close> runs a write, a removal and the restoring loop on a workspace without
    symbolic links; \<open>Change_Baselines\<close> shows that no operation undoes a capture. The theorems are in
    \<open>Change_Properties\<close>: a rollback restores every file exactly or refuses and changes nothing, a
    patch runs only against its own text, a guarded path stays inside the root. \<open>Change_Gaps\<close> and
    \<open>Path_Guard.guard_loop_escape\<close> show where the code does less than its comments promise.

  \<^bold>\<open>How the code is read\<close>

  State is explicit: a record per object, an association list per \<open>Map\<close> (\<open>Charter_Prelude\<close>), a list
  of rows per table in row order (also where a query names no order). A transaction that throws
  returns the error and leaves the database of its caller; a file operation that throws leaves what
  it wrote. An \<open>await\<close> runs to its end before the next operation starts: interleavings are the
  sequences of whole operations, of answers and of outside changes, which the run relations
  quantify over. Times are milliseconds, text is lists of code points, hashes are parameters;
  where a theorem needs a hash without collisions it says so.

  Recursion is structural or has a measure: the search of the task graph and the visit of a batch
  mark one more entry in each round, the resolution of links is bounded by the limit of the
  platform (40), and the probe of the path guard shortens its path. No operation needs fuel.

  \<^bold>\<open>Not modelled\<close>

  The renderer, the IPC contracts and the wiring of the main process hold views and schemas. The
  terminal, ssh, git, search, language and verification services and the agent runtimes wrap
  external programs and third-party libraries. The tools of the gateway, the package \<open>diff\<close>, the
  collation of names and the redaction of displayed text are parameters. Logging, listeners and
  event handlers observe and are left out, as are the opening, migration and backup of the
  database file and the concurrency of file operations of different processes.
\<close>

end
